(* ===== verification/Prelude.thy ===== *)
theory Prelude
  imports Main "HOL-Library.FSet" "HOL-Library.Finite_Map" "HOL-Library.Word"
begin

text \<open>
  Shared ground of the development: the types the components use for Go's maps and sets,
  the outcome type of code that may panic, and the generic lemmas on finite maps, finite
  sets and lists that more than one component needs.

  \<^item> A Go \<open>map[K]V\<close> is a finite map \<open>(K, V) fmap\<close>; indexing a missing key gives the zero
    value of \<open>V\<close>, which \<open>map_get\<close> writes out. A \<open>sets.Int\<close> or \<open>sets.String\<close> is an \<open>fset\<close>.
  \<^item> A \<open>range\<close> over a map visits every key once in an order the runtime picks. Where the
    order cannot be observed the model folds over one canonical order and a lemma says
    that any other order gives the same result; where it can be observed the order is an
    argument constrained by \<open>range_order\<close>.
  \<^item> \<open>int\<close> and \<open>int64\<close> are 64 bits wide on the supported platforms; \<open>wrap64\<close> is the
    two's complement wrap-around.
\<close>

named_theorems go_simps \<open>evaluation rules of the Go standard library model\<close>
named_theorems topo_simps \<open>lookup rules of the topology maps\<close>
named_theorems inv_intros \<open>introduction rules for the invariants of the components\<close>

type_synonym uid = string
type_synonym int64 = "64 word"

datatype 'a outcome = Panic | Ret 'a

section \<open>Sixty-four bit integers\<close>

definition wrap64 :: "int \<Rightarrow> int" where
  "wrap64 i = (i + 2 ^ 63) mod 2 ^ 64 - 2 ^ 63"

definition in_int64 :: "int \<Rightarrow> bool" where
  "in_int64 i \<longleftrightarrow> - (2 ^ 63) \<le> i \<and> i < 2 ^ 63"

lemma wrap64_id [simp]: "in_int64 i \<Longrightarrow> wrap64 i = i"
  by (simp add: wrap64_def in_int64_def)

lemma wrap64_range: "in_int64 (wrap64 i)"
proof -
  have "0 \<le> (i + 2 ^ 63) mod 2 ^ 64 \<and> (i + 2 ^ 63) mod 2 ^ 64 < (2 ^ 64 :: int)"
    by simp
  then show ?thesis by (auto simp: wrap64_def in_int64_def)
qed

lemma in_int64_sint [simp, intro]: "in_int64 (sint (w :: int64))"
  using sint_range_size [of w] by (simp add: in_int64_def word_size)

lemma sint_of_int64: "in_int64 i \<Longrightarrow> sint (word_of_int i :: int64) = i"
  by (simp add: in_int64_def sint_sbintrunc' signed_take_bit_int_eq_self)

section \<open>Maps with zero values\<close>

definition map_get :: "'v \<Rightarrow> ('k, 'v) fmap \<Rightarrow> 'k \<Rightarrow> 'v" where
  "map_get zero m k = (case fmlookup m k of None \<Rightarrow> zero | Some v \<Rightarrow> v)"

definition has_key :: "('k, 'v) fmap \<Rightarrow> 'k \<Rightarrow> bool" where
  "has_key m k \<longleftrightarrow> fmlookup m k \<noteq> None"

lemma map_get_upd [simp]: "map_get z (fmupd k v m) j = (if j = k then v else map_get z m j)"
  by (simp add: map_get_def)

lemma map_get_empty [simp]: "map_get z fmempty j = z"
  by (simp add: map_get_def)

lemma map_get_drop [simp]: "map_get z (fmdrop k m) j = (if j = k then z else map_get z m j)"
  by (simp add: map_get_def)

lemma has_key_iff: "has_key m k \<longleftrightarrow> k |\<in>| fmdom m"
  by (simp add: has_key_def fmlookup_dom_iff) 

lemma has_key_upd [simp]: "has_key (fmupd k v m) j \<longleftrightarrow> j = k \<or> has_key m j"
  by (simp add: has_key_def)

lemma has_key_empty [simp]: "\<not> has_key fmempty j"
  by (simp add: has_key_def)

lemma has_key_drop [simp]: "has_key (fmdrop k m) j \<longleftrightarrow> j \<noteq> k \<and> has_key m j"
  by (simp add: has_key_def)

lemma map_get_absent: "\<not> has_key m k \<Longrightarrow> map_get z m k = z"
  by (simp add: map_get_def has_key_def split: option.split)

section \<open>Ranging over a map\<close>

definition range_order :: "(('k, 'v) fmap \<Rightarrow> 'k list) \<Rightarrow> bool" where
  "range_order rng \<longleftrightarrow> (\<forall>m. distinct (rng m) \<and> set (rng m) = fset (fmdom m))"

definition sorted_range :: "('k :: linorder, 'v) fmap \<Rightarrow> 'k list" where
  "sorted_range m = sorted_list_of_fset (fmdom m)"

lemma range_order_sorted: "range_order sorted_range"
  by (simp add: range_order_def sorted_range_def sorted_list_of_fset.rep_eq)

lemma range_orderD: "range_order rng \<Longrightarrow> set (rng m) = fset (fmdom m)"
  by (simp add: range_order_def)

lemma range_order_distinct: "range_order rng \<Longrightarrow> distinct (rng m)"
  by (simp add: range_order_def)

section \<open>Filtering and mapping a finite set\<close>

definition fcollect :: "('a \<Rightarrow> 'b option) \<Rightarrow> 'a fset \<Rightarrow> 'b fset" where
  "fcollect f A = (\<lambda>x. the (f x)) |`| ffilter (\<lambda>x. f x \<noteq> None) A"

lemma fcollect_iff [simp]: "y |\<in>| fcollect f A \<longleftrightarrow> (\<exists>x. x |\<in>| A \<and> f x = Some y)"
  by (force simp: fcollect_def)

section \<open>Lists\<close>

lemma length_filter_compl: "length (filter P xs) + length (filter (\<lambda>x. \<not> P x) xs) = length xs"
  by (induction xs) auto

lemma fold_fmupd_lookup:
  "fmlookup (fold (\<lambda>k m. fmupd k (f k) m) ks m) x = (if x \<in> set ks then Some (f x) else fmlookup m x)"
  by (induction ks arbitrary: m) auto

end
