(* ===== verification/GoStd.thy ===== *)
theory GoStd
  imports Prelude "HOL-Library.Sublist"
begin

text \<open>
  The parts of Go's standard library the program computes with: \<open>strings.HasPrefix\<close>,
  \<open>strings.TrimPrefix\<close>, \<open>strings.Split\<close>, \<open>strings.Join\<close>, \<open>strings.ReplaceAll\<close> for one
  character, \<open>strconv.FormatInt\<close> (also the verb \<open>%d\<close> of \<open>fmt\<close>) and
  \<open>strconv.ParseInt(s, 10, 0)\<close>. They belong to the language's library and not to the
  repository, so they have no entry in the map. The lemmas show that decimal text
  round-trips for every 64-bit integer and that splitting undoes joining.
\<close>

section \<open>Package strings\<close>

definition HasPrefix :: "string \<Rightarrow> string \<Rightarrow> bool" where
  "HasPrefix s p \<longleftrightarrow> take (length p) s = p"

definition TrimPrefix :: "string \<Rightarrow> string \<Rightarrow> string" where
  "TrimPrefix s p = (if HasPrefix s p then drop (length p) s else s)"

definition ReplaceChar :: "string \<Rightarrow> char \<Rightarrow> char \<Rightarrow> string" where
  "ReplaceChar s a b = map (\<lambda>c. if c = a then b else c) s"

fun Join :: "string list \<Rightarrow> string \<Rightarrow> string" where
  "Join [] sep = []"
| "Join [s] sep = s"
| "Join (s # t # ts) sep = s @ sep @ Join (t # ts) sep"

fun SplitChar :: "string \<Rightarrow> char \<Rightarrow> string list" where
  "SplitChar [] d = [[]]"
| "SplitChar (c # cs) d =
     (if c = d then [] # SplitChar cs d
      else (case SplitChar cs d of [] \<Rightarrow> [[c]] | s # ss \<Rightarrow> (c # s) # ss))"

lemma HasPrefix_append [go_simps, simp]: "HasPrefix (p @ s) p"
  by (simp add: HasPrefix_def)

lemma TrimPrefix_append [go_simps, simp]: "TrimPrefix (p @ s) p = s"
  by (simp add: TrimPrefix_def)

lemma HasPrefix_iff: "HasPrefix s p \<longleftrightarrow> (\<exists>t. s = p @ t)"
  by (metis HasPrefix_append HasPrefix_def append_take_drop_id)

lemma SplitChar_nonempty [simp]: "SplitChar s d \<noteq> []"
  by (induction s) (auto split: list.split)

lemma SplitChar_no_sep: "d \<notin> set s \<Longrightarrow> SplitChar s d = [s]"
  by (induction s) auto

lemma SplitChar_append:
  "d \<notin> set s \<Longrightarrow> SplitChar (s @ d # t) d = s # SplitChar t d"
  by (induction s) auto

lemma SplitChar_Join:
  "ss \<noteq> [] \<Longrightarrow> \<forall>s \<in> set ss. d \<notin> set s \<Longrightarrow> SplitChar (Join ss [d]) d = ss"
  by (induction ss "[d]" rule: Join.induct) (auto simp: SplitChar_no_sep SplitChar_append)

section \<open>Package strconv\<close>

definition digit_char :: "nat \<Rightarrow> char" where
  "digit_char n = char_of (48 + n)"

definition digit_val :: "char \<Rightarrow> nat option" where
  "digit_val c = (let n = (of_char c :: nat) in if 48 \<le> n \<and> n \<le> 57 then Some (n - 48) else None)"

fun show_nat :: "nat \<Rightarrow> string" where
  "show_nat n = (if n < 10 then [digit_char n] else show_nat (n div 10) @ [digit_char (n mod 10)])"

declare show_nat.simps [simp del]

definition FormatInt :: "int \<Rightarrow> string" where
  "FormatInt i = (if i < 0 then CHR ''-'' # show_nat (nat (- i)) else show_nat (nat i))"

fun digits_val :: "nat \<Rightarrow> string \<Rightarrow> nat option" where
  "digits_val acc [] = Some acc"
| "digits_val acc (c # cs) =
     (case digit_val c of None \<Rightarrow> None | Some d \<Rightarrow> digits_val (10 * acc + d) cs)"

definition ParseInt :: "string \<Rightarrow> int option" where
  "ParseInt s =
     (let neg = (s \<noteq> [] \<and> hd s = CHR ''-'');
          ds = (if s \<noteq> [] \<and> (hd s = CHR ''-'' \<or> hd s = CHR ''+'') then tl s else s)
      in if ds = [] then None
         else (case digits_val 0 ds of
                 None \<Rightarrow> None
               | Some n \<Rightarrow>
                   (let i = (if neg then - int n else int n)
                    in if in_int64 i then Some i else None)))"

lemma digit_val_char: "d < 10 \<Longrightarrow> digit_val (digit_char d) = Some d"
  by (simp add: digit_val_def digit_char_def)

lemma digits_val_append:
  "digits_val acc (xs @ ys) = Option.bind (digits_val acc xs) (\<lambda>a. digits_val a ys)"
  by (induction xs arbitrary: acc) (auto split: option.split)

lemma digits_val_show_nat: "digits_val 0 (show_nat n) = Some n"
proof (induction n rule: show_nat.induct)
  case (1 n)
  then show ?case
    by (cases "n < 10") (simp_all add: show_nat.simps [of n] digit_val_char digits_val_append)
qed

lemma show_nat_nonempty [simp]: "show_nat n \<noteq> []"
  by (simp add: show_nat.simps [of n])

lemma set_show_nat: "set (show_nat n) \<subseteq> digit_char ` {..<10}"
proof (induction n rule: show_nat.induct)
  case (1 n)
  then show ?case
    by (cases "n < 10") (auto simp: show_nat.simps [of n])
qed

lemma digit_char_not_sign: "d < 10 \<Longrightarrow> digit_char d \<noteq> CHR ''-'' \<and> digit_char d \<noteq> CHR ''+'' \<and> digit_char d \<noteq> CHR ''/''"
  using digit_val_char [of d] by (auto simp: digit_val_def)

lemma show_nat_no_sign:
  "CHR ''-'' \<notin> set (show_nat n) \<and> CHR ''+'' \<notin> set (show_nat n) \<and> CHR ''/'' \<notin> set (show_nat n)"
  using set_show_nat [of n] digit_char_not_sign by fastforce

lemma hd_show_nat: "hd (show_nat n) \<noteq> CHR ''-'' \<and> hd (show_nat n) \<noteq> CHR ''+''"
  by (metis hd_in_set show_nat_no_sign show_nat_nonempty)

theorem ParseInt_FormatInt [go_simps, simp]: "in_int64 i \<Longrightarrow> ParseInt (FormatInt i) = Some i"
  using hd_show_nat [of "nat i"]
  by (cases "i < 0") (auto simp: ParseInt_def FormatInt_def Let_def digits_val_show_nat)

lemma ParseInt_range: "ParseInt s = Some i \<Longrightarrow> in_int64 i"
  by (auto simp: ParseInt_def Let_def split: if_splits option.splits)

lemma ParseInt_FormatInt_Some: "ParseInt (FormatInt i) = Some j \<Longrightarrow> j = i"
  using hd_show_nat [of "nat i"]
  by (cases "i < 0") (auto simp: ParseInt_def FormatInt_def Let_def digits_val_show_nat split: if_splits)

lemma FormatInt_inj: "in_int64 i \<Longrightarrow> in_int64 j \<Longrightarrow> FormatInt i = FormatInt j \<Longrightarrow> i = j"
  by (metis ParseInt_FormatInt option.inject)

lemma FormatInt_no_slash: "CHR ''/'' \<notin> set (FormatInt i)"
  using show_nat_no_sign by (auto simp: FormatInt_def)

section \<open>Package path\<close>

definition clean_step :: "bool \<Rightarrow> string \<Rightarrow> string list \<Rightarrow> string list" where
  "clean_step rooted seg out =
     (if seg = [] \<or> seg = ''.'' then out
      else if seg = ''..''
      then (if out \<noteq> [] \<and> last out \<noteq> ''..'' then butlast out else if rooted then out else out @ [seg])
      else out @ [seg])"

definition PathClean :: "string \<Rightarrow> string" where
  "PathClean p =
     (if p = [] then ''.''
      else let rooted = (hd p = CHR ''/'');
               out = fold (clean_step rooted) (SplitChar p CHR ''/'') []
           in if rooted then CHR ''/'' # Join out ''/'' else if out = [] then ''.'' else Join out ''/'')"

definition PathJoin :: "string list \<Rightarrow> string" where
  "PathJoin elems =
     (let es = filter (\<lambda>e. e \<noteq> []) elems in if es = [] then [] else PathClean (Join es ''/''))"

definition plain_segment :: "string \<Rightarrow> bool" where
  "plain_segment s \<longleftrightarrow> s \<noteq> [] \<and> s \<noteq> ''.'' \<and> s \<noteq> ''..'' \<and> CHR ''/'' \<notin> set s"

lemma fold_clean_plain: "\<forall>s \<in> set ss. plain_segment s \<Longrightarrow> fold (clean_step r) ss out = out @ ss"
  by (induction ss arbitrary: out) (auto simp: clean_step_def plain_segment_def)

lemma Join_nonempty: "ss \<noteq> [] \<Longrightarrow> hd ss \<noteq> [] \<Longrightarrow> Join ss sep \<noteq> []"
  by (induction ss sep rule: Join.induct) auto

lemma hd_Join: "ss \<noteq> [] \<Longrightarrow> hd ss \<noteq> [] \<Longrightarrow> hd (Join ss sep) = hd (hd ss)"
  by (induction ss sep rule: Join.induct) auto

lemma PathJoin_plain:
  assumes "ss \<noteq> []" "\<forall>s \<in> set ss. plain_segment s"
  shows "PathJoin ss = Join ss ''/''"
proof -
  have ne: "filter (\<lambda>e. e \<noteq> []) ss = ss" using assms(2) by (auto simp: filter_id_conv plain_segment_def)
  have hd: "hd ss \<noteq> []" "CHR ''/'' \<notin> set (hd ss)"
    using assms hd_in_set [OF assms(1)] by (auto simp: plain_segment_def)
  have root: "hd (Join ss ''/'') \<noteq> CHR ''/''"
    using hd(2) hd_in_set [OF hd(1)] unfolding hd_Join [OF assms(1) hd(1)] by metis
  have "SplitChar (Join ss ''/'') CHR ''/'' = ss"
    using assms by (intro SplitChar_Join) (auto simp: plain_segment_def)
  then show ?thesis
    using assms fold_clean_plain [of ss False "[]"] root Join_nonempty [OF assms(1) hd(1), of "''/''"]
    by (simp add: PathJoin_def ne PathClean_def Let_def)
qed

end
