(* ===== verification/K8sObjects.thy ===== *)
theory K8sObjects
  imports GoStd
begin

text \<open>
  The fields of the Kubernetes objects the program reads, the constants of
  \<open>pkg/common/common.go\<close>, and the part of the typed client the program calls. A resource
  list is a map from resource name to the quantity's \<open>Value()\<close>. The client is code outside
  the repository: it is a record of functions over a world \<open>'w\<close>, each taking the world
  to a new one with a result or an error text, and it is an argument of every definition
  that calls it.
\<close>

datatype Phase = PodPending | PodRunning | PodSucceeded | PodFailed | PodUnknown

record Container =
  c_Name :: string
  c_Limits :: "(string, int64) fmap"

record Pod =
  pod_Name :: string
  pod_Namespace :: string
  pod_UID :: uid
  pod_ResourceVersion :: string
  pod_Annotations :: "(string, string) fmap"
  pod_Labels :: "(string, string) fmap"
  pod_NodeName :: string
  pod_Containers :: "Container list"
  pod_Phase :: Phase
  pod_DeletionTimestamp :: "nat option"

record Node =
  node_Name :: string
  node_Capacity :: "(string, int64) fmap"
  node_DeletionTimestamp :: "nat option"

record 'w clientset =
  cs_GetPod :: "'w \<Rightarrow> string \<Rightarrow> string \<Rightarrow> 'w \<times> (string + Pod)"
  cs_UpdatePod :: "'w \<Rightarrow> string \<Rightarrow> Pod \<Rightarrow> 'w \<times> string option"
  cs_BindPod :: "'w \<Rightarrow> string \<Rightarrow> string \<Rightarrow> uid \<Rightarrow> string \<Rightarrow> 'w \<times> string option"
  cs_GetNode :: "'w \<Rightarrow> string \<Rightarrow> 'w \<times> (string + Node)"

section \<open>common.go\<close>

definition ExtendResouceTypeBoard :: string where
  "ExtendResouceTypeBoard = ''superedge.io/device-board''"

definition ExtendResouceTypeBoardPrefix :: string where
  "ExtendResouceTypeBoardPrefix = ''superedge.io/device-board-''"

definition ExtendResouceTypeOrinPrefix :: string where
  "ExtendResouceTypeOrinPrefix = ''superedge.io/device-orin-''"

definition AnnotationPodBindToBoard :: string where
  "AnnotationPodBindToBoard = ''superedge.io/pod-bind-board''"

definition AnnotationPodBindOrinPolicy :: string where
  "AnnotationPodBindOrinPolicy = ''superedge.io/pod-bind-orin-policy''"

lemma board_prefix_not_orin: "\<not> HasPrefix (ExtendResouceTypeBoardPrefix @ s) ExtendResouceTypeOrinPrefix"
  by (simp add: HasPrefix_def ExtendResouceTypeBoardPrefix_def ExtendResouceTypeOrinPrefix_def)

lemma orin_prefix_not_board: "\<not> HasPrefix (ExtendResouceTypeOrinPrefix @ s) ExtendResouceTypeBoardPrefix"
  by (simp add: HasPrefix_def ExtendResouceTypeBoardPrefix_def ExtendResouceTypeOrinPrefix_def)

lemma board_not_board_prefix: "\<not> HasPrefix ExtendResouceTypeBoard ExtendResouceTypeBoardPrefix"
  by (simp add: HasPrefix_def ExtendResouceTypeBoardPrefix_def ExtendResouceTypeBoard_def)

end
