(* ===== verification/DecimalMap.thy ===== *)
theory DecimalMap
  imports GoStd
begin

text \<open>
  The decimal bitmap of \<open>pkg/scheduler/manager/decimalmap.go\<close>: a board's orins travel from
  the device plugin to the scheduler as one \<open>int64\<close> whose decimal digits are zeros and ones;
  digit \<open>i\<close> (from the right) is one when orin \<open>i + startBit\<close> is present.
  \<open>BuildDecimalMap\<close> encodes, \<open>DecimalMap.Parse\<close> decodes.

  The conversion \<open>int64(math.Pow10(e))\<close> is exact for \<open>0 \<le> e \<le> 18\<close>, truncates to zero for
  \<open>e < 0\<close>, and is implementation-dependent from \<open>e = 19\<close> on, where the float does not fit:
  that value is the parameter \<open>oor\<close>.
\<close>

section \<open>The operations\<close>

record DecimalMap =
  startBit :: int
  src :: int64
  srcStr :: string

definition NewDecimalMap :: "int64 \<Rightarrow> int \<Rightarrow> DecimalMap" where
  "NewDecimalMap s start = \<lparr>startBit = start, src = s, srcStr = []\<rparr>"

definition invalid_decimalMap :: "string \<Rightarrow> string" where
  "invalid_decimalMap s = ''invalid decimalMap '' @ s"

text \<open>The loop \<open>for i := len - 1; i >= 0; i--\<close>; the third argument is the index plus one.\<close>

fun parse_loop :: "string \<Rightarrow> int \<Rightarrow> nat \<Rightarrow> int fset \<Rightarrow> string + int fset" where
  "parse_loop s start 0 res = Inr res"
| "parse_loop s start (Suc i) res =
     (if s ! i \<noteq> CHR ''0'' \<and> s ! i \<noteq> CHR ''1'' then Inl (invalid_decimalMap s)
      else if s ! i = CHR ''1''
      then parse_loop s start i (finsert (int (length s) - 1 - int i + start) res)
      else parse_loop s start i res)"

definition Parse :: "DecimalMap \<Rightarrow> DecimalMap \<times> (string + int fset)" where
  "Parse dm =
     (let dm' = dm\<lparr>srcStr := FormatInt (sint (src dm))\<rparr>
      in (dm', parse_loop (srcStr dm') (startBit dm') (length (srcStr dm')) {||}))"

definition Pow10_int64 :: "(int \<Rightarrow> int64) \<Rightarrow> int \<Rightarrow> int64" where
  "Pow10_int64 oor e = (if e < 0 then 0 else if e \<le> 18 then 10 ^ nat e else oor e)"

definition BuildDecimalMap :: "(int \<Rightarrow> int64) \<Rightarrow> int fset \<Rightarrow> int \<Rightarrow> int64" where
  "BuildDecimalMap oor S start =
     fold (\<lambda>n res. res + Pow10_int64 oor (wrap64 (n - start))) (sorted_list_of_fset S) 0"

lemma BuildDecimalMap_any_order:
  assumes "distinct ns" "set ns = fset S"
  shows "fold (\<lambda>n res. res + Pow10_int64 oor (wrap64 (n - start))) ns 0 = BuildDecimalMap oor S start"
proof -
  have fold: "fold (\<lambda>n res. res + f n) ns a = a + sum_list (map f ns)" for f :: "int \<Rightarrow> int64" and ns a
    by (induction ns arbitrary: a) (auto simp: algebra_simps)
  have "sum_list (map f ns) = sum f (fset S)" for f :: "int \<Rightarrow> int64"
    using assms by (metis sum.distinct_set_conv_list)
  moreover have "sum_list (map f (sorted_list_of_fset S)) = sum f (fset S)" for f :: "int \<Rightarrow> int64"
    by (metis sum.distinct_set_conv_list sorted_list_of_fset.rep_eq distinct_sorted_list_of_set
        finite_fset set_sorted_list_of_set)
  ultimately show ?thesis by (simp add: BuildDecimalMap_def fold)
qed

section \<open>Decimal digits\<close>

definition digit :: "nat \<Rightarrow> nat \<Rightarrow> nat" where
  "digit m i = m div 10 ^ i mod 10"

definition binary_digits :: "nat \<Rightarrow> bool" where
  "binary_digits m \<longleftrightarrow> (\<forall>i. digit m i \<le> 1)"

definition dsum :: "nat set \<Rightarrow> nat" where
  "dsum E = (\<Sum>n\<in>E. 10 ^ n)"

lemma digit_Suc: "digit m (Suc i) = digit (m div 10) i"
  by (simp add: digit_def div_mult2_eq)

lemma rev_show_nat:
  "rev (show_nat n) = digit_char (n mod 10) # (if n < 10 then [] else rev (show_nat (n div 10)))"
  by (subst show_nat.simps) auto

lemma show_nat_digit:
  "i < length (show_nat m) \<Longrightarrow> rev (show_nat m) ! i = digit_char (digit m i)"
proof (induction i arbitrary: m)
  case 0
  then show ?case by (subst rev_show_nat) (simp add: digit_def)
next
  case (Suc i)
  show ?case
  proof (cases "m < 10")
    case True
    with Suc.prems show ?thesis by (simp add: show_nat.simps [of m])
  next
    case False
    with Suc.prems have "i < length (show_nat (m div 10))" by (simp add: show_nat.simps [of m])
    with Suc.IH False show ?thesis by (subst rev_show_nat) (simp add: digit_Suc)
  qed
qed

lemma digit_beyond: "length (show_nat m) \<le> i \<Longrightarrow> digit m i = 0"
proof (induction i arbitrary: m)
  case 0
  then show ?case by simp
next
  case (Suc i)
  show ?case
  proof (cases "m < 10")
    case True
    then have "m div 10 = 0" by simp
    then show ?thesis by (simp add: digit_Suc) (simp add: digit_def)
  next
    case False
    with Suc show ?thesis by (simp add: show_nat.simps [of m] digit_Suc)
  qed
qed

lemma digit_nonzero_less: "digit m i \<noteq> 0 \<Longrightarrow> i < length (show_nat m)"
  using digit_beyond [of m i] by (cases "length (show_nat m) \<le> i") auto

lemma finite_pred: "finite E \<Longrightarrow> finite {n. Suc n \<in> E}"
  using finite_vimageI [of E Suc] by (simp add: vimage_def)

lemma dsum_step: "finite E \<Longrightarrow> dsum E = of_bool (0 \<in> E) + 10 * dsum {n. Suc n \<in> E}"
proof -
  assume fin: "finite E"
  have split: "E = (E \<inter> {0}) \<union> Suc ` {n. Suc n \<in> E}"
    by (auto simp: image_iff) (metis not0_implies_Suc)
  have fin': "finite {n. Suc n \<in> E}"
    using fin by (rule finite_pred)
  have "dsum E = dsum (E \<inter> {0}) + dsum (Suc ` {n. Suc n \<in> E})"
    unfolding dsum_def by (subst split, rule sum.union_disjoint) (use fin fin' in auto)
  moreover have "dsum (E \<inter> {0}) = of_bool (0 \<in> E)" by (auto simp: dsum_def)
  moreover have "dsum (Suc ` {n. Suc n \<in> E}) = 10 * dsum {n. Suc n \<in> E}"
    by (simp add: dsum_def sum.reindex sum_distrib_left)
  ultimately show ?thesis by simp
qed

lemma digit_dsum: "finite E \<Longrightarrow> digit (dsum E) i = of_bool (i \<in> E)"
proof (induction i arbitrary: E)
  case 0
  then show ?case by (subst dsum_step) (auto simp: digit_def)
next
  case (Suc i)
  have fin: "finite {n. Suc n \<in> E}"
    using Suc.prems by (rule finite_pred)
  have "dsum E div 10 = dsum {n. Suc n \<in> E}"
    by (subst dsum_step [OF Suc.prems]) auto
  then show ?case using Suc.IH [OF fin] by (simp add: digit_Suc)
qed

lemma dsum_of_digits: "binary_digits m \<Longrightarrow> dsum {i. digit m i = 1} = m"
proof (induction m rule: less_induct)
  case (less m)
  have fin: "finite {i. digit m i = 1}"
    by (rule finite_subset [of _ "{..< length (show_nat m)}"]) (auto intro: digit_nonzero_less)
  show ?case
  proof (cases "m = 0")
    case True
    then show ?thesis by (simp add: digit_def dsum_def)
  next
    case False
    have "binary_digits (m div 10)"
      using less.prems by (auto simp: binary_digits_def digit_Suc [symmetric])
    with less.IH [of "m div 10"] False
    have "dsum {i. digit m (Suc i) = 1} = m div 10" by (simp add: digit_Suc)
    moreover have "m mod 10 = of_bool (digit m 0 = 1)"
      using less.prems unfolding binary_digits_def
      by (auto simp: digit_def dest!: spec [of _ 0] elim: le_SucE)
    ultimately have "dsum {i. digit m i = 1} = m mod 10 + 10 * (m div 10)"
      by (subst dsum_step [OF fin]) simp
    then show ?thesis by simp
  qed
qed

section \<open>Decoding and encoding\<close>

lemma parse_loop_bad:
  "k \<le> length s \<Longrightarrow> \<exists>i < k. s ! i \<noteq> CHR ''0'' \<and> s ! i \<noteq> CHR ''1'' \<Longrightarrow>
   parse_loop s start k res = Inl (invalid_decimalMap s)"
  by (induction s start k res rule: parse_loop.induct) (auto simp: less_Suc_eq)

lemma parse_loop_good:
  "k \<le> length s \<Longrightarrow> \<forall>i < k. s ! i = CHR ''0'' \<or> s ! i = CHR ''1'' \<Longrightarrow>
   \<exists>S. parse_loop s start k res = Inr S \<and>
       fset S = fset res \<union> {int (length s) - 1 - int i + start | i. i < k \<and> s ! i = CHR ''1''}"
proof (induction s start k res rule: parse_loop.induct)
  case (1 s start res)
  then show ?case by simp
next
  case (2 s start i res)
  then have c: "\<not> (s ! i \<noteq> CHR ''0'' \<and> s ! i \<noteq> CHR ''1'')" by simp
  have pre: "i \<le> length s" "\<forall>j < i. s ! j = CHR ''0'' \<or> s ! j = CHR ''1''"
    using "2.prems" by auto
  show ?case
  proof (cases "s ! i = CHR ''1''")
    case True
    then have ins: "{int (length s) - 1 - int j + start | j. j < Suc i \<and> s ! j = CHR ''1''} =
        insert (int (length s) - 1 - int i + start)
          {int (length s) - 1 - int j + start | j. j < i \<and> s ! j = CHR ''1''}"
      by (auto simp: less_Suc_eq)
    show ?thesis
      using "2.IH"(1) [OF c True pre] True by (auto simp: ins)
  next
    case False
    then have "{int (length s) - 1 - int j + start | j. j < Suc i \<and> s ! j = CHR ''1''} =
        {int (length s) - 1 - int j + start | j. j < i \<and> s ! j = CHR ''1''}"
      by (auto simp: less_Suc_eq)
    then show ?thesis
      using "2.IH"(2) [OF c False pre] False c by simp
  qed
qed

lemma digit_char_01:
  "d < 10 \<Longrightarrow> (digit_char d = CHR ''0'' \<longleftrightarrow> d = 0) \<and> (digit_char d = CHR ''1'' \<longleftrightarrow> d = 1)"
proof -
  assume d: "d < 10"
  have "CHR ''0'' = digit_char 0" "CHR ''1'' = digit_char 1"
    by code_simp+
  moreover have "digit_char d = digit_char e \<longleftrightarrow> d = e" if "e < 10" for e
    by (metis d digit_val_char option.inject that)
  ultimately show ?thesis by simp
qed

lemma digit_less [simp]: "digit m i < 10"
  by (simp add: digit_def)

lemma show_nat_nth:
  assumes "i < length (show_nat m)"
  shows "show_nat m ! i = digit_char (digit m (length (show_nat m) - 1 - i))"
proof -
  have "rev (show_nat m) ! (length (show_nat m) - 1 - i) = show_nat m ! i"
    using assms by (simp add: rev_nth)
  then show ?thesis using show_nat_digit [of "length (show_nat m) - 1 - i" m] assms by simp
qed

lemma Parse_negative:
  assumes "sint (src dm) < 0"
  shows "\<exists>msg. snd (Parse dm) = Inl msg"
proof -
  have "FormatInt (sint (src dm)) ! 0 = CHR ''-''" "0 < length (FormatInt (sint (src dm)))"
    using assms by (auto simp: FormatInt_def)
  then have "snd (Parse dm) = Inl (invalid_decimalMap (FormatInt (sint (src dm))))"
    by (auto simp: Parse_def Let_def intro!: parse_loop_bad)
  then show ?thesis ..
qed

lemma Parse_nat:
  assumes "sint (src dm) = int m"
  shows "if binary_digits m
         then \<exists>S. snd (Parse dm) = Inr S \<and> fset S = {int i + startBit dm | i. digit m i = 1}
         else \<exists>msg. snd (Parse dm) = Inl msg"
proof (cases "binary_digits m")
  case True
  let ?s = "show_nat m"
  have chars: "?s ! i = CHR ''1'' \<longleftrightarrow> digit m (length ?s - 1 - i) = 1"
    "?s ! i = CHR ''0'' \<or> ?s ! i = CHR ''1''" if "i < length ?s" for i
    using that True by (auto simp: show_nat_nth digit_char_01 binary_digits_def le_Suc_eq)
  then obtain S where S: "parse_loop ?s (startBit dm) (length ?s) {||} = Inr S"
    and fS: "fset S = {int (length ?s) - 1 - int i + startBit dm | i. i < length ?s \<and> ?s ! i = CHR ''1''}"
    using parse_loop_good [of "length ?s" ?s "startBit dm" "{||}"] by auto
  have "fset S = {int i + startBit dm | i. digit m i = 1}" (is "_ = ?R")
  proof (intro equalityI subsetI)
    fix x assume "x \<in> fset S"
    then obtain i where "i < length ?s" "?s ! i = CHR ''1''" "x = int (length ?s) - 1 - int i + startBit dm"
      by (auto simp: fS)
    then show "x \<in> ?R"
      using chars(1) [of i] by (intro CollectI exI [of _ "length ?s - 1 - i"]) auto
  next
    fix x assume "x \<in> ?R"
    then obtain i where i: "digit m i = 1" and x: "x = int i + startBit dm" by auto
    then have "i < length ?s" by (simp add: digit_nonzero_less)
    then show "x \<in> fset S"
      unfolding fS using chars(1) [of "length ?s - 1 - i"] i x
      by (intro CollectI exI [of _ "length ?s - 1 - i"]) auto
  qed
  with True S assms show ?thesis by (auto simp: Parse_def Let_def FormatInt_def)
next
  case False
  then obtain i where i: "1 < digit m i" by (auto simp: binary_digits_def not_le)
  then have "i < length (show_nat m)" using digit_beyond [of m i] by (cases "length (show_nat m) \<le> i") auto
  then have "\<exists>k < length (show_nat m). show_nat m ! k \<noteq> CHR ''0'' \<and> show_nat m ! k \<noteq> CHR ''1''"
    using i by (intro exI [of _ "length (show_nat m) - 1 - i"])
      (auto simp: show_nat_nth digit_char_01)
  then have "snd (Parse dm) = Inl (invalid_decimalMap (show_nat m))"
    using assms by (simp add: Parse_def Let_def FormatInt_def parse_loop_bad)
  with False show ?thesis by simp
qed

definition exponents :: "int fset \<Rightarrow> int \<Rightarrow> nat set" where
  "exponents S start = (\<lambda>n. nat (n - start)) ` {n \<in> fset S. start \<le> n}"

lemma finite_exponents [simp]: "finite (exponents S start)"
  by (simp add: exponents_def)

lemma exponents_range:
  "\<forall>n. n |\<in>| S \<longrightarrow> n - start \<le> 18 \<Longrightarrow> exponents S start \<subseteq> {..18}"
  by (auto simp: exponents_def)

lemma dsum_atMost: "9 * dsum {..n} < 10 ^ Suc n"
  by (induction n) (simp_all add: dsum_def)

lemma dsum_bound: "E \<subseteq> {..18} \<Longrightarrow> dsum E < 2 ^ 63"
proof -
  assume "E \<subseteq> {..18}"
  then have "dsum E \<le> dsum {..18}"
    unfolding dsum_def by (intro sum_mono2) auto
  moreover have "9 * dsum {..18} < 10 ^ 19"
    using dsum_atMost [of 18] by simp
  ultimately show ?thesis by simp
qed

lemma BuildDecimalMap_value:
  assumes "\<forall>n. n |\<in>| S \<longrightarrow> in_int64 (n - start) \<and> n - start \<le> 18"
  shows "BuildDecimalMap oor S start = of_nat (dsum (exponents S start))"
proof -
  have fold: "fold (\<lambda>n res. res + f n) ns a = a + sum_list (map f ns)" for f :: "int \<Rightarrow> int64" and ns a
    by (induction ns arbitrary: a) (auto simp: algebra_simps)
  have "BuildDecimalMap oor S start = (\<Sum>n\<in>fset S. Pow10_int64 oor (wrap64 (n - start)))"
    unfolding BuildDecimalMap_def fold
    by (metis add_0 distinct_sorted_list_of_set finite_fset set_sorted_list_of_set
        sorted_list_of_fset.rep_eq sum.distinct_set_conv_list)
  also have "\<dots> = (\<Sum>n\<in>{n \<in> fset S. start \<le> n}. 10 ^ nat (n - start))"
    using assms by (intro sum.mono_neutral_cong_right) (auto simp: Pow10_int64_def)
  also have "\<dots> = (\<Sum>e\<in>exponents S start. 10 ^ e)"
    unfolding exponents_def by (subst sum.reindex) (auto simp: inj_on_def)
  also have "\<dots> = of_nat (dsum (exponents S start))" by (simp add: dsum_def)
  finally show ?thesis .
qed

lemma sint_of_nat64: "m < 2 ^ 63 \<Longrightarrow> sint (of_nat m :: int64) = int m"
  using sint_of_int64 [of "int m"] by (simp add: in_int64_def)

lemma Parse_BuildDecimalMap:
  assumes "\<forall>n. n |\<in>| S \<longrightarrow> in_int64 (n - start) \<and> n - start \<le> 18"
  shows "snd (Parse (NewDecimalMap (BuildDecimalMap oor S start) start)) = Inr (ffilter (\<lambda>n. start \<le> n) S)"
proof -
  let ?E = "exponents S start" and ?dm = "NewDecimalMap (BuildDecimalMap oor S start) start"
  have E: "?E \<subseteq> {..18}" using assms by (intro exponents_range) auto
  have "sint (src ?dm) = int (dsum ?E)"
    using sint_of_nat64 [OF dsum_bound [OF E]]
    by (simp add: NewDecimalMap_def BuildDecimalMap_value [OF assms])
  moreover have "binary_digits (dsum ?E)" by (simp add: binary_digits_def digit_dsum)
  ultimately obtain R where R: "snd (Parse ?dm) = Inr R"
    and fR: "fset R = {int i + startBit ?dm | i. digit (dsum ?E) i = 1}"
    using Parse_nat [of ?dm "dsum ?E"] by auto
  have "fset R = fset (ffilter (\<lambda>n. start \<le> n) S)"
    by (force simp: fR digit_dsum NewDecimalMap_def exponents_def)
  then have "R = ffilter (\<lambda>n. start \<le> n) S" by (simp only: fset_inject)
  with R show ?thesis by simp
qed

lemma binary_digit_le_18: "m < 2 ^ 63 \<Longrightarrow> digit m i \<noteq> 0 \<Longrightarrow> i \<le> 18"
proof (rule ccontr)
  assume m: "m < 2 ^ 63" and d: "digit m i \<noteq> 0" and "\<not> i \<le> 18"
  then have "(10 :: nat) ^ 19 \<le> 10 ^ i" by (intro power_increasing) auto
  moreover have "10 ^ i \<le> m" using d by (metis digit_def div_less mod_0 not_le)
  ultimately show False using m by simp
qed

lemma Parse_range:
  assumes "snd (Parse dm) = Inr S" "x |\<in>| S"
  shows "startBit dm \<le> x \<and> x \<le> startBit dm + 18"
proof -
  have "0 \<le> sint (src dm)" using Parse_negative [of dm] assms(1) by fastforce
  then obtain m where m: "sint (src dm) = int m" using zero_le_imp_eq_int by blast
  then have S: "fset S = {int i + startBit dm | i. digit m i = 1}"
    using Parse_nat [OF m] assms(1) by (auto split: if_splits)
  have "m < 2 ^ 63" using in_int64_sint [of "src dm"] m by (simp add: in_int64_def)
  then have "i \<le> 18" if "digit m i = 1" for i using binary_digit_le_18 that by simp
  then show ?thesis using assms(2) S by (fastforce simp: fset_eq_iff)
qed

lemma BuildDecimalMap_Parse:
  assumes "snd (Parse dm) = Inr S"
  shows "BuildDecimalMap oor S (startBit dm) = src dm"
proof -
  have "0 \<le> sint (src dm)" using Parse_negative [of dm] assms by fastforce
  then obtain m where m: "sint (src dm) = int m" using zero_le_imp_eq_int by blast
  then have bin: "binary_digits m" and S: "fset S = {int i + startBit dm | i. digit m i = 1}"
    using Parse_nat [OF m] assms by (auto split: if_splits)
  have "m < 2 ^ 63" using in_int64_sint [of "src dm"] m by (simp add: in_int64_def)
  then have le: "i \<le> 18" if "digit m i = 1" for i using binary_digit_le_18 that by simp
  then have range: "\<forall>n. n |\<in>| S \<longrightarrow> in_int64 (n - startBit dm) \<and> n - startBit dm \<le> 18"
    using S by (auto simp: in_int64_def dest!: le [simplified])
  have "{n \<in> fset S. startBit dm \<le> n} = (\<lambda>i. int i + startBit dm) ` {i. digit m i = 1}"
    by (auto simp: S)
  then have "exponents S (startBit dm) = {i. digit m i = 1}"
    by (simp add: exponents_def image_image)
  then have "BuildDecimalMap oor S (startBit dm) = of_nat m"
    using BuildDecimalMap_value [OF range] dsum_of_digits [OF bin] by simp
  also have "\<dots> = word_of_int (sint (src dm))" by (simp add: m)
  finally show ?thesis by simp
qed

section \<open>The encoding as a codec\<close>

text \<open>
  What the plugin (which encodes) and the scheduler (which decodes) rely on, as an
  interface: decoding undoes encoding on the sets that fit, and no two words decode to the
  same set.
\<close>

locale orin_codec =
  fixes encode :: "int fset \<Rightarrow> int64"
    and decode :: "int64 \<Rightarrow> string + int fset"
    and fits :: "int fset \<Rightarrow> bool"
  assumes decode_encode: "fits S \<Longrightarrow> decode (encode S) = Inr S"
    and encode_decode: "decode w = Inr S \<Longrightarrow> encode S = w"
begin

lemma encode_inj: "fits S \<Longrightarrow> fits T \<Longrightarrow> encode S = encode T \<Longrightarrow> S = T"
  by (metis decode_encode sum.inject(2))

lemma decode_inj: "decode v = Inr S \<Longrightarrow> decode w = Inr S \<Longrightarrow> v = w"
  using encode_decode by blast

lemma decode_iff: "fits S \<Longrightarrow> decode w = Inr S \<longleftrightarrow> w = encode S"
  using decode_encode encode_decode by blast

end

definition decode_from :: "int \<Rightarrow> int64 \<Rightarrow> string + int fset" where
  "decode_from start w = snd (Parse (NewDecimalMap w start))"

definition fits_from :: "int \<Rightarrow> int fset \<Rightarrow> bool" where
  "fits_from start S \<longleftrightarrow> fBall S (\<lambda>n. start \<le> n \<and> n - start \<le> 18)"

interpretation decimal: orin_codec "\<lambda>S. BuildDecimalMap oor S start" "decode_from start" "fits_from start"
  for oor start
proof
  show "decode_from start (BuildDecimalMap oor S start) = Inr S" if "fits_from start S" for S
  proof -
    have "\<forall>n. n |\<in>| S \<longrightarrow> start \<le> n \<and> in_int64 (n - start) \<and> n - start \<le> 18"
      using that by (auto simp: fits_from_def in_int64_def fBall_alt_def)
    moreover from this have "ffilter (\<lambda>n. start \<le> n) S = S" by auto
    ultimately show ?thesis by (simp add: decode_from_def Parse_BuildDecimalMap)
  qed
  show "BuildDecimalMap oor S start = w" if "decode_from start w = Inr S" for w S
    using BuildDecimalMap_Parse [of "NewDecimalMap w start" S oor] that
    by (simp add: decode_from_def NewDecimalMap_def)
qed

end
