(* ===== verification/SchedUtil.thy ===== *)
theory SchedUtil
  imports K8sObjects DecimalMap "HOL-Library.Signed_Division"
begin

text \<open>
  \<open>pkg/scheduler/manager/util.go\<close> without its worker pool (which is in WorkerPool): ids
  from resource names, the score normalisation and the bind annotation.
  \<open>BuildRequestOrinSet\<close> of \<open>cache.go\<close> is here too, since both the scheduler and
  the device plugin call it.
\<close>

definition DefaultOrinStartBit :: int where
  "DefaultOrinStartBit = 1"

definition OrinIDFromResourceName :: "string \<Rightarrow> int option" where
  "OrinIDFromResourceName name = ParseInt (TrimPrefix name ExtendResouceTypeOrinPrefix)"

definition BoardIDFromResourceName :: "string \<Rightarrow> int option" where
  "BoardIDFromResourceName name = ParseInt (TrimPrefix name ExtendResouceTypeBoardPrefix)"

definition orin_of_key :: "string \<Rightarrow> int option" where
  "orin_of_key rkey =
     (if HasPrefix rkey ExtendResouceTypeOrinPrefix then OrinIDFromResourceName rkey else None)"

definition BuildRequestOrinSet :: "Pod \<Rightarrow> int fset" where
  "BuildRequestOrinSet pod =
     fold (\<lambda>c orinSet. orinSet |\<union>| fcollect orin_of_key (fmdom (c_Limits c))) (pod_Containers pod) {||}"

section \<open>Normalize\<close>

fun max_count :: "int list \<Rightarrow> int \<Rightarrow> int" where
  "max_count [] maxCount = maxCount"
| "max_count (s # ss) maxCount = max_count ss (if s > maxCount then s else maxCount)"

definition Normalize :: "int \<Rightarrow> int list \<Rightarrow> int list" where
  "Normalize maxPriority scores =
     (let maxCount = max_count scores 0
      in if maxCount = 0 then scores
         else map (\<lambda>score. wrap64 (wrap64 (maxPriority * score) sdiv maxCount)) scores)"

section \<open>Bind annotations\<close>

definition AddPodBindAnnotation :: "Pod \<Rightarrow> int \<Rightarrow> Pod" where
  "AddPodBindAnnotation oldPod boardID =
     (let newPod = oldPod;
          newPod = (if pod_Labels newPod = fmempty then newPod\<lparr>pod_Labels := fmempty\<rparr> else newPod);
          newPod = (if pod_Annotations newPod = fmempty then newPod\<lparr>pod_Annotations := fmempty\<rparr> else newPod);
          boardIDStr = FormatInt boardID
      in newPod\<lparr>pod_Annotations := fmupd AnnotationPodBindToBoard boardIDStr (pod_Annotations newPod),
                pod_Labels := fmupd AnnotationPodBindToBoard boardIDStr (pod_Labels newPod)\<rparr>)"

definition RemovePodBindAnnotation :: "Pod \<Rightarrow> Pod" where
  "RemovePodBindAnnotation oldPod =
     (if pod_Labels oldPod = fmempty then oldPod
      else if pod_Annotations oldPod = fmempty then oldPod
      else oldPod\<lparr>pod_Annotations := fmdrop AnnotationPodBindToBoard (pod_Annotations oldPod),
                  pod_Labels := fmdrop AnnotationPodBindToBoard (pod_Labels oldPod)\<rparr>)"

definition bind_board :: "Pod \<Rightarrow> int option" where
  "bind_board pod = Option.bind (fmlookup (pod_Annotations pod) AnnotationPodBindToBoard) ParseInt"

lemma bind_board_Some:
  "bind_board p = Some b \<longleftrightarrow>
     (\<exists>s. fmlookup (pod_Annotations p) AnnotationPodBindToBoard = Some s \<and> ParseInt s = Some b)"
  by (simp add: bind_board_def bind_eq_Some_conv)

lemma fold_union_iff: "x |\<in>| fold (\<lambda>c S. S |\<union>| f c) cs A \<longleftrightarrow> x |\<in>| A \<or> (\<exists>c \<in> set cs. x |\<in>| f c)"
  by (induction cs arbitrary: A) auto

lemma BuildRequestOrinSet_iff:
  "x |\<in>| BuildRequestOrinSet pod \<longleftrightarrow>
     (\<exists>c \<in> set (pod_Containers pod). \<exists>rkey. has_key (c_Limits c) rkey \<and> orin_of_key rkey = Some x)"
  by (simp add: BuildRequestOrinSet_def fold_union_iff has_key_iff)

lemma AddPodBindAnnotation_simps [simp]:
  "fmlookup (pod_Annotations (AddPodBindAnnotation p b)) AnnotationPodBindToBoard = Some (FormatInt b)"
  "fmlookup (pod_Labels (AddPodBindAnnotation p b)) AnnotationPodBindToBoard = Some (FormatInt b)"
  "pod_UID (AddPodBindAnnotation p b) = pod_UID p"
  "pod_Name (AddPodBindAnnotation p b) = pod_Name p"
  "pod_Namespace (AddPodBindAnnotation p b) = pod_Namespace p"
  "pod_NodeName (AddPodBindAnnotation p b) = pod_NodeName p"
  "pod_Containers (AddPodBindAnnotation p b) = pod_Containers p"
  "pod_Phase (AddPodBindAnnotation p b) = pod_Phase p"
  "pod_DeletionTimestamp (AddPodBindAnnotation p b) = pod_DeletionTimestamp p"
  by (simp_all add: AddPodBindAnnotation_def Let_def)

lemma BuildRequestOrinSet_Add [simp]: "BuildRequestOrinSet (AddPodBindAnnotation p b) = BuildRequestOrinSet p"
  by (simp add: BuildRequestOrinSet_def)

lemma bind_board_Add [simp]: "in_int64 b \<Longrightarrow> bind_board (AddPodBindAnnotation p b) = Some b"
  by (simp add: bind_board_def)

lemma annotation_other:
  "k \<noteq> AnnotationPodBindToBoard \<Longrightarrow>
   fmlookup (pod_Annotations (AddPodBindAnnotation p b)) k = fmlookup (pod_Annotations p) k"
  by (simp add: AddPodBindAnnotation_def Let_def)

lemma max_count_spec: "max_count ss m = Max (insert m (set ss))"
proof (induction ss m rule: max_count.induct)
  case (1 m)
  then show ?case by simp
next
  case (2 s ss m)
  have "insert m (set (s # ss)) = insert m (insert s (set ss))" by auto
  with 2 show ?case by (cases "set ss = {}") (auto simp: max_def)
qed

lemma max_count_ge: "s \<in> set ss \<Longrightarrow> s \<le> max_count ss 0" "0 \<le> max_count ss 0"
  by (simp_all add: max_count_spec)

lemma max_count_mem: "max_count ss 0 \<noteq> 0 \<Longrightarrow> max_count ss 0 \<in> set ss"
  using Max_in [of "insert 0 (set ss)"] by (auto simp: max_count_spec)

lemma length_Normalize [simp]: "length (Normalize p ss) = length ss"
  by (simp add: Normalize_def Let_def)

lemma Normalize_nth_zero:
  "\<forall>s \<in> set ss. s \<le> 0 \<Longrightarrow> Normalize p ss = ss"
  using max_count_mem [of ss] max_count_ge(2) [of ss] by (fastforce simp: Normalize_def Let_def)

lemma Normalize_nth:
  assumes "\<forall>s \<in> set ss. 0 \<le> s" "0 \<le> p" "\<forall>s \<in> set ss. p * s < 2 ^ 63" "i < length ss"
  shows "Normalize p ss ! i = p * ss ! i div max_count ss 0"
proof (cases "max_count ss 0 = 0")
  case True
  then have "ss ! i = 0"
    using assms(1,4) max_count_ge(1) [of "ss ! i" ss] nth_mem [OF assms(4)] by (simp add: order_antisym)
  with True assms show ?thesis by (simp add: Normalize_def)
next
  case False
  let ?m = "max_count ss 0"
  have m: "0 < ?m" using False max_count_ge(2) [of ss] by simp
  have mem: "ss ! i \<in> set ss" using assms(4) by simp
  have pos: "0 \<le> p * ss ! i" using assms mem by simp
  have "p * ss ! i < 2 ^ 63" using assms(3) mem by blast
  with pos have small: "in_int64 (p * ss ! i)" unfolding in_int64_def by linarith
  have "p * ss ! i div ?m \<le> p * ss ! i" using pos m zdiv_mono2 [of "p * ss ! i" 1 ?m] by simp
  moreover have "0 \<le> p * ss ! i div ?m" using pos m by (simp add: pos_imp_zdiv_nonneg_iff)
  ultimately have quot: "in_int64 (p * ss ! i div ?m)"
    using small unfolding in_int64_def by linarith
  have "p * ss ! i sdiv ?m = p * ss ! i div ?m"
    using pos m by (simp add: signed_divide_int_def sgn_if)
  with small quot show ?thesis using assms(4) False by (simp add: Normalize_def Let_def)
qed

end
