(* ===== verification/Topo.thy ===== *)
theory Topo
  imports Prelude
begin

text \<open>
  The board topology of \<open>pkg/scheduler/manager/topo/mazuinfo.go\<close>: \<open>BoardDetails\<close> maps a
  board id to the orins on it, \<open>OrinDetails\<close> maps an orin id to an \<open>OrinInfo\<close> that repeats
  the board id. Go's maps are finite maps here; the methods that write into their receiver
  and return it are functions from the old map to the new one.

  \<open>slots\<close> is the abstraction the rest of the development reasons with: the set of pairs
  (board, orin) a \<open>BoardDetails\<close> holds. \<open>Add\<close> is union and a successful
  \<open>DifferenceFromSuperset\<close> is set difference on it.
\<close>

section \<open>Types and operations\<close>

record OrinInfo =
  BoardID :: int

type_synonym OrinDetails = "(int, OrinInfo) fmap"
type_synonym BoardDetails = "(int, OrinDetails) fmap"

datatype topo_error = BoardNotSuperset | OrinNotSuperset

definition NewBoardDetails :: BoardDetails where
  "NewBoardDetails = fmempty"

definition NewOrinDetails :: OrinDetails where
  "NewOrinDetails = fmempty"

definition BoardSet :: "BoardDetails \<Rightarrow> int fset" where
  "BoardSet d = fmdom d"

definition OrinSet :: "OrinDetails \<Rightarrow> int fset" where
  "OrinSet d = fmdom d"

definition OrinDetails_Add :: "OrinDetails \<Rightarrow> int \<Rightarrow> int \<Rightarrow> OrinDetails" where
  "OrinDetails_Add d boardID orinID = fmupd orinID \<lparr>BoardID = boardID\<rparr> d"

definition BoardDetails_Add :: "BoardDetails \<Rightarrow> int \<Rightarrow> OrinDetails \<Rightarrow> BoardDetails" where
  "BoardDetails_Add d boardID od =
     (case fmlookup d boardID of
        None \<Rightarrow> fmupd boardID od d
      | Some md \<Rightarrow> fmupd boardID (md ++\<^sub>f od) d)"

text \<open>\<open>src[mid]\<close> on a missing board is the nil map, which ranges as the empty one.\<close>

abbreviation board_orins :: "BoardDetails \<Rightarrow> int \<Rightarrow> OrinDetails" where
  "board_orins d b \<equiv> map_get fmempty d b"

definition BoardDetails_Equal :: "BoardDetails \<Rightarrow> BoardDetails \<Rightarrow> bool" where
  "BoardDetails_Equal src dst =
     (if BoardSet src \<noteq> BoardSet dst then False
      else fBall (fmdom src) (\<lambda>mid. OrinSet (board_orins src mid) = OrinSet (board_orins dst mid)))"

text \<open>
  The loop \<open>for _, o := range set.UnsortedList() { od.Add(boardID, o) }\<close>, which occurs in
  every caller of \<open>OrinDetails.Add\<close>. The order of \<open>UnsortedList\<close> is unspecified; the
  ascending one stands for it, and \<open>AddAll_any_order\<close> shows that no order differs.
\<close>

definition AddAll :: "OrinDetails \<Rightarrow> int \<Rightarrow> int fset \<Rightarrow> OrinDetails" where
  "AddAll od boardID os = fold (\<lambda>o' d. OrinDetails_Add d boardID o') (sorted_list_of_fset os) od"

fun diff_boards :: "BoardDetails \<Rightarrow> BoardDetails \<Rightarrow> int list \<Rightarrow> BoardDetails \<Rightarrow> topo_error + BoardDetails" where
  "diff_boards src sub [] md = Inr md"
| "diff_boards src sub (subMID # rest) md =
     (let srcOSet = OrinSet (board_orins src subMID);
          subOSet = OrinSet (board_orins sub subMID)
      in if \<not> subOSet |\<subseteq>| srcOSet then Inl OrinNotSuperset
         else diff_boards src sub rest
                (BoardDetails_Add md subMID (AddAll NewOrinDetails subMID (srcOSet |-| subOSet))))"

definition DifferenceFromSuperset :: "BoardDetails \<Rightarrow> BoardDetails \<Rightarrow> topo_error + BoardDetails" where
  "DifferenceFromSuperset src sub =
     (let srcMSet = BoardSet src; subMSet = BoardSet sub
      in if \<not> subMSet |\<subseteq>| srcMSet then Inl BoardNotSuperset
         else diff_boards src sub (sorted_range sub)
                (fold (\<lambda>m md. BoardDetails_Add md m (board_orins src m))
                   (sorted_list_of_fset (srcMSet |-| subMSet)) NewBoardDetails))"

section \<open>Lookup rules\<close>

lemma OrinSet_empty [simp]: "OrinSet fmempty = {||}"
  by (simp add: OrinSet_def)

lemma New_empty [simp]: "NewBoardDetails = fmempty" "NewOrinDetails = fmempty"
  by (simp_all add: NewBoardDetails_def NewOrinDetails_def)

lemma AddAll_list_lookup:
  "fmlookup (fold (\<lambda>o' d. OrinDetails_Add d b o') os d) x =
     (if x \<in> set os then Some \<lparr>BoardID = b\<rparr> else fmlookup d x)"
  by (simp add: OrinDetails_Add_def fold_fmupd_lookup)

lemma AddAll_lookup [topo_simps]:
  "fmlookup (AddAll d b S) x = (if x |\<in>| S then Some \<lparr>BoardID = b\<rparr> else fmlookup d x)"
  by (simp add: AddAll_def AddAll_list_lookup sorted_list_of_fset.rep_eq)

lemma AddAll_any_order:
  "set os = fset S \<Longrightarrow> fold (\<lambda>o' d. OrinDetails_Add d b o') os d = AddAll d b S"
  by (rule fmap_ext) (simp add: AddAll_lookup AddAll_list_lookup)

lemma OrinSet_AddAll [simp]: "OrinSet (AddAll d b S) = OrinSet d |\<union>| S"
  by (rule fset_eqI) (auto simp: OrinSet_def fmlookup_dom_iff AddAll_lookup)

lemma AddAll_twice: "AddAll (AddAll d b S) b T = AddAll d b (S |\<union>| T)"
  by (rule fmap_ext) (simp add: AddAll_lookup)

lemma add_AddAll: "AddAll d b S ++\<^sub>f AddAll fmempty b T = AddAll d b (S |\<union>| T)"
  by (rule fmap_ext) (auto simp: AddAll_lookup fmlookup_dom_iff)

lemma board_orins_BoardDetails_Add [topo_simps]:
  "board_orins (BoardDetails_Add d b od) c = (if c = b then board_orins d b ++\<^sub>f od else board_orins d c)"
  by (simp add: BoardDetails_Add_def map_get_def split: option.split)

lemma BoardSet_Add [simp]: "BoardSet (BoardDetails_Add d b od) = finsert b (BoardSet d)"
  by (auto simp: BoardDetails_Add_def BoardSet_def split: option.split)

lemma fmlookup_BoardDetails_Add [topo_simps]:
  "fmlookup (BoardDetails_Add d b od) c = (if c = b then Some (board_orins d b ++\<^sub>f od) else fmlookup d c)"
  by (simp add: BoardDetails_Add_def map_get_def split: option.split)

lemma BoardSet_iff: "b |\<in>| BoardSet d \<longleftrightarrow> fmlookup d b \<noteq> None"
  by (simp add: BoardSet_def fmlookup_dom_iff)

lemma board_orins_absent: "b |\<notin>| BoardSet d \<Longrightarrow> board_orins d b = fmempty"
  by (simp add: BoardSet_iff map_get_def)

section \<open>Specification: slots, coverage, subtraction\<close>

definition slots :: "BoardDetails \<Rightarrow> (int \<times> int) set" where
  "slots d = {(b, x). x |\<in>| OrinSet (board_orins d b)}"

definition covers :: "BoardDetails \<Rightarrow> BoardDetails \<Rightarrow> bool" where
  "covers src sub \<longleftrightarrow>
     BoardSet sub |\<subseteq>| BoardSet src \<and>
     fBall (BoardSet sub) (\<lambda>b. OrinSet (board_orins sub b) |\<subseteq>| OrinSet (board_orins src b))"

definition board_wf :: "BoardDetails \<Rightarrow> bool" where
  "board_wf d \<longleftrightarrow> fmpred (\<lambda>b od. fmpred (\<lambda>_ info. BoardID info = b) od) d"

definition board_minus :: "BoardDetails \<Rightarrow> BoardDetails \<Rightarrow> BoardDetails" where
  "board_minus src sub =
     fmmap_keys (\<lambda>b od. case fmlookup sub b of
         None \<Rightarrow> od
       | Some s \<Rightarrow> AddAll fmempty b (OrinSet od |-| OrinSet s)) src"

lemma slots_iff [simp]: "(b, x) \<in> slots d \<longleftrightarrow> x |\<in>| OrinSet (board_orins d b)"
  by (simp add: slots_def)

lemma slots_empty [simp]: "slots fmempty = {}"
  by (auto simp: slots_def)

lemma OrinSet_fmadd [simp]: "OrinSet (m ++\<^sub>f n) = OrinSet m |\<union>| OrinSet n"
  by (simp add: OrinSet_def)

lemma slots_Add: "slots (BoardDetails_Add d b od) = slots d \<union> {b} \<times> fset (OrinSet od)"
  by (auto simp: slots_def board_orins_BoardDetails_Add split: if_splits)

lemma slots_upd: "slots (fmupd b od d) = (slots d - {b} \<times> UNIV) \<union> {b} \<times> fset (OrinSet od)"
  by (auto simp: slots_def split: if_splits)

lemma covers_slots: "covers src sub \<longleftrightarrow> BoardSet sub |\<subseteq>| BoardSet src \<and> slots sub \<subseteq> slots src"
proof -
  have "(\<forall>b. OrinSet (board_orins sub b) |\<subseteq>| OrinSet (board_orins src b)) \<longleftrightarrow>
        (\<forall>b. b |\<in>| BoardSet sub \<longrightarrow> OrinSet (board_orins sub b) |\<subseteq>| OrinSet (board_orins src b))"
    by (metis OrinSet_empty board_orins_absent fempty_fsubsetI)
  then show ?thesis by (auto simp: covers_def slots_def fBall_alt_def less_eq_fset.rep_eq)
qed

lemma covers_empty [simp]: "covers d fmempty"
  by (simp add: covers_def BoardSet_def)

lemma BoardSet_minus [simp]: "BoardSet (board_minus src sub) = BoardSet src"
  by (simp add: board_minus_def BoardSet_def)

lemma fmlookup_board_minus [topo_simps]:
  "fmlookup (board_minus src sub) b =
     (case fmlookup src b of
        None \<Rightarrow> None
      | Some od \<Rightarrow> Some (case fmlookup sub b of
            None \<Rightarrow> od
          | Some s \<Rightarrow> AddAll fmempty b (OrinSet od |-| OrinSet s)))"
  by (simp add: board_minus_def split: option.split)

lemma slots_minus: "slots (board_minus src sub) = slots src - slots sub"
  by (auto simp: slots_def map_get_def topo_simps split: option.splits)

lemma board_minus_empty [simp]: "board_minus d fmempty = d"
  by (rule fmap_ext) (simp add: topo_simps split: option.split)

section \<open>DifferenceFromSuperset meets the specification\<close>

lemma diff_boards_bad:
  "\<exists>b \<in> set bs. \<not> OrinSet (board_orins sub b) |\<subseteq>| OrinSet (board_orins src b) \<Longrightarrow>
   diff_boards src sub bs md = Inl OrinNotSuperset"
  by (induction src sub bs md rule: diff_boards.induct) (auto simp: Let_def)

lemma diff_boards_good:
  assumes "\<forall>b \<in> set bs. OrinSet (board_orins sub b) |\<subseteq>| OrinSet (board_orins src b)"
    and "distinct bs" and "\<forall>b \<in> set bs. b |\<notin>| BoardSet md"
  shows "\<exists>md'. diff_boards src sub bs md = Inr md' \<and>
           (\<forall>c. fmlookup md' c =
              (if c \<in> set bs
               then Some (AddAll fmempty c (OrinSet (board_orins src c) |-| OrinSet (board_orins sub c)))
               else fmlookup md c))"
  using assms
proof (induction src sub bs md rule: diff_boards.induct)
  case (1 src sub md)
  then show ?case by simp
next
  case (2 src sub b bs md)
  let ?new = "AddAll fmempty b (OrinSet (board_orins src b) |-| OrinSet (board_orins sub b))"
  have new: "BoardDetails_Add md b ?new = fmupd b ?new md"
    using "2.prems"(3) by (auto simp: BoardDetails_Add_def BoardSet_iff)
  obtain md' where "diff_boards src sub bs (BoardDetails_Add md b ?new) = Inr md'"
    and lk: "\<forall>c. fmlookup md' c =
              (if c \<in> set bs
               then Some (AddAll fmempty c (OrinSet (board_orins src c) |-| OrinSet (board_orins sub c)))
               else fmlookup (BoardDetails_Add md b ?new) c)"
    using "2.IH" [OF refl refl] "2.prems" by fastforce
  then show ?case using "2.prems" by (auto simp: Let_def new)
qed

lemma copy_boards_lookup:
  "distinct ms \<Longrightarrow> \<forall>m \<in> set ms. m |\<notin>| BoardSet d \<Longrightarrow>
   fmlookup (fold (\<lambda>m md. BoardDetails_Add md m (board_orins src m)) ms d) c =
     (if c \<in> set ms then Some (board_orins src c) else fmlookup d c)"
proof (induction ms arbitrary: d)
  case Nil
  then show ?case by simp
next
  case (Cons m ms)
  then have "BoardDetails_Add d m (board_orins src m) = fmupd m (board_orins src m) d"
    by (auto simp: BoardDetails_Add_def BoardSet_iff)
  moreover have "\<forall>k \<in> set ms. k |\<notin>| BoardSet (fmupd m (board_orins src m) d)"
    using Cons.prems by (auto simp: BoardSet_def)
  ultimately show ?case
    using Cons.IH [of "fmupd m (board_orins src m) d"] Cons.prems(1) by simp
qed

theorem DifferenceFromSuperset_spec:
  "DifferenceFromSuperset src sub =
     (if \<not> BoardSet sub |\<subseteq>| BoardSet src then Inl BoardNotSuperset
      else if \<not> covers src sub then Inl OrinNotSuperset
      else Inr (board_minus src sub))"
proof (cases "covers src sub")
  case False
  then show ?thesis
    by (auto simp: DifferenceFromSuperset_def Let_def covers_def sorted_range_def BoardSet_def
        sorted_list_of_fset.rep_eq fBall_alt_def intro!: diff_boards_bad)
next
  case True
  let ?copied = "fold (\<lambda>m md. BoardDetails_Add md m (board_orins src m))
                   (sorted_list_of_fset (BoardSet src |-| BoardSet sub)) fmempty"
  have copied: "fmlookup ?copied c =
      (if c |\<in>| BoardSet src |-| BoardSet sub then Some (board_orins src c) else None)" for c
    by (subst copy_boards_lookup) (auto simp: sorted_list_of_fset.rep_eq BoardSet_def)
  have range: "set (sorted_range sub) = fset (BoardSet sub)" "distinct (sorted_range sub)"
    by (simp_all add: sorted_range_def BoardSet_def sorted_list_of_fset.rep_eq)
  obtain md where md: "diff_boards src sub (sorted_range sub) ?copied = Inr md"
    and lk: "\<And>c. fmlookup md c = (if c |\<in>| BoardSet sub
               then Some (AddAll fmempty c (OrinSet (board_orins src c) |-| OrinSet (board_orins sub c)))
               else fmlookup ?copied c)"
    using diff_boards_good [of "sorted_range sub" sub src ?copied] True
    by (auto simp: range covers_def BoardSet_iff copied fBall_alt_def)
  have "fmlookup md c = fmlookup (board_minus src sub) c" for c
  proof (cases "c |\<in>| BoardSet sub")
    case in_sub: True
    with True obtain od s where "fmlookup src c = Some od" "fmlookup sub c = Some s"
      by (force simp: covers_def BoardSet_iff)
    with in_sub show ?thesis by (simp add: lk topo_simps map_get_def)
  next
    case False
    then have "fmlookup sub c = None" by (simp add: BoardSet_iff)
    with False show ?thesis
      unfolding lk copied by (auto simp: topo_simps BoardSet_iff map_get_def split: option.split)
  qed
  then have "md = board_minus src sub" by (rule fmap_ext)
  with True md show ?thesis
    by (simp add: DifferenceFromSuperset_def Let_def covers_def)
qed

lemma DifferenceFromSuperset_eq:
  "DifferenceFromSuperset src sub =
     (if covers src sub then Inr (board_minus src sub)
      else Inl (if BoardSet sub |\<subseteq>| BoardSet src then OrinNotSuperset else BoardNotSuperset))"
  by (simp add: DifferenceFromSuperset_spec covers_def)

lemma DifferenceFromSuperset_Inr_iff:
  "DifferenceFromSuperset src sub = Inr d \<longleftrightarrow> covers src sub \<and> d = board_minus src sub"
  by (auto simp: DifferenceFromSuperset_spec covers_def)

lemma DifferenceFromSuperset_Inl_iff:
  "(\<exists>e. DifferenceFromSuperset src sub = Inl e) \<longleftrightarrow> \<not> covers src sub"
  by (auto simp: DifferenceFromSuperset_spec covers_def)

section \<open>Equal and well-formedness\<close>

lemma slots_eq_iff: "slots d = slots e \<longleftrightarrow> (\<forall>b. OrinSet (board_orins d b) = OrinSet (board_orins e b))"
  by (auto simp: slots_def fset_eq_iff)

lemma BoardDetails_Equal_iff:
  "BoardDetails_Equal src dst \<longleftrightarrow> BoardSet src = BoardSet dst \<and> slots src = slots dst"
proof -
  have "(\<forall>b. OrinSet (board_orins src b) = OrinSet (board_orins dst b)) \<longleftrightarrow>
      (\<forall>b. b |\<in>| BoardSet src \<longrightarrow> OrinSet (board_orins src b) = OrinSet (board_orins dst b))"
    if "BoardSet src = BoardSet dst"
    using that by (metis board_orins_absent)
  then show ?thesis
    by (auto simp: BoardDetails_Equal_def slots_eq_iff BoardSet_def fBall_alt_def)
qed

lemma board_wf_lookup:
  "board_wf d \<Longrightarrow> fmlookup d b = Some od \<Longrightarrow> fmlookup od x = Some info \<Longrightarrow> info = \<lparr>BoardID = b\<rparr>"
  by (auto simp: board_wf_def fmpred_iff)

lemma board_wf_empty [inv_intros, simp]: "board_wf fmempty"
  by (simp add: board_wf_def)

lemma board_wf_AddAll: "board_wf (fmupd b (AddAll fmempty b S) fmempty)"
  by (auto simp: board_wf_def fmpred_iff AddAll_lookup split: if_splits)

lemma board_wf_Add [inv_intros]:
  "board_wf d \<Longrightarrow> fmpred (\<lambda>_ info. BoardID info = b) od \<Longrightarrow> board_wf (BoardDetails_Add d b od)"
  by (auto simp: board_wf_def fmpred_iff topo_simps map_get_def split: if_splits option.splits)

lemma fmpred_AddAll [inv_intros]:
  "fmpred (\<lambda>_ info. BoardID info = b) od \<Longrightarrow> fmpred (\<lambda>_ info. BoardID info = b) (AddAll od b S)"
  by (auto simp: fmpred_iff AddAll_lookup split: if_splits)

lemma board_wf_minus [inv_intros]: "board_wf src \<Longrightarrow> board_wf (board_minus src sub)"
  by (auto simp: board_wf_def fmpred_iff topo_simps AddAll_lookup split: option.splits if_splits)

lemma board_wf_determined:
  assumes "board_wf d" "board_wf e" "BoardSet d = BoardSet e" "slots d = slots e"
  shows "d = e"
proof (rule fmap_ext)
  fix b
  show "fmlookup d b = fmlookup e b"
  proof (cases "fmlookup d b")
    case None
    with assms(3) show ?thesis by (metis BoardSet_iff)
  next
    case (Some od)
    with assms(3) obtain oe where oe: "fmlookup e b = Some oe"
      by (metis BoardSet_iff option.exhaust)
    have dom: "OrinSet od = OrinSet oe"
      using assms(4) [unfolded slots_eq_iff, rule_format, of b] Some oe by (simp add: map_get_def)
    have "fmlookup od x = fmlookup oe x" for x
    proof (cases "fmlookup od x")
      case None
      with dom show ?thesis by (metis OrinSet_def fmlookup_dom_iff option.distinct(1) not_None_eq)
    next
      case od_x: (Some i)
      then obtain j where "fmlookup oe x = Some j"
        using dom by (metis OrinSet_def fmlookup_dom_iff)
      then show ?thesis
        using od_x board_wf_lookup [OF assms(1) Some] board_wf_lookup [OF assms(2) oe] by simp
    qed
    then show ?thesis using Some oe by (simp add: fmap_ext)
  qed
qed

lemma board_wf_Equal_eq: "board_wf d \<Longrightarrow> board_wf e \<Longrightarrow> BoardDetails_Equal d e \<longleftrightarrow> d = e"
  by (auto simp: BoardDetails_Equal_iff intro: board_wf_determined)

end
