(* ===== verification/Allocator.thy ===== *)
theory Allocator
  imports Topo
begin

text \<open>
  \<open>pkg/scheduler/manager/allocator.go\<close>: the allocator interface, the bin-packing allocator
  and the policy table. The loop of \<open>Allocate\<close> ranges over a map, and which of two equally
  good boards wins depends on the order the runtime picks, so the order \<open>rng\<close> is an
  argument. A policy the table does not hold gives the nil interface, and calling it panics.

  \<open>board_allocator\<close> is the contract the manager relies on: a returned board exists and has
  every requested orin free, and a board is returned whenever one fits. \<open>binpack_allocator\<close>
  adds that the board is a fullest one. Two corners the contract excludes are explicit in
  \<open>alloc_ok\<close>: a board numbered \<open>-1\<close>, which collides with the sentinel \<open>BoardIDNotFount\<close>, and
  a set of \<open>math.MaxInt\<close> or more orins.
\<close>

definition AllocatorPolicyBinPack :: string where
  "AllocatorPolicyBinPack = ''binpack''"

definition AllocatorPolicySpread :: string where
  "AllocatorPolicySpread = ''spread''"

definition BoardIDNotFount :: int where
  "BoardIDNotFount = -1"

definition MaxInt :: int where
  "MaxInt = 2 ^ 63 - 1"

record AllocatorResult =
  score :: int
  boardID :: int

datatype AllocatorImpl = BinpackAllocator | SpreadAllocator

definition AllocatorMap :: "(string, AllocatorImpl) fmap" where
  "AllocatorMap = fmap_of_list [(AllocatorPolicyBinPack, BinpackAllocator)]"

fun best_fit :: "BoardDetails \<Rightarrow> int fset \<Rightarrow> int list \<Rightarrow> int \<Rightarrow> int \<Rightarrow> int \<times> int" where
  "best_fit canAlloc orinRequest [] bestFitBoardScore bestFitBoardID = (bestFitBoardScore, bestFitBoardID)"
| "best_fit canAlloc orinRequest (b # bs) bestFitBoardScore bestFitBoardID =
     (let availOrinSet = OrinSet (board_orins canAlloc b)
      in if orinRequest |\<subseteq>| availOrinSet
         then let tmpScore = int (fcard availOrinSet)
              in if tmpScore < bestFitBoardScore
                 then best_fit canAlloc orinRequest bs tmpScore b
                 else best_fit canAlloc orinRequest bs bestFitBoardScore bestFitBoardID
         else best_fit canAlloc orinRequest bs bestFitBoardScore bestFitBoardID)"

definition BinpackAllocate :: "(BoardDetails \<Rightarrow> int list) \<Rightarrow> BoardDetails \<Rightarrow> int fset \<Rightarrow> AllocatorResult" where
  "BinpackAllocate rng canAlloc orinRequest =
     (let (bestFitBoardScore, bestFitBoardID) = best_fit canAlloc orinRequest (rng canAlloc) MaxInt BoardIDNotFount;
          nodeScore = (if bestFitBoardID \<noteq> BoardIDNotFount
                       then fold (\<lambda>b s. s - int (fcard (fmdom (board_orins canAlloc b)))) (rng canAlloc) 100
                       else 0)
      in \<lparr>score = nodeScore, boardID = bestFitBoardID\<rparr>)"

definition SpreadAllocate :: "BoardDetails \<Rightarrow> int fset \<Rightarrow> AllocatorResult outcome" where
  "SpreadAllocate canAlloc orinRequest = Panic"

definition Allocate ::
  "(BoardDetails \<Rightarrow> int list) \<Rightarrow> AllocatorImpl option \<Rightarrow> BoardDetails \<Rightarrow> int fset \<Rightarrow> AllocatorResult outcome" where
  "Allocate rng allocator canAlloc orinRequest =
     (case allocator of
        None \<Rightarrow> Panic
      | Some BinpackAllocator \<Rightarrow> Ret (BinpackAllocate rng canAlloc orinRequest)
      | Some SpreadAllocator \<Rightarrow> SpreadAllocate canAlloc orinRequest)"

section \<open>The contract\<close>

definition orin_count :: "BoardDetails \<Rightarrow> int \<Rightarrow> int" where
  "orin_count d b = int (fcard (OrinSet (board_orins d b)))"

definition free_total :: "BoardDetails \<Rightarrow> int" where
  "free_total d = (\<Sum>b\<in>fset (BoardSet d). orin_count d b)"

definition alloc_ok :: "BoardDetails \<Rightarrow> bool" where
  "alloc_ok d \<longleftrightarrow> BoardIDNotFount |\<notin>| BoardSet d \<and> fBall (BoardSet d) (\<lambda>b. orin_count d b < MaxInt)"

definition fits_board :: "BoardDetails \<Rightarrow> int fset \<Rightarrow> int \<Rightarrow> bool" where
  "fits_board d req b \<longleftrightarrow> b |\<in>| BoardSet d \<and> req |\<subseteq>| OrinSet (board_orins d b)"

locale board_allocator =
  fixes allocate :: "(BoardDetails \<Rightarrow> int list) \<Rightarrow> BoardDetails \<Rightarrow> int fset \<Rightarrow> AllocatorResult"
  assumes found_fits: "range_order rng \<Longrightarrow> boardID (allocate rng d req) \<noteq> BoardIDNotFount \<Longrightarrow>
      fits_board d req (boardID (allocate rng d req))"
    and found_if: "range_order rng \<Longrightarrow> alloc_ok d \<Longrightarrow> fits_board d req b \<Longrightarrow>
      boardID (allocate rng d req) \<noteq> BoardIDNotFount"
    and found_score: "range_order rng \<Longrightarrow> boardID (allocate rng d req) \<noteq> BoardIDNotFount \<Longrightarrow>
      score (allocate rng d req) = 100 - free_total d"
    and not_found_score: "boardID (allocate rng d req) = BoardIDNotFount \<Longrightarrow> score (allocate rng d req) = 0"
begin

lemma found_iff: "range_order rng \<Longrightarrow> alloc_ok d \<Longrightarrow>
    boardID (allocate rng d req) \<noteq> BoardIDNotFount \<longleftrightarrow> (\<exists>b. fits_board d req b)"
  using found_fits found_if by blast

lemma found_slots: "range_order rng \<Longrightarrow> boardID (allocate rng d req) = b \<Longrightarrow> b \<noteq> BoardIDNotFount \<Longrightarrow>
    {b} \<times> fset req \<subseteq> slots d"
  using found_fits [of rng d req] by (auto simp: fits_board_def slots_def less_eq_fset.rep_eq)

lemma score_order_independent: "range_order rng \<Longrightarrow> range_order rng' \<Longrightarrow> alloc_ok d \<Longrightarrow>
    score (allocate rng d req) = score (allocate rng' d req)"
  using found_iff [of rng d req] found_iff [of rng' d req] found_score not_found_score by metis

end

locale binpack_allocator = board_allocator +
  assumes found_fullest: "range_order rng \<Longrightarrow> boardID (allocate rng d req) \<noteq> BoardIDNotFount \<Longrightarrow>
      fits_board d req b \<Longrightarrow> orin_count d (boardID (allocate rng d req)) \<le> orin_count d b"
begin

lemma exact_fit_preferred: "range_order rng \<Longrightarrow> boardID (allocate rng d req) \<noteq> BoardIDNotFount \<Longrightarrow>
    OrinSet (board_orins d b) = req \<Longrightarrow> b |\<in>| BoardSet d \<Longrightarrow>
    OrinSet (board_orins d (boardID (allocate rng d req))) = req"
proof -
  assume rng: "range_order rng" and found: "boardID (allocate rng d req) \<noteq> BoardIDNotFount"
    and exact: "OrinSet (board_orins d b) = req" "b |\<in>| BoardSet d"
  let ?r = "boardID (allocate rng d req)"
  have "fcard (OrinSet (board_orins d ?r)) \<le> fcard req"
    using found_fullest [OF rng found, of b] exact by (simp add: orin_count_def fits_board_def)
  moreover have "req |\<subseteq>| OrinSet (board_orins d ?r)"
    using found_fits [OF rng found] by (simp add: fits_board_def)
  ultimately show ?thesis by (metis pfsubset_fcard_mono fsubset_not_fsubset_eq not_le order_antisym fcard_seteq)
qed

end

section \<open>The bin-packing allocator meets it\<close>

lemma best_fit_spec:
  assumes "best_fit d req bs bestScore best = (s, r)"
  shows "(r = best \<and> s = bestScore \<or>
          r \<in> set bs \<and> req |\<subseteq>| OrinSet (board_orins d r) \<and> s = orin_count d r \<and> s < bestScore) \<and>
         (\<forall>b \<in> set bs. req |\<subseteq>| OrinSet (board_orins d b) \<longrightarrow> s \<le> orin_count d b) \<and> s \<le> bestScore"
  using assms
  by (induction d req bs bestScore best rule: best_fit.induct)
    (fastforce simp: Let_def orin_count_def split: if_splits)+

lemma BinpackAllocate_boardID:
  "boardID (BinpackAllocate rng d req) = snd (best_fit d req (rng d) MaxInt BoardIDNotFount)"
  by (simp add: BinpackAllocate_def Let_def split: prod.split)

lemma fold_minus_sum:
  "distinct bs \<Longrightarrow> fold (\<lambda>b s. s - f b) bs (a :: int) = a - (\<Sum>b\<in>set bs. f b)"
  by (induction bs arbitrary: a) auto

interpretation binpack: binpack_allocator BinpackAllocate
proof unfold_locales
  fix rng :: "BoardDetails \<Rightarrow> int list" and d req b
  let ?r = "BinpackAllocate rng d req"
  obtain s r where sr: "best_fit d req (rng d) MaxInt BoardIDNotFount = (s, r)" by fastforce
  note bf = best_fit_spec [OF sr]
  have r: "boardID ?r = r" by (simp add: BinpackAllocate_boardID sr)
  show "score ?r = 0" if "boardID ?r = BoardIDNotFount"
    using that by (simp add: BinpackAllocate_def sr Let_def)
  assume rng: "range_order rng"
  have set: "b \<in> set (rng d) \<longleftrightarrow> b |\<in>| BoardSet d" for b
    by (simp add: range_orderD [OF rng] BoardSet_def)
  show "boardID ?r \<noteq> BoardIDNotFount" if "alloc_ok d" "fits_board d req b"
  proof -
    have "b \<in> set (rng d)" using that set by (simp add: fits_board_def)
    with that bf have "s \<le> orin_count d b" by (simp add: fits_board_def)
    also have "\<dots> < MaxInt" using that by (simp add: alloc_ok_def fits_board_def fBall_alt_def)
    finally have "r |\<in>| BoardSet d" using bf set by auto
    with that show ?thesis by (auto simp: r alloc_ok_def)
  qed
  assume found: "boardID ?r \<noteq> BoardIDNotFount"
  show "fits_board d req (boardID ?r)" using found bf by (auto simp: r set fits_board_def)
  show "score ?r = 100 - free_total d"
    using found by (simp add: BinpackAllocate_def sr Let_def fold_minus_sum range_order_distinct [OF rng]
        free_total_def orin_count_def OrinSet_def BoardSet_def range_orderD [OF rng])
  show "orin_count d (boardID ?r) \<le> orin_count d b" if "fits_board d req b"
    using found that bf by (auto simp: r set fits_board_def)
qed

lemma Allocate_policy:
  "Allocate rng (fmlookup AllocatorMap p) d req =
     (if p = AllocatorPolicyBinPack then Ret (BinpackAllocate rng d req) else Panic)"
  by (simp add: Allocate_def AllocatorMap_def)

end
