(* ===== verification/NodeInfos.thy ===== *)
theory NodeInfos
  imports SchedUtil Allocator "HOL-Library.Char_ord" "HOL-Library.List_Lexorder"
begin

text \<open>
  The per-node accounting of \<open>pkg/scheduler/manager/cache.go\<close>: \<open>NodeInfo\<close>, its methods
  \<open>addPod\<close> and \<open>deletePod\<close>, and \<open>NewNodeInfo\<close>. A method that returns an error may already
  have written to its receiver (\<open>addPod\<close> updates \<open>Requested\<close> before it can fail), so the
  methods return the new node info together with the error.

  A \<open>NodeInfo\<close> holds its maps by reference; here they are values. NodeHeap has the same
  methods on a heap of maps and proves that they do what the methods below do, for pods whose
  board annotation is the one they were added with.

  \<open>ni_inv\<close> says \<open>Allocatable\<close> is exactly \<open>Total\<close> minus \<open>Requested\<close> (the check the source
  leaves as a TODO), \<open>ni_exclusive\<close> that \<open>Requested\<close> is the disjoint union of what the
  node's pods hold.
\<close>

datatype cache_error =
    TopoError topo_error
  | NodeNotContainPod string string uid
  | NodeNotFound string
  | PodInCache string uid
  | PodNotInCache string uid

record NodeInfo =
  ni_Node :: Node
  Pods :: "(uid, Pod) fmap"
  Allocatable :: BoardDetails
  Requested :: BoardDetails
  Total :: BoardDetails

section \<open>Methods\<close>

definition NodeInfo_deletePod :: "NodeInfo \<Rightarrow> Pod \<Rightarrow> NodeInfo \<times> cache_error option" where
  "NodeInfo_deletePod ni pod =
     (case fmlookup (pod_Annotations pod) AnnotationPodBindToBoard of
        None \<Rightarrow> (ni, None)
      | Some bindBoardIDStr \<Rightarrow>
          if \<not> has_key (Pods ni) (pod_UID pod)
          then (ni, Some (NodeNotContainPod (node_Name (ni_Node ni)) (pod_Name pod) (pod_UID pod)))
          else (case ParseInt bindBoardIDStr of
                  None \<Rightarrow> (ni, None)
                | Some bindBoardID \<Rightarrow>
                    (let needReleaseOrinDetails = AddAll NewOrinDetails bindBoardID (BuildRequestOrinSet pod);
                         needReleaseBoardDetails = BoardDetails_Add NewBoardDetails bindBoardID needReleaseOrinDetails
                     in case DifferenceFromSuperset (Requested ni) needReleaseBoardDetails of
                          Inl e \<Rightarrow> (ni, Some (TopoError e))
                        | Inr newRequest \<Rightarrow>
                            (ni\<lparr>Requested := newRequest,
                                Allocatable := BoardDetails_Add (Allocatable ni) bindBoardID needReleaseOrinDetails,
                                Pods := fmdrop (pod_UID pod) (Pods ni)\<rparr>, None))))"

text \<open>Steps 1 to 4 of \<open>addPod\<close>, after the annotation is read and an older copy is deleted.\<close>

definition addPod_request :: "NodeInfo \<Rightarrow> Pod \<Rightarrow> int \<Rightarrow> NodeInfo \<times> cache_error option" where
  "addPod_request ni pod bindBoardID =
     (let orinSet = BuildRequestOrinSet pod;
          od = (case fmlookup (Requested ni) bindBoardID of Some existOd \<Rightarrow> existOd | None \<Rightarrow> NewOrinDetails);
          od' = AddAll od bindBoardID orinSet;
          ni' = ni\<lparr>Requested := fmupd bindBoardID od' (Requested ni)\<rparr>
      in case DifferenceFromSuperset (Total ni') (Requested ni') of
           Inl e \<Rightarrow> (ni', Some (TopoError e))
         | Inr newAllocatable \<Rightarrow>
             (ni'\<lparr>Allocatable := newAllocatable, Pods := fmupd (pod_UID pod) pod (Pods ni')\<rparr>, None))"

definition NodeInfo_addPod :: "NodeInfo \<Rightarrow> Pod \<Rightarrow> NodeInfo \<times> cache_error option" where
  "NodeInfo_addPod ni pod =
     (case fmlookup (pod_Annotations pod) AnnotationPodBindToBoard of
        None \<Rightarrow> (ni, None)
      | Some bindBoardIDStr \<Rightarrow>
          (case ParseInt bindBoardIDStr of
             None \<Rightarrow> (ni, None)
           | Some bindBoardID \<Rightarrow>
               (case (if has_key (Pods ni) (pod_UID pod) then NodeInfo_deletePod ni pod else (ni, None)) of
                  (ni', Some err) \<Rightarrow> (ni', Some err)
                | (ni', None) \<Rightarrow> addPod_request ni' pod bindBoardID)))"

definition add_capacity :: "(string, int64) fmap \<Rightarrow> string \<Rightarrow> BoardDetails \<Rightarrow> BoardDetails" where
  "add_capacity capacity rkey totalBoardDetails =
     (if HasPrefix rkey ExtendResouceTypeBoardPrefix
      then (case BoardIDFromResourceName rkey of
              None \<Rightarrow> totalBoardDetails
            | Some boardID' \<Rightarrow>
                (case snd (Parse (NewDecimalMap (map_get 0 capacity rkey) DefaultOrinStartBit)) of
                   Inl _ \<Rightarrow> totalBoardDetails
                 | Inr orinSet \<Rightarrow>
                     BoardDetails_Add totalBoardDetails boardID' (AddAll NewOrinDetails boardID' orinSet)))
      else totalBoardDetails)"

definition node_total :: "Node \<Rightarrow> BoardDetails" where
  "node_total node = fold (add_capacity (node_Capacity node)) (sorted_range (node_Capacity node)) NewBoardDetails"

fun add_pods :: "NodeInfo \<Rightarrow> Pod list \<Rightarrow> NodeInfo" where
  "add_pods ni [] = ni"
| "add_pods ni (p # ps) = add_pods (fst (NodeInfo_addPod ni p)) ps"

definition NewNodeInfo :: "Node \<Rightarrow> Pod list \<Rightarrow> NodeInfo" where
  "NewNodeInfo node pods =
     add_pods \<lparr>ni_Node = node, Pods = fmempty, Allocatable = node_total node,
               Requested = NewBoardDetails, Total = node_total node\<rparr> pods"

section \<open>What the node's capacity means\<close>

definition board_of_key :: "(string, int64) fmap \<Rightarrow> string \<Rightarrow> (int \<times> int fset) option" where
  "board_of_key capacity rkey =
     (if HasPrefix rkey ExtendResouceTypeBoardPrefix
      then (case BoardIDFromResourceName rkey of
              None \<Rightarrow> None
            | Some b \<Rightarrow> (case decode_from DefaultOrinStartBit (map_get 0 capacity rkey) of
                             Inl _ \<Rightarrow> None
                           | Inr S \<Rightarrow> Some (b, S)))
      else None)"

lemma add_capacity_alt:
  "add_capacity cap k d =
     (case board_of_key cap k of None \<Rightarrow> d | Some (b, S) \<Rightarrow> BoardDetails_Add d b (AddAll fmempty b S))"
  by (simp add: add_capacity_def board_of_key_def decode_from_def split: option.split sum.split)

lemma add_capacity_fold_wf: "board_wf d \<Longrightarrow> board_wf (fold (add_capacity cap) ks d)"
  by (induction ks arbitrary: d)
    (auto simp: add_capacity_alt split: option.split intro!: inv_intros)

lemma add_capacity_fold_boards:
  "b |\<in>| BoardSet (fold (add_capacity cap) ks d) \<longleftrightarrow>
     b |\<in>| BoardSet d \<or> (\<exists>k \<in> set ks. \<exists>S. board_of_key cap k = Some (b, S))"
proof (induction ks arbitrary: d)
  case (Cons k ks)
  show ?case
    by (cases "board_of_key cap k") (auto simp: Cons add_capacity_alt [of cap k])
qed simp

lemma add_capacity_fold_slots:
  "(b, x) \<in> slots (fold (add_capacity cap) ks d) \<longleftrightarrow>
     (b, x) \<in> slots d \<or> (\<exists>k \<in> set ks. \<exists>S. board_of_key cap k = Some (b, S) \<and> x |\<in>| S)"
proof (induction ks arbitrary: d)
  case (Cons k ks)
  show ?case
    by (cases "board_of_key cap k")
      (auto simp: Cons add_capacity_alt [of cap k] slots_Add simp del: slots_iff)
qed simp

lemma set_sorted_range [simp]: "set (sorted_range m) = fset (fmdom m)"
  by (rule range_orderD [OF range_order_sorted])

lemma fset_of_sorted_range [simp]: "fset_of_list (sorted_range m) = fmdom m"
  by (simp add: fset_of_list_elem fset_eq_iff)

lemma node_total_wf [simp]: "board_wf (node_total node)"
  by (simp add: node_total_def add_capacity_fold_wf)

lemma node_total_slots:
  "(b, x) \<in> slots (node_total node) \<longleftrightarrow>
     (\<exists>k S. has_key (node_Capacity node) k \<and> board_of_key (node_Capacity node) k = Some (b, S) \<and> x |\<in>| S)"
  unfolding node_total_def by (subst add_capacity_fold_slots) (auto simp: has_key_iff)

lemma node_total_boards:
  "b |\<in>| BoardSet (node_total node) \<longleftrightarrow>
     (\<exists>k S. has_key (node_Capacity node) k \<and> board_of_key (node_Capacity node) k = Some (b, S))"
  unfolding node_total_def by (subst add_capacity_fold_boards) (auto simp: has_key_iff BoardSet_def)

lemma node_total_any_order:
  assumes "set ks = fset (fmdom (node_Capacity node))"
  shows "fold (add_capacity (node_Capacity node)) ks NewBoardDetails = node_total node"
  unfolding node_total_def
proof (rule board_wf_determined)
  show "BoardSet (fold (add_capacity (node_Capacity node)) ks NewBoardDetails) =
      BoardSet (fold (add_capacity (node_Capacity node)) (sorted_range (node_Capacity node)) NewBoardDetails)"
    by (rule fset_eqI) (simp only: add_capacity_fold_boards assms set_sorted_range)
  show "slots (fold (add_capacity (node_Capacity node)) ks NewBoardDetails) =
      slots (fold (add_capacity (node_Capacity node)) (sorted_range (node_Capacity node)) NewBoardDetails)"
    by (rule set_eqI, clarify) (simp only: add_capacity_fold_slots assms set_sorted_range)
qed (simp_all add: add_capacity_fold_wf)

end
