(* ===== verification/NodeInvariant.thy ===== *)
theory NodeInvariant
  imports NodeInfos
begin

text \<open>
  Invariants of \<open>NodeInfo\<close> and the effect of its methods on them, stated on slots: pairs of
  a board id and an orin id.

  \<^item> \<open>ni_inv\<close>: \<open>Requested\<close> is covered by \<open>Total\<close> and \<open>Allocatable\<close> is their difference.
  \<^item> \<open>ni_exclusive\<close>: every requested slot is held by exactly one pod of the node.
  \<^item> \<open>poisoned\<close>: \<open>Requested\<close> has a slot \<open>Total\<close> lacks. A failed \<open>addPod\<close> leaves the node
    so, and no later \<open>addPod\<close> succeeds.
\<close>

definition pod_slots :: "Pod \<Rightarrow> (int \<times> int) set" where
  "pod_slots p = (case bind_board p of None \<Rightarrow> {} | Some b \<Rightarrow> {b} \<times> fset (BuildRequestOrinSet p))"

definition ni_inv :: "NodeInfo \<Rightarrow> bool" where
  "ni_inv ni \<longleftrightarrow> board_wf (Total ni) \<and>
     DifferenceFromSuperset (Total ni) (Requested ni) = Inr (Allocatable ni)"

definition keyed_in :: "BoardDetails \<Rightarrow> uid \<Rightarrow> Pod \<Rightarrow> bool" where
  "keyed_in R u p \<longleftrightarrow>
     pod_UID p = u \<and> (case bind_board p of None \<Rightarrow> False | Some b \<Rightarrow> b |\<in>| BoardSet R)"

definition pods_keyed :: "NodeInfo \<Rightarrow> bool" where
  "pods_keyed ni \<longleftrightarrow> fmpred (keyed_in (Requested ni)) (Pods ni)"

definition held_slots :: "(uid, Pod) fmap \<Rightarrow> (int \<times> int) set" where
  "held_slots ps = {s. \<exists>u p. fmlookup ps u = Some p \<and> s \<in> pod_slots p}"

definition disjoint_pods :: "(uid, Pod) fmap \<Rightarrow> bool" where
  "disjoint_pods ps \<longleftrightarrow>
     (\<forall>u v p q. fmlookup ps u = Some p \<longrightarrow> fmlookup ps v = Some q \<longrightarrow> u \<noteq> v \<longrightarrow>
        pod_slots p \<inter> pod_slots q = {})"

definition ni_exclusive :: "NodeInfo \<Rightarrow> bool" where
  "ni_exclusive ni \<longleftrightarrow> pods_keyed ni \<and> slots (Requested ni) = held_slots (Pods ni) \<and> disjoint_pods (Pods ni)"

definition poisoned :: "NodeInfo \<Rightarrow> bool" where
  "poisoned ni \<longleftrightarrow> \<not> covers (Total ni) (Requested ni)"

lemma ni_inv_iff:
  "ni_inv ni \<longleftrightarrow> board_wf (Total ni) \<and> covers (Total ni) (Requested ni) \<and>
     Allocatable ni = board_minus (Total ni) (Requested ni)"
  by (auto simp: ni_inv_def DifferenceFromSuperset_Inr_iff)

lemma ni_inv_slots: "ni_inv ni \<Longrightarrow> slots (Allocatable ni) = slots (Total ni) - slots (Requested ni)"
  by (simp add: ni_inv_iff slots_minus)

lemma ni_inv_boards: "ni_inv ni \<Longrightarrow> BoardSet (Allocatable ni) = BoardSet (Total ni)"
  by (simp add: ni_inv_iff)

section \<open>Effect of the methods\<close>

definition requested_after :: "NodeInfo \<Rightarrow> Pod \<Rightarrow> int \<Rightarrow> BoardDetails" where
  "requested_after ni pod b =
     fmupd b (AddAll (board_orins (Requested ni) b) b (BuildRequestOrinSet pod)) (Requested ni)"

lemma slots_requested_after:
  "slots (requested_after ni pod b) = slots (Requested ni) \<union> {b} \<times> fset (BuildRequestOrinSet pod)"
  by (auto simp: requested_after_def slots_upd)

lemma BoardSet_requested_after: "BoardSet (requested_after ni pod b) = finsert b (BoardSet (Requested ni))"
  by (simp add: requested_after_def BoardSet_def)

lemma addPod_request_eq:
  "addPod_request ni pod b =
     (if covers (Total ni) (requested_after ni pod b)
      then (ni\<lparr>Requested := requested_after ni pod b,
               Allocatable := board_minus (Total ni) (requested_after ni pod b),
               Pods := fmupd (pod_UID pod) pod (Pods ni)\<rparr>, None)
      else (ni\<lparr>Requested := requested_after ni pod b\<rparr>,
            Some (TopoError (if BoardSet (requested_after ni pod b) |\<subseteq>| BoardSet (Total ni)
                             then OrinNotSuperset else BoardNotSuperset))))"
proof -
  have "(case fmlookup (Requested ni) b of None \<Rightarrow> NewOrinDetails | Some existOd \<Rightarrow> existOd) =
      board_orins (Requested ni) b"
    by (simp add: map_get_def split: option.split)
  then show ?thesis
    by (simp add: addPod_request_def Let_def DifferenceFromSuperset_eq requested_after_def [symmetric])
qed

lemma addPod_fresh:
  assumes "bind_board pod = Some b" "\<not> has_key (Pods ni) (pod_UID pod)"
  shows "NodeInfo_addPod ni pod = addPod_request ni pod b"
  using assms by (auto simp: NodeInfo_addPod_def bind_board_Some)

lemma addPod_ignored: "bind_board pod = None \<Longrightarrow> NodeInfo_addPod ni pod = (ni, None)"
  by (auto simp: NodeInfo_addPod_def bind_board_def split: option.split)

lemma addPod_known:
  assumes "bind_board pod = Some b" "has_key (Pods ni) (pod_UID pod)"
    "NodeInfo_deletePod ni pod = (ni', None)"
  shows "NodeInfo_addPod ni pod = addPod_request ni' pod b"
  using assms by (auto simp: NodeInfo_addPod_def bind_board_Some)

definition release_of :: "Pod \<Rightarrow> int \<Rightarrow> BoardDetails" where
  "release_of pod b = fmupd b (AddAll fmempty b (BuildRequestOrinSet pod)) fmempty"

lemma covers_release:
  "covers d (release_of pod b) \<longleftrightarrow> fits_board d (BuildRequestOrinSet pod) b"
  by (simp add: covers_def release_of_def fits_board_def BoardSet_def)

lemma BoardSet_release [simp]: "BoardSet (release_of pod b) = {|b|}"
  by (simp add: release_of_def BoardSet_def)

lemma slots_release: "slots (release_of pod b) = {b} \<times> fset (BuildRequestOrinSet pod)"
  by (auto simp: release_of_def slots_upd)

lemma deletePod_eq:
  assumes "bind_board pod = Some b" "has_key (Pods ni) (pod_UID pod)"
  shows "NodeInfo_deletePod ni pod =
     (if fits_board (Requested ni) (BuildRequestOrinSet pod) b
      then (ni\<lparr>Requested := board_minus (Requested ni) (release_of pod b),
               Allocatable := BoardDetails_Add (Allocatable ni) b (AddAll fmempty b (BuildRequestOrinSet pod)),
               Pods := fmdrop (pod_UID pod) (Pods ni)\<rparr>, None)
      else (ni, Some (TopoError (if b |\<in>| BoardSet (Requested ni) then OrinNotSuperset else BoardNotSuperset))))"
proof -
  have "BoardDetails_Add NewBoardDetails b (AddAll NewOrinDetails b (BuildRequestOrinSet pod)) = release_of pod b"
    by (simp add: BoardDetails_Add_def release_of_def)
  moreover obtain str where "fmlookup (pod_Annotations pod) AnnotationPodBindToBoard = Some str" "ParseInt str = Some b"
    using assms(1) by (auto simp: bind_board_Some)
  ultimately show ?thesis
    using assms(2)
    by (simp add: NodeInfo_deletePod_def Let_def DifferenceFromSuperset_eq covers_release)
qed

lemma deletePod_unannotated:
  "fmlookup (pod_Annotations pod) AnnotationPodBindToBoard = None \<Longrightarrow> NodeInfo_deletePod ni pod = (ni, None)"
  by (simp add: NodeInfo_deletePod_def)

lemma deletePod_unknown:
  "fmlookup (pod_Annotations pod) AnnotationPodBindToBoard \<noteq> None \<Longrightarrow> \<not> has_key (Pods ni) (pod_UID pod) \<Longrightarrow>
   NodeInfo_deletePod ni pod = (ni, Some (NodeNotContainPod (node_Name (ni_Node ni)) (pod_Name pod) (pod_UID pod)))"
  by (auto simp: NodeInfo_deletePod_def)

lemma Total_deletePod [simp]: "Total (fst (NodeInfo_deletePod ni pod)) = Total ni"
  by (auto simp: NodeInfo_deletePod_def Let_def split: option.split sum.split)

lemma Total_addPod_request [simp]: "Total (fst (addPod_request ni pod b)) = Total ni"
  by (simp add: addPod_request_eq)

lemma Total_addPod [simp]: "Total (fst (NodeInfo_addPod ni pod)) = Total ni"
proof (cases "bind_board pod")
  case (Some b)
  obtain ni' e where del: "(if has_key (Pods ni) (pod_UID pod) then NodeInfo_deletePod ni pod else (ni, None)) = (ni', e)"
    by fastforce
  then have "Total ni' = Total ni"
    by (metis Total_deletePod fst_conv)
  moreover have "NodeInfo_addPod ni pod =
      (case (ni', e) of (ni', Some err) \<Rightarrow> (ni', Some err) | (ni', None) \<Rightarrow> addPod_request ni' pod b)"
    unfolding del [symmetric] using Some by (auto simp: NodeInfo_addPod_def bind_board_Some)
  ultimately show ?thesis by (simp split: option.split)
qed (simp add: addPod_ignored)

section \<open>The accounting identity\<close>

lemma release_identity:
  assumes wf: "board_wf T" and cov: "covers T R" and fits: "fits_board R (BuildRequestOrinSet pod) b"
  shows "BoardDetails_Add (board_minus T R) b (AddAll fmempty b (BuildRequestOrinSet pod)) =
     board_minus T (board_minus R (release_of pod b))"
proof (rule board_wf_determined)
  have sub: "{b} \<times> fset (BuildRequestOrinSet pod) \<subseteq> slots R" "slots R \<subseteq> slots T" "b |\<in>| BoardSet T"
    using fits cov by (auto simp: fits_board_def covers_slots less_eq_fset.rep_eq)
  then show "slots (BoardDetails_Add (board_minus T R) b (AddAll fmempty b (BuildRequestOrinSet pod))) =
      slots (board_minus T (board_minus R (release_of pod b)))"
    by (simp only: slots_Add slots_minus slots_release OrinSet_AddAll OrinSet_empty sup_bot_left) blast
  show "BoardSet (BoardDetails_Add (board_minus T R) b (AddAll fmempty b (BuildRequestOrinSet pod))) =
      BoardSet (board_minus T (board_minus R (release_of pod b)))"
    using sub(3) by auto
qed (auto intro!: inv_intros wf)

lemma covers_minus: "covers T R \<Longrightarrow> covers T (board_minus R S)"
  by (auto simp: covers_slots slots_minus simp del: slots_iff)

lemma deletePod_inv [inv_intros]: "ni_inv ni \<Longrightarrow> ni_inv (fst (NodeInfo_deletePod ni pod))"
proof (cases "bind_board pod")
  case None
  assume "ni_inv ni"
  moreover have "fst (NodeInfo_deletePod ni pod) = ni"
    using None by (auto simp: NodeInfo_deletePod_def bind_board_def split: option.split)
  ultimately show ?thesis by simp
next
  case (Some b)
  assume inv: "ni_inv ni"
  show ?thesis
  proof (cases "has_key (Pods ni) (pod_UID pod)")
    case True
    show ?thesis
      using inv release_identity [of "Total ni" "Requested ni" pod b]
      by (auto simp: deletePod_eq [OF Some True] ni_inv_iff covers_minus)
  next
    case False
    with Some inv show ?thesis by (auto simp: deletePod_unknown bind_board_Some)
  qed
qed

lemma addPod_request_inv:
  "board_wf (Total ni) \<Longrightarrow> snd (addPod_request ni pod b) = None \<Longrightarrow> ni_inv (fst (addPod_request ni pod b))"
  by (auto simp: addPod_request_eq ni_inv_iff split: if_splits)

lemma addPod_request_poisoned:
  "snd (addPod_request ni pod b) \<noteq> None \<Longrightarrow> poisoned (fst (addPod_request ni pod b))"
  by (auto simp: addPod_request_eq poisoned_def split: if_splits)

lemma addPod_inv [inv_intros]:
  assumes "ni_inv ni" "snd (NodeInfo_addPod ni pod) = None"
  shows "ni_inv (fst (NodeInfo_addPod ni pod))"
proof (cases "bind_board pod")
  case None
  with assms show ?thesis by (simp add: addPod_ignored)
next
  case (Some b)
  show ?thesis
  proof (cases "has_key (Pods ni) (pod_UID pod)")
    case True
    obtain ni' e where del: "NodeInfo_deletePod ni pod = (ni', e)" by fastforce
    have e: "e = None"
      using assms(2) Some True del by (auto simp: NodeInfo_addPod_def bind_board_Some split: option.splits)
    have "board_wf (Total ni')"
      using deletePod_inv [OF assms(1), of pod] del by (simp add: ni_inv_iff)
    with assms(2) show ?thesis
      using addPod_known [OF Some True del [unfolded e]] addPod_request_inv by simp
  next
    case False
    have "board_wf (Total ni)" using assms(1) by (simp add: ni_inv_iff)
    with assms(2) False Some show ?thesis by (simp add: addPod_fresh addPod_request_inv)
  qed
qed

lemma NewNodeInfo_empty: "ni_inv (NewNodeInfo node [])"
  by (simp add: NewNodeInfo_def ni_inv_iff)

section \<open>Poisoned nodes\<close>

lemma poisoned_mono:
  "poisoned ni \<Longrightarrow> slots (Requested ni) \<subseteq> slots R \<Longrightarrow> BoardSet (Requested ni) |\<subseteq>| BoardSet R \<Longrightarrow>
   \<not> covers (Total ni) R"
  by (auto simp: poisoned_def covers_slots less_eq_fset.rep_eq simp del: slots_iff)

lemma poisoned_addPod:
  assumes "poisoned ni" "bind_board pod = Some b" "\<not> has_key (Pods ni) (pod_UID pod)"
  shows "snd (NodeInfo_addPod ni pod) \<noteq> None" and "poisoned (fst (NodeInfo_addPod ni pod))"
    and "Allocatable (fst (NodeInfo_addPod ni pod)) = Allocatable ni"
    and "Pods (fst (NodeInfo_addPod ni pod)) = Pods ni"
proof -
  have "\<not> covers (Total ni) (requested_after ni pod b)"
    using assms(1) by (rule poisoned_mono) (auto simp: slots_requested_after BoardSet_requested_after simp del: slots_iff)
  then show "snd (NodeInfo_addPod ni pod) \<noteq> None" "poisoned (fst (NodeInfo_addPod ni pod))"
    "Allocatable (fst (NodeInfo_addPod ni pod)) = Allocatable ni"
    "Pods (fst (NodeInfo_addPod ni pod)) = Pods ni"
    by (simp_all add: addPod_fresh [OF assms(2,3)] addPod_request_eq poisoned_def)
qed

section \<open>Exclusive accounting\<close>

lemma pod_slots_bound: "bind_board p = Some b \<Longrightarrow> pod_slots p = {b} \<times> fset (BuildRequestOrinSet p)"
  by (simp add: pod_slots_def)

lemma ni_exclusive_empty: "ni_exclusive (NewNodeInfo node [])"
  by (simp add: NewNodeInfo_def ni_exclusive_def pods_keyed_def held_slots_def disjoint_pods_def)

lemma keyed_in_iff: "keyed_in R u p \<longleftrightarrow> pod_UID p = u \<and> (\<exists>b. bind_board p = Some b \<and> b |\<in>| BoardSet R)"
  by (simp add: keyed_in_def split: option.split)

lemma keyed_in_mono: "keyed_in R u p \<Longrightarrow> BoardSet R |\<subseteq>| BoardSet R' \<Longrightarrow> keyed_in R' u p"
  by (auto simp: keyed_in_iff)

lemma pods_keyedD: "pods_keyed ni \<Longrightarrow> fmlookup (Pods ni) u = Some p \<Longrightarrow> keyed_in (Requested ni) u p"
  by (auto simp: pods_keyed_def)

lemma pods_keyedI: "(\<And>u p. fmlookup (Pods ni) u = Some p \<Longrightarrow> keyed_in (Requested ni) u p) \<Longrightarrow> pods_keyed ni"
  by (auto simp: pods_keyed_def)

lemma ni_exclusiveD:
  "ni_exclusive ni \<Longrightarrow> fmlookup (Pods ni) u = Some p \<Longrightarrow>
     pod_UID p = u \<and> (\<exists>b. bind_board p = Some b \<and> b |\<in>| BoardSet (Requested ni))"
  unfolding ni_exclusive_def keyed_in_iff [symmetric] by (blast dest: pods_keyedD)

lemma held_slots_upd:
  assumes "fmlookup ps u = None"
  shows "held_slots (fmupd u p ps) = held_slots ps \<union> pod_slots p"
proof -
  have upd: "fmlookup (fmupd u p ps) v = Some q \<longleftrightarrow> v = u \<and> q = p \<or> fmlookup ps v = Some q" for v q
    using assms by auto
  show ?thesis unfolding held_slots_def upd by blast
qed

lemma held_slots_drop:
  assumes "fmlookup ps u = Some p" "disjoint_pods ps"
  shows "held_slots (fmdrop u ps) = held_slots ps - pod_slots p"
proof (intro set_eqI iffI)
  fix s assume "s \<in> held_slots (fmdrop u ps)"
  then obtain v q where vq: "v \<noteq> u" "fmlookup ps v = Some q" "s \<in> pod_slots q"
    by (auto simp: held_slots_def split: if_splits)
  then have "pod_slots q \<inter> pod_slots p = {}" using assms unfolding disjoint_pods_def by blast
  then show "s \<in> held_slots ps - pod_slots p" using vq unfolding held_slots_def by blast
next
  fix s assume s: "s \<in> held_slots ps - pod_slots p"
  then obtain v q where vq: "fmlookup ps v = Some q" "s \<in> pod_slots q" by (auto simp: held_slots_def)
  with s assms(1) have "fmlookup (fmdrop u ps) v = Some q" by auto
  with vq(2) show "s \<in> held_slots (fmdrop u ps)" unfolding held_slots_def by blast
qed

lemma disjoint_pods_upd:
  assumes "disjoint_pods ps" "pod_slots p \<inter> held_slots ps = {}"
  shows "disjoint_pods (fmupd u p ps)"
proof -
  have "pod_slots q \<inter> pod_slots p = {}" if "fmlookup ps v = Some q" for v q
    using assms(2) that unfolding held_slots_def by blast
  with assms(1) show ?thesis unfolding disjoint_pods_def by (simp add: Int_commute)
qed

lemma disjoint_pods_drop: "disjoint_pods ps \<Longrightarrow> disjoint_pods (fmdrop u ps)"
  by (simp add: disjoint_pods_def)

lemma fits_board_slots: "fits_board d S b \<longleftrightarrow> b |\<in>| BoardSet d \<and> {b} \<times> fset S \<subseteq> slots d"
  by (auto simp: fits_board_def less_eq_fset.rep_eq)

lemma addPod_exclusive:
  assumes inv: "ni_inv ni" and ex: "ni_exclusive ni" and fresh: "\<not> has_key (Pods ni) (pod_UID pod)"
    and b: "bind_board pod = Some b" and fits: "fits_board (Allocatable ni) (BuildRequestOrinSet pod) b"
  shows "\<exists>ni'. NodeInfo_addPod ni pod = (ni', None) \<and> ni_inv ni' \<and> ni_exclusive ni' \<and>
           Pods ni' = fmupd (pod_UID pod) pod (Pods ni) \<and>
           slots (Allocatable ni') = slots (Allocatable ni) - pod_slots pod"
proof -
  let ?R = "requested_after ni pod b" and ?S = "{b} \<times> fset (BuildRequestOrinSet pod)"
  have free: "?S \<subseteq> slots (Total ni) - slots (Requested ni)" "b |\<in>| BoardSet (Total ni)"
    using fits ni_inv_slots [OF inv] ni_inv_boards [OF inv] by (auto simp: fits_board_slots simp del: slots_iff)
  have cov: "covers (Total ni) ?R"
    using inv free by (auto simp: ni_inv_iff covers_slots slots_requested_after BoardSet_requested_after simp del: slots_iff)
  let ?ni = "ni\<lparr>Requested := ?R, Allocatable := board_minus (Total ni) ?R, Pods := fmupd (pod_UID pod) pod (Pods ni)\<rparr>"
  have add: "NodeInfo_addPod ni pod = (?ni, None)"
    using cov by (simp add: addPod_fresh [OF b fresh] addPod_request_eq)
  have R: "slots (Requested ni) = held_slots (Pods ni)" using ex by (simp add: ni_exclusive_def)
  have none: "fmlookup (Pods ni) (pod_UID pod) = None" using fresh by (simp add: has_key_def)
  have "pods_keyed ?ni"
    using ni_exclusiveD [OF ex] b
    by (intro pods_keyedI) (force simp: keyed_in_iff BoardSet_requested_after split: if_splits)
  moreover have "slots ?R = held_slots (Pods ?ni)"
    by (simp add: slots_requested_after held_slots_upd [OF none] R pod_slots_bound [OF b] del: slots_iff)
  moreover have "disjoint_pods (Pods ?ni)"
  proof -
    have "pod_slots pod \<inter> held_slots (Pods ni) = {}"
      using free(1) unfolding R pod_slots_bound [OF b] by blast
    then show ?thesis using ex by (simp add: ni_exclusive_def disjoint_pods_upd)
  qed
  ultimately have "ni_exclusive ?ni" by (simp add: ni_exclusive_def)
  moreover have "ni_inv ?ni" using inv cov by (simp add: ni_inv_iff)
  moreover have "slots (Allocatable ?ni) = slots (Allocatable ni) - pod_slots pod"
    by (auto simp: ni_inv_slots [OF inv] slots_minus slots_requested_after pod_slots_bound [OF b] simp del: slots_iff)
  ultimately show ?thesis using add by auto
qed

lemma deletePod_exclusive:
  assumes inv: "ni_inv ni" and ex: "ni_exclusive ni"
    and known: "fmlookup (Pods ni) (pod_UID pod) = Some p"
    and same: "bind_board pod = bind_board p" "BuildRequestOrinSet pod = BuildRequestOrinSet p"
  shows "\<exists>ni'. NodeInfo_deletePod ni pod = (ni', None) \<and> ni_inv ni' \<and> ni_exclusive ni' \<and>
           Pods ni' = fmdrop (pod_UID pod) (Pods ni) \<and>
           slots (Allocatable ni') = slots (Allocatable ni) \<union> pod_slots p"
proof -
  obtain b where b: "bind_board p = Some b" and bR: "b |\<in>| BoardSet (Requested ni)"
    using ni_exclusiveD [OF ex known] by blast
  have key: "has_key (Pods ni) (pod_UID pod)" using known by (simp add: has_key_def)
  have R: "slots (Requested ni) = held_slots (Pods ni)" and dis: "disjoint_pods (Pods ni)"
    using ex by (auto simp: ni_exclusive_def)
  have ps: "pod_slots p = {b} \<times> fset (BuildRequestOrinSet pod)" by (simp add: pod_slots_bound [OF b] same)
  have "pod_slots p \<subseteq> slots (Requested ni)" using known unfolding R held_slots_def by blast
  then have fits: "fits_board (Requested ni) (BuildRequestOrinSet pod) b"
    using bR by (simp add: fits_board_slots ps del: slots_iff)
  let ?ni = "ni\<lparr>Requested := board_minus (Requested ni) (release_of pod b),
               Allocatable := BoardDetails_Add (Allocatable ni) b (AddAll fmempty b (BuildRequestOrinSet pod)),
               Pods := fmdrop (pod_UID pod) (Pods ni)\<rparr>"
  have del: "NodeInfo_deletePod ni pod = (?ni, None)"
    using fits b same by (simp add: deletePod_eq [of pod b, OF _ key])
  have "pods_keyed ?ni"
    using ni_exclusiveD [OF ex] by (intro pods_keyedI) (force simp: keyed_in_iff split: if_splits)
  moreover have "slots (Requested ?ni) = held_slots (Pods ?ni)"
    by (simp add: slots_minus slots_release R held_slots_drop [OF known dis] ps del: slots_iff)
  moreover have "disjoint_pods (Pods ?ni)" by (simp add: disjoint_pods_drop dis)
  ultimately have "ni_exclusive ?ni" by (simp add: ni_exclusive_def)
  moreover have "ni_inv ?ni" using deletePod_inv [OF inv, of pod] by (simp add: del)
  moreover have "slots (Allocatable ?ni) = slots (Allocatable ni) \<union> pod_slots p"
    by (simp add: slots_Add ps del: slots_iff)
  ultimately show ?thesis using del by auto
qed

section \<open>Where the pods of a node come from\<close>

lemma deletePod_Pods: "fmlookup (Pods (fst (NodeInfo_deletePod ni p))) u = Some q \<Longrightarrow> fmlookup (Pods ni) u = Some q"
  by (auto simp: NodeInfo_deletePod_def Let_def split: option.splits sum.splits if_splits)

lemma addPod_request_Pods:
  "fmlookup (Pods (fst (addPod_request ni p b))) u = Some q \<Longrightarrow>
   fmlookup (Pods ni) u = Some q \<or> u = pod_UID p \<and> q = p"
  by (auto simp: addPod_request_def Let_def split: sum.splits if_splits)

lemma addPod_Pods:
  assumes "fmlookup (Pods (fst (NodeInfo_addPod ni p))) u = Some q"
  shows "fmlookup (Pods ni) u = Some q \<or> u = pod_UID p \<and> q = p"
proof (cases "bind_board p")
  case None
  then show ?thesis using assms by (simp add: addPod_ignored)
next
  case (Some b)
  show ?thesis
  proof (cases "has_key (Pods ni) (pod_UID p)")
    case False
    then show ?thesis using assms addPod_request_Pods by (simp add: addPod_fresh [OF Some])
  next
    case True
    obtain ni' e where del: "NodeInfo_deletePod ni p = (ni', e)" by fastforce
    then have old: "fmlookup (Pods ni') u = Some q \<Longrightarrow> fmlookup (Pods ni) u = Some q"
      using deletePod_Pods [of ni p] by simp
    show ?thesis
    proof (cases e)
      case None
      then show ?thesis using assms addPod_request_Pods [of ni' p b] del old by (auto simp: addPod_known [OF Some True])
    next
      case e: (Some err)
      then have "fst (NodeInfo_addPod ni p) = ni'"
        using Some True del by (auto simp: NodeInfo_addPod_def bind_board_Some)
      then show ?thesis using assms old by simp
    qed
  qed
qed

lemma add_pods_Pods:
  "fmlookup (Pods (add_pods ni ps)) u = Some q \<Longrightarrow> fmlookup (Pods ni) u = Some q \<or> u = pod_UID q \<and> q \<in> set ps"
proof (induction ps arbitrary: ni)
  case (Cons p ps)
  then show ?case using addPod_Pods [of ni p u q] by fastforce
qed simp

lemma NewNodeInfo_Pods: "fmlookup (Pods (NewNodeInfo node ps)) u = Some q \<Longrightarrow> u = pod_UID q \<and> q \<in> set ps"
  unfolding NewNodeInfo_def by (drule add_pods_Pods) simp

end
