(* ===== verification/SchedCache.thy ===== *)
theory SchedCache
  imports NodeInvariant
begin

text \<open>
  \<open>scheduleCache\<close> of \<open>pkg/scheduler/manager/cache.go\<close>: the node infos by node name, the pods
  the cache knows by UID, the UIDs assumed by a bind and the UIDs released. Each operation
  runs under the cache's mutex, so it is one atomic function from the state to the new state
  with the error it returns (\<open>None\<close> for \<open>nil\<close>). An operation that fails inside
  \<open>NodeInfo.addPod\<close> has already written to the node info, and the model keeps that write.
\<close>

record scheduleCache =
  nodeCache :: "(string, NodeInfo) fmap"
  assumePods :: "string fset"
  podMaps :: "(uid, Pod) fmap"
  releasedPod :: "uid fset"

definition NewScheduleCache :: scheduleCache where
  "NewScheduleCache = \<lparr>nodeCache = fmempty, assumePods = {||}, podMaps = fmempty, releasedPod = {||}\<rparr>"

abbreviation set_node :: "scheduleCache \<Rightarrow> string \<Rightarrow> NodeInfo \<Rightarrow> scheduleCache" where
  "set_node c name ni \<equiv> c\<lparr>nodeCache := fmupd name ni (nodeCache c)\<rparr>"

definition Cache_AddPod :: "scheduleCache \<Rightarrow> Pod \<Rightarrow> scheduleCache \<times> cache_error option" where
  "Cache_AddPod c pod =
     (if pod_NodeName pod = [] then (c, None)
      else if fmlookup (pod_Annotations pod) AnnotationPodBindToBoard = None then (c, None)
      else if has_key (podMaps c) (pod_UID pod) then (c, None)
      else (case fmlookup (nodeCache c) (pod_NodeName pod) of
              None \<Rightarrow> (c, None)
            | Some ni \<Rightarrow>
                (case NodeInfo_addPod ni pod of
                   (ni', Some err) \<Rightarrow> (set_node c (pod_NodeName pod) ni', Some err)
                 | (ni', None) \<Rightarrow>
                     ((set_node c (pod_NodeName pod) ni')\<lparr>podMaps := fmupd (pod_UID pod) pod (podMaps c)\<rparr>, None))))"

definition Cache_DeletePod :: "scheduleCache \<Rightarrow> Pod \<Rightarrow> scheduleCache \<times> cache_error option" where
  "Cache_DeletePod c pod =
     (if pod_NodeName pod = [] then (c, None)
      else if fmlookup (pod_Annotations pod) AnnotationPodBindToBoard = None then (c, None)
      else (case fmlookup (nodeCache c) (pod_NodeName pod) of
              None \<Rightarrow> (c, None)
            | Some ni \<Rightarrow>
                (case NodeInfo_deletePod ni pod of
                   (ni', Some err) \<Rightarrow> (set_node c (pod_NodeName pod) ni', Some err)
                 | (ni', None) \<Rightarrow>
                     (let c' = set_node c (pod_NodeName pod) ni'
                      in if has_key (podMaps c') (pod_UID pod)
                         then (c'\<lparr>podMaps := fmdrop (pod_UID pod) (podMaps c'),
                                  releasedPod := finsert (pod_UID pod) (releasedPod c')\<rparr>, None)
                         else (c', None)))))"

definition Cache_AddNode :: "scheduleCache \<Rightarrow> Node \<Rightarrow> Pod list \<Rightarrow> scheduleCache \<times> cache_error option" where
  "Cache_AddNode c node pods = (set_node c (node_Name node) (NewNodeInfo node pods), None)"

definition Cache_GetNode :: "scheduleCache \<Rightarrow> string \<Rightarrow> NodeInfo option" where
  "Cache_GetNode c name = fmlookup (nodeCache c) name"

definition Cache_UpdateNode ::
  "scheduleCache \<Rightarrow> Node \<Rightarrow> Node \<Rightarrow> Pod list \<Rightarrow> scheduleCache \<times> cache_error option" where
  "Cache_UpdateNode c oldNode newNode pods =
     (let oldNi = NewNodeInfo oldNode pods; newNi = NewNodeInfo newNode pods
      in if \<not> BoardDetails_Equal (Total oldNi) (Total newNi)
         then let newNi = newNi\<lparr>Requested := Requested oldNi\<rparr>;
                  newNi = newNi\<lparr>Allocatable :=
                    (case DifferenceFromSuperset (Total newNi) (Requested newNi) of
                       Inl err \<Rightarrow> NewBoardDetails
                     | Inr newAllocate \<Rightarrow> newAllocate)\<rparr>
              in (set_node c (node_Name newNode) newNi, None)
         else (c, None))"

definition Cache_DeleteNode :: "scheduleCache \<Rightarrow> Node \<Rightarrow> scheduleCache \<times> cache_error option" where
  "Cache_DeleteNode c node =
     (if \<not> has_key (nodeCache c) (node_Name node) then (c, Some (NodeNotFound (node_Name node)))
      else (c\<lparr>nodeCache := fmdrop (node_Name node) (nodeCache c)\<rparr>, None))"

definition Cache_AssumePod :: "scheduleCache \<Rightarrow> Pod \<Rightarrow> string \<Rightarrow> scheduleCache \<times> cache_error option" where
  "Cache_AssumePod c pod node =
     (case fmlookup (nodeCache c) node of
        None \<Rightarrow> (c, Some (NodeNotFound node))
      | Some ni \<Rightarrow>
          if has_key (podMaps c) (pod_UID pod) then (c, Some (PodInCache (pod_Name pod) (pod_UID pod)))
          else (case NodeInfo_addPod ni pod of
                  (ni', Some err) \<Rightarrow> (set_node c node ni', Some err)
                | (ni', None) \<Rightarrow>
                    ((set_node c node ni')\<lparr>assumePods := finsert (pod_UID pod) (assumePods c),
                                           podMaps := fmupd (pod_UID pod) pod (podMaps c)\<rparr>, None)))"

definition Cache_ForgetPod :: "scheduleCache \<Rightarrow> Pod \<Rightarrow> string \<Rightarrow> scheduleCache \<times> cache_error option" where
  "Cache_ForgetPod c pod node =
     (case fmlookup (nodeCache c) node of
        None \<Rightarrow> (c, Some (NodeNotFound node))
      | Some ni \<Rightarrow>
          if \<not> has_key (podMaps c) (pod_UID pod) then (c, Some (PodNotInCache (pod_Name pod) (pod_UID pod)))
          else (case NodeInfo_deletePod ni pod of (ni', err) \<Rightarrow> (set_node c node ni', err)))"

definition Cache_KnownPod :: "scheduleCache \<Rightarrow> Pod \<Rightarrow> bool" where
  "Cache_KnownPod c pod = has_key (podMaps c) (pod_UID pod)"

section \<open>Frames\<close>

lemma set_node_same: "fmlookup (nodeCache c) n = Some ni \<Longrightarrow> set_node c n ni = c"
proof -
  assume "fmlookup (nodeCache c) n = Some ni"
  then have "fmupd n ni (nodeCache c) = nodeCache c" by (intro fmap_ext) auto
  then show ?thesis by simp
qed

lemma AssumePod_podMaps:
  "has_key (podMaps c) u \<Longrightarrow> has_key (podMaps (fst (Cache_AssumePod c pod node))) u"
  by (auto simp: Cache_AssumePod_def split: option.split prod.split)

lemma ForgetPod_podMaps [simp]: "podMaps (fst (Cache_ForgetPod c pod node)) = podMaps c"
  by (auto simp: Cache_ForgetPod_def split: option.split prod.split)

lemma ForgetPod_assumePods [simp]: "assumePods (fst (Cache_ForgetPod c pod node)) = assumePods c"
  by (auto simp: Cache_ForgetPod_def split: option.split prod.split)

lemma AssumePod_known:
  "has_key (podMaps c) (pod_UID pod) \<Longrightarrow>
   fst (Cache_AssumePod c pod node) = c \<and> snd (Cache_AssumePod c pod node) \<noteq> None"
  by (auto simp: Cache_AssumePod_def split: option.split)

lemma AssumePod_success_known:
  "snd (Cache_AssumePod c pod node) = None \<Longrightarrow> has_key (podMaps (fst (Cache_AssumePod c pod node))) (pod_UID pod)"
  by (auto simp: Cache_AssumePod_def split: option.splits prod.splits if_splits)

lemma AssumePod_nodes:
  "has_key (nodeCache c) n \<Longrightarrow> has_key (nodeCache (fst (Cache_AssumePod c pod node))) n"
  by (auto simp: Cache_AssumePod_def split: option.split prod.split)

lemma ForgetPod_nodes:
  "has_key (nodeCache c) n \<Longrightarrow> has_key (nodeCache (fst (Cache_ForgetPod c pod node))) n"
  by (auto simp: Cache_ForgetPod_def split: option.split prod.split)

end
