(* ===== verification/CacheMachine.thy ===== *)
theory CacheMachine
  imports SchedCache
begin

text \<open>
  The cache as a state machine. A step is one cache operation as the manager and the
  controller issue it, with the environment's discipline as its guard: a pod's resource
  limits and its board annotation do not change while it is on a node, a bind assumes a pod
  on a board the allocator returned for the node's current free orins, and the pods listed
  with a node fit on it. \<open>node_sound\<close> is kept by every step, so in every reachable cache
  no orin is held by two pods and \<open>Allocatable\<close> is what \<open>Total\<close> leaves.
\<close>

definition node_sound :: "NodeInfo \<Rightarrow> bool" where
  "node_sound ni \<longleftrightarrow> ni_inv ni \<and> ni_exclusive ni \<and> fBall (BoardSet (Total ni)) in_int64"

definition cache_sound :: "scheduleCache \<Rightarrow> bool" where
  "cache_sound c \<longleftrightarrow> fmpred (\<lambda>_ ni. node_sound ni) (nodeCache c)"

text \<open>The pods listed with a node, taken in order, each fit beside the ones before.\<close>

fun compatible :: "NodeInfo \<Rightarrow> Pod list \<Rightarrow> bool" where
  "compatible ni [] = True"
| "compatible ni (p # ps) =
     (case bind_board p of
        None \<Rightarrow> compatible ni ps
      | Some b \<Rightarrow> \<not> has_key (Pods ni) (pod_UID p) \<and>
                  fits_board (Allocatable ni) (BuildRequestOrinSet p) b \<and>
                  compatible (fst (NodeInfo_addPod ni p)) ps)"

text \<open>The copy of the pod the node holds, if any, agrees with the one handed in.\<close>

definition same_placement :: "NodeInfo \<Rightarrow> Pod \<Rightarrow> bool" where
  "same_placement ni pod \<longleftrightarrow>
     (case fmlookup (Pods ni) (pod_UID pod) of
        None \<Rightarrow> True
      | Some p \<Rightarrow> bind_board pod = bind_board p \<and> BuildRequestOrinSet pod = BuildRequestOrinSet p)"

lemma node_sound_accounts:
  assumes "node_sound ni"
  shows "slots (Requested ni) = held_slots (Pods ni)" "disjoint_pods (Pods ni)"
    "held_slots (Pods ni) \<subseteq> slots (Total ni)" "slots (Allocatable ni) = slots (Total ni) - held_slots (Pods ni)"
proof -
  have inv: "ni_inv ni" and ex: "ni_exclusive ni" using assms by (auto simp: node_sound_def)
  then have "slots (Requested ni) \<subseteq> slots (Total ni)" by (auto simp: ni_inv_iff covers_slots simp del: slots_iff)
  then show "slots (Requested ni) = held_slots (Pods ni)" "disjoint_pods (Pods ni)"
    "held_slots (Pods ni) \<subseteq> slots (Total ni)" "slots (Allocatable ni) = slots (Total ni) - held_slots (Pods ni)"
    using ni_inv_slots [OF inv] ex by (simp_all add: ni_exclusive_def del: slots_iff)
qed

lemma node_sound_addPod:
  assumes "node_sound ni" "\<not> has_key (Pods ni) (pod_UID pod)" "bind_board pod = Some b"
    "fits_board (Allocatable ni) (BuildRequestOrinSet pod) b"
  shows "node_sound (fst (NodeInfo_addPod ni pod))" and "snd (NodeInfo_addPod ni pod) = None"
  using addPod_exclusive [of ni pod b] assms Total_addPod [of ni pod] by (auto simp: node_sound_def)

lemma node_sound_deletePod:
  assumes "node_sound ni" "same_placement ni pod"
  shows "node_sound (fst (NodeInfo_deletePod ni pod))"
proof (cases "fmlookup (Pods ni) (pod_UID pod)")
  case None
  then have "fst (NodeInfo_deletePod ni pod) = ni"
    by (auto simp: NodeInfo_deletePod_def has_key_def split: option.split)
  with assms show ?thesis by simp
next
  case (Some p)
  then show ?thesis
    using deletePod_exclusive [of ni pod p] assms Total_deletePod [of ni pod]
    by (auto simp: node_sound_def same_placement_def)
qed

lemma deletePod_drops:
  assumes "node_sound ni" "fmlookup (Pods ni) (pod_UID pod) = Some p" "same_placement ni pod"
  obtains ni' b where "NodeInfo_deletePod ni pod = (ni', None)" "node_sound ni'"
    "Pods ni' = fmdrop (pod_UID pod) (Pods ni)" "bind_board pod = Some b"
    "fits_board (Allocatable ni') (BuildRequestOrinSet pod) b"
proof -
  have same: "bind_board pod = bind_board p" "BuildRequestOrinSet pod = BuildRequestOrinSet p"
    using assms(2,3) by (auto simp: same_placement_def)
  obtain ni' where ni': "NodeInfo_deletePod ni pod = (ni', None)" "ni_inv ni'" "ni_exclusive ni'"
    "Pods ni' = fmdrop (pod_UID pod) (Pods ni)" "slots (Allocatable ni') = slots (Allocatable ni) \<union> pod_slots p"
    using deletePod_exclusive [OF _ _ assms(2) same] assms(1) by (auto simp: node_sound_def)
  obtain b where b: "bind_board p = Some b" "b |\<in>| BoardSet (Requested ni)"
    using ni_exclusiveD [OF _ assms(2)] assms(1) by (auto simp: node_sound_def)
  have T: "Total ni' = Total ni" using Total_deletePod [of ni pod] ni'(1) by simp
  have "b |\<in>| BoardSet (Allocatable ni')"
    using b(2) assms(1) ni_inv_boards [OF ni'(2)] T by (auto simp: node_sound_def ni_inv_iff covers_def)
  then have "fits_board (Allocatable ni') (BuildRequestOrinSet pod) b"
    using ni'(5) by (simp add: fits_board_slots pod_slots_bound [OF b(1)] same del: slots_iff)
  moreover have "node_sound ni'" using ni' T assms(1) by (simp add: node_sound_def)
  ultimately show ?thesis using that ni' b(1) same by simp
qed

lemma node_sound_readd:
  assumes "node_sound ni" "fmlookup (Pods ni) (pod_UID pod) = Some p" "same_placement ni pod"
  shows "node_sound (fst (NodeInfo_addPod ni pod))" and "snd (NodeInfo_addPod ni pod) = None"
proof -
  obtain ni' b where ni': "NodeInfo_deletePod ni pod = (ni', None)" "node_sound ni'"
    "Pods ni' = fmdrop (pod_UID pod) (Pods ni)" "bind_board pod = Some b"
    "fits_board (Allocatable ni') (BuildRequestOrinSet pod) b"
    using deletePod_drops [OF assms] .
  have fresh: "\<not> has_key (Pods ni') (pod_UID pod)" by (simp add: ni')
  have key: "has_key (Pods ni) (pod_UID pod)" using assms(2) by (simp add: has_key_def)
  have "NodeInfo_addPod ni pod = addPod_request ni' pod b" by (rule addPod_known [OF ni'(4) key ni'(1)])
  also have "\<dots> = NodeInfo_addPod ni' pod" using addPod_fresh [OF ni'(4) fresh] by simp
  finally show "node_sound (fst (NodeInfo_addPod ni pod))" "snd (NodeInfo_addPod ni pod) = None"
    using node_sound_addPod [OF ni'(2) fresh ni'(4,5)] by simp_all
qed

lemma add_pods_sound: "node_sound ni \<Longrightarrow> compatible ni ps \<Longrightarrow> node_sound (add_pods ni ps)"
proof (induction ps arbitrary: ni)
  case Nil
  then show ?case by simp
next
  case (Cons p ps)
  then show ?case
    by (cases "bind_board p") (auto simp: addPod_ignored node_sound_addPod)
qed

lemma board_of_key_int64: "board_of_key cap k = Some (b, S) \<Longrightarrow> in_int64 b"
  by (auto simp: board_of_key_def BoardIDFromResourceName_def split: if_splits option.splits sum.splits
      dest: ParseInt_range)

lemma NewNodeInfo_nil_sound: "node_sound (NewNodeInfo node [])"
proof -
  have "fBall (BoardSet (node_total node)) in_int64"
    by (auto simp: fBall_alt_def node_total_boards dest: board_of_key_int64)
  then show ?thesis
    using NewNodeInfo_empty ni_exclusive_empty by (simp add: node_sound_def NewNodeInfo_def)
qed

lemma NewNodeInfo_add_pods: "NewNodeInfo node pods = add_pods (NewNodeInfo node []) pods"
  by (simp add: NewNodeInfo_def)

lemma NewNodeInfo_sound: "compatible (NewNodeInfo node []) pods \<Longrightarrow> node_sound (NewNodeInfo node pods)"
  by (subst NewNodeInfo_add_pods) (intro add_pods_sound NewNodeInfo_nil_sound)

text \<open>What compatible pods request does not depend on the node's devices.\<close>

lemma add_pods_requested:
  "node_sound ni \<Longrightarrow> node_sound mi \<Longrightarrow> compatible ni ps \<Longrightarrow> compatible mi ps \<Longrightarrow>
   Requested ni = Requested mi \<Longrightarrow> Requested (add_pods ni ps) = Requested (add_pods mi ps)"
proof (induction ps arbitrary: ni mi)
  case Nil
  then show ?case by simp
next
  case (Cons p ps)
  show ?case
  proof (cases "bind_board p")
    case None
    then show ?thesis
      using Cons.IH [OF Cons.prems(1,2) _ _ Cons.prems(5)] Cons.prems(3,4) by (simp add: addPod_ignored)
  next
    case (Some b)
    have fresh: "\<not> has_key (Pods ni) (pod_UID p)" "\<not> has_key (Pods mi) (pod_UID p)"
      "fits_board (Allocatable ni) (BuildRequestOrinSet p) b" "fits_board (Allocatable mi) (BuildRequestOrinSet p) b"
      "compatible (fst (NodeInfo_addPod ni p)) ps" "compatible (fst (NodeInfo_addPod mi p)) ps"
      using Cons.prems(3,4) Some by simp_all
    have "Requested (fst (NodeInfo_addPod ni p)) = Requested (fst (NodeInfo_addPod mi p))"
      unfolding addPod_fresh [OF Some fresh(1)] addPod_fresh [OF Some fresh(2)] addPod_request_eq
      by (simp add: requested_after_def Cons.prems(5))
    then have "Requested (add_pods (fst (NodeInfo_addPod ni p)) ps) = Requested (add_pods (fst (NodeInfo_addPod mi p)) ps)"
      by (intro Cons.IH fresh node_sound_addPod(1) [OF Cons.prems(1) fresh(1) Some fresh(3)]
          node_sound_addPod(1) [OF Cons.prems(2) fresh(2) Some fresh(4)])
    then show ?thesis by simp
  qed
qed

lemma Total_add_pods [simp]: "Total (add_pods ni ps) = Total ni"
  by (induction ps arbitrary: ni) simp_all

lemma Total_NewNodeInfo [simp]: "Total (NewNodeInfo node pods) = node_total node"
  by (simp add: NewNodeInfo_def)

lemma Requested_NewNodeInfo_nil [simp]: "Requested (NewNodeInfo node []) = fmempty"
  by (simp add: NewNodeInfo_def)

lemma UpdateNode_result:
  assumes "compatible (NewNodeInfo old []) pods" "compatible (NewNodeInfo new []) pods"
  shows "Cache_UpdateNode c old new pods =
     (if BoardDetails_Equal (node_total old) (node_total new) then (c, None)
      else (set_node c (node_Name new) (NewNodeInfo new pods), None))"
proof -
  let ?n = "NewNodeInfo new pods"
  have req: "Requested (NewNodeInfo old pods) = Requested ?n"
    unfolding NewNodeInfo_add_pods [of old pods] NewNodeInfo_add_pods [of new pods]
    by (rule add_pods_requested [OF NewNodeInfo_nil_sound NewNodeInfo_nil_sound assms]) simp
  have "DifferenceFromSuperset (Total ?n) (Requested ?n) = Inr (Allocatable ?n)"
    using NewNodeInfo_sound [OF assms(2)] by (simp add: node_sound_def ni_inv_def)
  then show ?thesis by (simp add: Cache_UpdateNode_def Let_def req)
qed

section \<open>Steps and reachable caches\<close>

inductive cache_step :: "scheduleCache \<Rightarrow> scheduleCache \<Rightarrow> bool" where
  node_added: "compatible (NewNodeInfo node []) pods \<Longrightarrow>
     cache_step c (fst (Cache_AddNode c node pods))"
| node_updated: "compatible (NewNodeInfo old []) pods \<Longrightarrow> compatible (NewNodeInfo new []) pods \<Longrightarrow>
     cache_step c (fst (Cache_UpdateNode c old new pods))"
| node_deleted: "cache_step c (fst (Cache_DeleteNode c node))"
| pod_assumed: "fmlookup (nodeCache c) node = Some ni \<Longrightarrow> \<not> has_key (Pods ni) (pod_UID pod) \<Longrightarrow>
     range_order rng \<Longrightarrow>
     boardID (BinpackAllocate rng (Allocatable ni) (BuildRequestOrinSet pod)) = b \<Longrightarrow> b \<noteq> BoardIDNotFount \<Longrightarrow>
     cache_step c (fst (Cache_AssumePod c (AddPodBindAnnotation pod b) node))"
| pod_forgotten: "(\<And>ni. fmlookup (nodeCache c) node = Some ni \<Longrightarrow> same_placement ni pod) \<Longrightarrow>
     cache_step c (fst (Cache_ForgetPod c pod node))"
| pod_informed: "(\<And>ni. fmlookup (nodeCache c) (pod_NodeName pod) = Some ni \<Longrightarrow>
        (if has_key (Pods ni) (pod_UID pod) then same_placement ni pod else compatible ni [pod])) \<Longrightarrow>
     cache_step c (fst (Cache_AddPod c pod))"
| pod_released: "(\<And>ni. fmlookup (nodeCache c) (pod_NodeName pod) = Some ni \<Longrightarrow> same_placement ni pod) \<Longrightarrow>
     cache_step c (fst (Cache_DeletePod c pod))"

inductive_cases cache_stepE: "cache_step c d"

inductive cache_reachable :: "scheduleCache \<Rightarrow> bool" where
  start: "cache_reachable NewScheduleCache"
| step: "cache_reachable c \<Longrightarrow> cache_step c d \<Longrightarrow> cache_reachable d"

lemma cache_sound_start: "cache_sound NewScheduleCache"
  by (simp add: cache_sound_def NewScheduleCache_def)

lemma cache_soundD: "cache_sound c \<Longrightarrow> fmlookup (nodeCache c) n = Some ni \<Longrightarrow> node_sound ni"
  by (auto simp: cache_sound_def)

lemma cache_sound_set_node [inv_intros]:
  "cache_sound c \<Longrightarrow> node_sound ni \<Longrightarrow> nodeCache d = fmupd n ni (nodeCache c) \<Longrightarrow> cache_sound d"
  by (auto simp: cache_sound_def)

lemma cache_sound_same: "cache_sound c \<Longrightarrow> nodeCache d = nodeCache c \<Longrightarrow> cache_sound d"
  by (simp add: cache_sound_def)

lemma AssumePod_sound:
  assumes "cache_sound c"
    and "\<And>ni. fmlookup (nodeCache c) node = Some ni \<Longrightarrow> node_sound (fst (NodeInfo_addPod ni pod))"
  shows "cache_sound (fst (Cache_AssumePod c pod node))"
  using assms by (auto simp: Cache_AssumePod_def cache_sound_def split: option.split prod.split)

lemma AddPod_sound:
  assumes "cache_sound c"
    and "\<And>ni. fmlookup (nodeCache c) (pod_NodeName pod) = Some ni \<Longrightarrow> node_sound (fst (NodeInfo_addPod ni pod))"
  shows "cache_sound (fst (Cache_AddPod c pod))"
  using assms by (auto simp: Cache_AddPod_def cache_sound_def split: option.split prod.split)

lemma ForgetPod_sound:
  assumes "cache_sound c"
    and "\<And>ni. fmlookup (nodeCache c) node = Some ni \<Longrightarrow> node_sound (fst (NodeInfo_deletePod ni pod))"
  shows "cache_sound (fst (Cache_ForgetPod c pod node))"
  using assms by (auto simp: Cache_ForgetPod_def cache_sound_def split: option.split prod.split)

lemma DeletePod_sound:
  assumes "cache_sound c"
    and "\<And>ni. fmlookup (nodeCache c) (pod_NodeName pod) = Some ni \<Longrightarrow> node_sound (fst (NodeInfo_deletePod ni pod))"
  shows "cache_sound (fst (Cache_DeletePod c pod))"
  using assms by (auto simp: Cache_DeletePod_def cache_sound_def Let_def split: option.split prod.split)

lemma cache_step_sound: "cache_step c d \<Longrightarrow> cache_sound c \<Longrightarrow> cache_sound d"
proof (induction rule: cache_step.induct)
  case (node_added node pods c)
  then show ?case by (auto simp: Cache_AddNode_def cache_sound_def intro!: NewNodeInfo_sound)
next
  case (node_updated old pods new c)
  then show ?case by (auto simp: UpdateNode_result cache_sound_def intro!: NewNodeInfo_sound)
next
  case (node_deleted c node)
  then show ?case by (auto simp: Cache_DeleteNode_def cache_sound_def)
next
  case (pod_assumed c node ni pod rng b)
  have sound: "node_sound ni" using pod_assumed cache_soundD by blast
  have fits: "fits_board (Allocatable ni) (BuildRequestOrinSet pod) b"
    using binpack.found_fits [OF pod_assumed.hyps(3), of "Allocatable ni" "BuildRequestOrinSet pod"] pod_assumed.hyps(4,5) by simp
  then have "in_int64 b"
    using sound ni_inv_boards [of ni] by (auto simp: node_sound_def fits_board_def fBall_alt_def)
  then have "node_sound (fst (NodeInfo_addPod ni (AddPodBindAnnotation pod b)))"
    using sound pod_assumed.hyps(2) fits by (intro node_sound_addPod) simp_all
  with pod_assumed show ?case by (intro AssumePod_sound) auto
next
  case (pod_forgotten c node pod)
  then show ?case by (intro ForgetPod_sound node_sound_deletePod) (auto dest: cache_soundD)
next
  case (pod_informed c pod)
  show ?case
  proof (rule AddPod_sound [OF pod_informed.prems])
    fix ni assume ni: "fmlookup (nodeCache c) (pod_NodeName pod) = Some ni"
    with pod_informed.prems have sound: "node_sound ni" by (rule cache_soundD)
    show "node_sound (fst (NodeInfo_addPod ni pod))"
    proof (cases "has_key (Pods ni) (pod_UID pod)")
      case True
      then obtain p where "fmlookup (Pods ni) (pod_UID pod) = Some p" by (auto simp: has_key_def)
      with True sound pod_informed.hyps [OF ni] show ?thesis by (auto intro: node_sound_readd)
    next
      case False
      with sound pod_informed.hyps [OF ni] show ?thesis
        by (auto simp: addPod_ignored node_sound_addPod split: option.splits)
    qed
  qed
next
  case (pod_released c pod)
  then show ?case by (intro DeletePod_sound node_sound_deletePod) (auto dest: cache_soundD)
qed

lemma cache_reachable_sound: "cache_reachable c \<Longrightarrow> cache_sound c"
  by (induction rule: cache_reachable.induct) (auto intro: cache_sound_start cache_step_sound)

end

