(* ===== verification/WorkerPool.thy ===== *)
theory WorkerPool
  imports Prelude "HOL-Library.Multiset"
begin

text \<open>
  \<open>Parallelize\<close> of \<open>pkg/scheduler/manager/util.go\<close>: a closed channel holding the indices
  \<open>0, \<dots>, pieces - 1\<close>, a number of goroutines that take indices from it until it is empty,
  and a wait group. A step is one goroutine taking an index, finishing the piece it took,
  or leaving its loop when the channel is drained. \<open>processed\<close> records the order in which
  pieces are finished.

  The lemmas show that the call returns only when every index was processed exactly once,
  that it can always make a step until then, and that every run is finite.
\<close>

datatype worker = Ranging | Working nat | Exited

record pool =
  toProcess :: "nat list"
  goroutines :: "worker list"
  processed :: "nat list"

definition Parallelize_start :: "nat \<Rightarrow> nat \<Rightarrow> pool" where
  "Parallelize_start workers pieces =
     \<lparr>toProcess = [0..<pieces],
      goroutines = replicate (if pieces < workers then pieces else workers) Ranging,
      processed = []\<rparr>"

inductive par_step :: "pool \<Rightarrow> pool \<Rightarrow> bool" where
  receive: "w < length (goroutines s) \<Longrightarrow> goroutines s ! w = Ranging \<Longrightarrow> toProcess s = i # q \<Longrightarrow>
     par_step s (s\<lparr>toProcess := q, goroutines := (goroutines s)[w := Working i]\<rparr>)"
| finish: "w < length (goroutines s) \<Longrightarrow> goroutines s ! w = Working i \<Longrightarrow>
     par_step s (s\<lparr>goroutines := (goroutines s)[w := Ranging], processed := processed s @ [i]\<rparr>)"
| leave: "w < length (goroutines s) \<Longrightarrow> goroutines s ! w = Ranging \<Longrightarrow> toProcess s = [] \<Longrightarrow>
     par_step s (s\<lparr>goroutines := (goroutines s)[w := Exited]\<rparr>)"

text \<open>\<open>wg.Wait()\<close> returns when every goroutine called \<open>Done\<close>.\<close>

definition wait_returns :: "pool \<Rightarrow> bool" where
  "wait_returns s \<longleftrightarrow> list_all (\<lambda>w. w = Exited) (goroutines s)"

inductive_cases par_stepE: "par_step s t"

fun held :: "worker \<Rightarrow> nat multiset" where
  "held (Working i) = {#i#}"
| "held _ = {#}"

definition in_flight :: "pool \<Rightarrow> nat multiset" where
  "in_flight s = sum_list (map held (goroutines s))"

definition pool_inv :: "nat \<Rightarrow> nat \<Rightarrow> pool \<Rightarrow> bool" where
  "pool_inv workers pieces s \<longleftrightarrow>
     mset (toProcess s) + in_flight s + mset (processed s) = mset [0..<pieces] \<and>
     length (goroutines s) = (if pieces < workers then pieces else workers) \<and>
     (Exited \<in> set (goroutines s) \<longrightarrow> toProcess s = [])"

lemma sum_list_held_update:
  "w < length ws \<Longrightarrow> sum_list (map held (ws[w := x])) + held (ws ! w) = sum_list (map held ws) + held x"
proof (induction ws arbitrary: w)
  case Nil
  then show ?case by simp
next
  case (Cons a ws)
  then show ?case by (cases w) (auto simp: ac_simps)
qed

lemma sum_list_replicate_empty [simp]: "sum_list (replicate n ({#} :: nat multiset)) = {#}"
  by (induction n) auto

lemma Exited_update: "Exited \<in> set (ws[w := x]) \<Longrightarrow> x \<noteq> Exited \<Longrightarrow> Exited \<in> set ws"
  using set_update_subset_insert [of ws w x] by auto

lemma pool_inv_start: "pool_inv workers pieces (Parallelize_start workers pieces)"
  by (simp add: pool_inv_def Parallelize_start_def in_flight_def)

lemma pool_inv_step: "par_step s t \<Longrightarrow> pool_inv workers pieces s \<Longrightarrow> pool_inv workers pieces t"
proof (induction rule: par_step.induct)
  case (receive w s i q)
  have "in_flight (s\<lparr>toProcess := q, goroutines := (goroutines s)[w := Working i]\<rparr>) = in_flight s + {#i#}"
    using sum_list_held_update [of w "goroutines s" "Working i"] receive.hyps by (simp add: in_flight_def)
  with receive show ?case by (auto simp: pool_inv_def dest: Exited_update)
next
  case (finish w s i)
  have "in_flight (s\<lparr>goroutines := (goroutines s)[w := Ranging], processed := processed s @ [i]\<rparr>) + {#i#} = in_flight s"
    using sum_list_held_update [of w "goroutines s" Ranging] finish.hyps by (simp add: in_flight_def)
  then have "mset (toProcess s) + in_flight s + mset (processed s) =
      mset (toProcess s) + (in_flight (s\<lparr>goroutines := (goroutines s)[w := Ranging], processed := processed s @ [i]\<rparr>)
        + mset (processed s @ [i]))"
    by (simp add: ac_simps)
  then show ?case using finish.prems by (auto simp: pool_inv_def add.assoc dest: Exited_update)
next
  case (leave w s)
  have "in_flight (s\<lparr>goroutines := (goroutines s)[w := Exited]\<rparr>) = in_flight s"
    using sum_list_held_update [of w "goroutines s" Exited] leave.hyps by (simp add: in_flight_def)
  with leave show ?case by (auto simp: pool_inv_def)
qed

lemma pool_inv_steps: "par_step\<^sup>*\<^sup>* s t \<Longrightarrow> pool_inv workers pieces s \<Longrightarrow> pool_inv workers pieces t"
  by (induction rule: rtranclp_induct) (auto intro: pool_inv_step)

lemma in_flight_exited: "wait_returns s \<Longrightarrow> in_flight s = {#}"
proof -
  have "list_all (\<lambda>w. w = Exited) ws \<Longrightarrow> sum_list (map held ws) = {#}" for ws
    by (induction ws) auto
  then show "wait_returns s \<Longrightarrow> in_flight s = {#}"
    by (simp add: in_flight_def wait_returns_def)
qed

section \<open>Progress and termination\<close>

fun worker_cost :: "worker \<Rightarrow> nat" where
  "worker_cost Exited = 0"
| "worker_cost Ranging = 1"
| "worker_cost (Working _) = 2"

definition pool_cost :: "pool \<Rightarrow> nat" where
  "pool_cost s = 2 * length (toProcess s) + sum_list (map worker_cost (goroutines s))"

lemma sum_list_cost_update:
  "w < length ws \<Longrightarrow>
   sum_list (map worker_cost (ws[w := x])) + worker_cost (ws ! w) = sum_list (map worker_cost ws) + worker_cost x"
proof (induction ws arbitrary: w)
  case Nil
  then show ?case by simp
next
  case (Cons a ws)
  then show ?case by (cases w) auto
qed

lemma par_step_cost: "par_step s t \<Longrightarrow> pool_cost t < pool_cost s"
proof (induction rule: par_step.induct)
  case (receive w s i q)
  then show ?case using sum_list_cost_update [of w "goroutines s" "Working i"] by (simp add: pool_cost_def)
next
  case (finish w s i)
  then show ?case using sum_list_cost_update [of w "goroutines s" Ranging] by (simp add: pool_cost_def)
next
  case (leave w s)
  then show ?case using sum_list_cost_update [of w "goroutines s" Exited] by (simp add: pool_cost_def)
qed

lemma par_step_progress: "\<not> wait_returns s \<Longrightarrow> \<exists>t. par_step s t"
proof -
  assume "\<not> wait_returns s"
  then obtain w where w: "w < length (goroutines s)" "goroutines s ! w \<noteq> Exited"
    by (auto simp: wait_returns_def list_all_length)
  show ?thesis
  proof (cases "goroutines s ! w")
    case Ranging
    then show ?thesis using w by (cases "toProcess s") (auto intro: par_step.receive par_step.leave)
  qed (use w in \<open>auto intro: par_step.finish\<close>)
qed

lemma par_run_returns: "\<exists>t. par_step\<^sup>*\<^sup>* s t \<and> wait_returns t"
proof (induction s rule: measure_induct_rule [of pool_cost])
  case (less s)
  show ?case
  proof (cases "wait_returns s")
    case False
    then obtain u where "par_step s u" using par_step_progress by blast
    with less [OF par_step_cost] show ?thesis by (meson converse_rtranclp_into_rtranclp)
  qed auto
qed

end
