(* ===== verification/Manager.thy ===== *)
theory Manager
  imports CacheMachine WorkerPool
begin

text \<open>
  \<open>pkg/scheduler/manager/manager.go\<close>: the extender's filter (\<open>Predicate\<close>), scoring
  (\<open>Priority\<close>) and \<open>Bind\<close>.

  \<^item> The typed client is an argument \<open>cs\<close> over a world \<open>'w\<close>. \<open>retry.Do\<close> of the package
    retry-go is an argument too, and \<open>retry_contract\<close> is what its documentation says of it.
  \<^item> \<open>Predicate\<close> and \<open>Priority\<close> hand their pieces to the worker pool. The pieces share an
    atomic counter, a slice and a locked map, so what a run computes is determined by the
    order \<open>ord\<close> in which the pieces reach them: an argument, any permutation of the indices.
  \<^item> A missing allocator is a nil interface, whose call panics; the outcome is \<open>Panic\<close>.
  \<^item> \<open>Bind\<close> here runs alone: the node info it reads before its retries is the one in the
    cache. BindRace treats two binds that overlap.
\<close>

datatype manager_error =
    ApiError string
  | UIDMismatch string string uid uid
  | NoBindNode string
  | NoBoard string
  | CacheError cache_error

definition policy_of :: "Pod \<Rightarrow> string" where
  "policy_of pod =
     (case fmlookup (pod_Annotations pod) AnnotationPodBindOrinPolicy of
        None \<Rightarrow> AllocatorPolicyBinPack
      | Some allocatorPolicy \<Rightarrow> allocatorPolicy)"

section \<open>GetPodFromApiserver\<close>

definition GetPodFromApiserver ::
  "'w clientset \<Rightarrow> 'w \<Rightarrow> string \<Rightarrow> string \<Rightarrow> uid \<Rightarrow> 'w \<times> (manager_error + Pod)" where
  "GetPodFromApiserver cs w name namespace podUID =
     (case cs_GetPod cs w namespace name of
        (w1, Inl err) \<Rightarrow> (w1, Inl (ApiError err))
      | (w1, Inr pod) \<Rightarrow>
          if pod_UID pod \<noteq> podUID
          then (case cs_GetPod cs w1 namespace name of
                  (w2, Inl err) \<Rightarrow> (w2, Inl (ApiError err))
                | (w2, Inr pod') \<Rightarrow>
                    if pod_UID pod' \<noteq> podUID
                    then (w2, Inl (UIDMismatch name namespace (pod_UID pod') podUID))
                    else (w2, Inr pod'))
          else (w1, Inr pod))"

section \<open>Predicate\<close>

record filter_state =
  filterdNodes :: "string list"
  filteredLen :: nat
  failNodes :: "(string, string) fmap"

definition check_node ::
  "(BoardDetails \<Rightarrow> int list) \<Rightarrow> scheduleCache \<Rightarrow> AllocatorImpl option \<Rightarrow> int fset \<Rightarrow> string list \<Rightarrow>
   nat \<Rightarrow> filter_state \<Rightarrow> filter_state outcome" where
  "check_node rng c allocator orinRequest nodes i st =
     (let nodeName = nodes ! i
      in case Cache_GetNode c nodeName of
           None \<Rightarrow> Ret (st\<lparr>failNodes := fmupd nodeName (nodeName @ '' not found in node cache'') (failNodes st)\<rparr>)
         | Some ni \<Rightarrow>
             (case Allocate rng allocator (Allocatable ni) orinRequest of
                Panic \<Rightarrow> Panic
              | Ret res \<Rightarrow>
                  if boardID res \<noteq> BoardIDNotFount
                  then Ret (st\<lparr>filterdNodes := (filterdNodes st)[filteredLen st := nodeName],
                               filteredLen := filteredLen st + 1\<rparr>)
                  else Ret (st\<lparr>failNodes := fmupd nodeName (nodeName @ '' has not enough resource'') (failNodes st)\<rparr>)))"

fun check_nodes ::
  "(nat \<Rightarrow> 's \<Rightarrow> 's outcome) \<Rightarrow> nat list \<Rightarrow> 's \<Rightarrow> 's outcome" where
  "check_nodes work [] st = Ret st"
| "check_nodes work (i # is) st = (case work i st of Panic \<Rightarrow> Panic | Ret st' \<Rightarrow> check_nodes work is st')"

definition Predicate ::
  "(BoardDetails \<Rightarrow> int list) \<Rightarrow> nat list \<Rightarrow> scheduleCache \<Rightarrow> string list \<Rightarrow> Pod \<Rightarrow>
   (string list \<times> (string, string) fmap) outcome" where
  "Predicate rng ord c nodes pod =
     (let allocator = fmlookup AllocatorMap (policy_of pod);
          orinRequest = BuildRequestOrinSet pod
      in case check_nodes (check_node rng c allocator orinRequest nodes) ord
                \<lparr>filterdNodes = replicate (length nodes) [], filteredLen = 0, failNodes = fmempty\<rparr> of
           Panic \<Rightarrow> Panic
         | Ret st \<Rightarrow> Ret (filterdNodes st, failNodes st))"

section \<open>Priority\<close>

definition score_node ::
  "(BoardDetails \<Rightarrow> int list) \<Rightarrow> scheduleCache \<Rightarrow> AllocatorImpl option \<Rightarrow> int fset \<Rightarrow> string list \<Rightarrow>
   nat \<Rightarrow> int list \<Rightarrow> int list outcome" where
  "score_node rng c allocator orinRequest nodes i scores =
     (case Cache_GetNode c (nodes ! i) of
        None \<Rightarrow> Ret (scores[i := 0])
      | Some ni \<Rightarrow>
          (case Allocate rng allocator (Allocatable ni) orinRequest of
             Panic \<Rightarrow> Panic
           | Ret res \<Rightarrow>
               if boardID res \<noteq> BoardIDNotFount then Ret (scores[i := score res])
               else Ret (scores[i := 0])))"

definition Priority ::
  "(BoardDetails \<Rightarrow> int list) \<Rightarrow> nat list \<Rightarrow> scheduleCache \<Rightarrow> string list \<Rightarrow> Pod \<Rightarrow> int list outcome" where
  "Priority rng ord c nodes pod =
     (let allocator = fmlookup AllocatorMap (policy_of pod);
          orinRequest = BuildRequestOrinSet pod
      in case check_nodes (score_node rng c allocator orinRequest nodes) ord (replicate (length nodes) 0) of
           Panic \<Rightarrow> Panic
         | Ret scores \<Rightarrow> Ret (Normalize 10 scores))"

section \<open>Bind\<close>

type_synonym 'w bind_state = "scheduleCache \<times> 'w \<times> Pod option"

definition bindPod ::
  "'w clientset \<Rightarrow> (BoardDetails \<Rightarrow> int list) \<Rightarrow> string \<Rightarrow> string \<Rightarrow> string \<Rightarrow> uid \<Rightarrow>
   'w bind_state \<Rightarrow> ('w bind_state \<times> manager_error option) outcome" where
  "bindPod cs rng node podName podNamespace podUID s =
     (case s of (c, w, newPod) \<Rightarrow>
        (case GetPodFromApiserver cs w podName podNamespace podUID of
           (w1, Inl err) \<Rightarrow> Ret ((c, w1, newPod), Some err)
         | (w1, Inr pod) \<Rightarrow>
             (case Cache_GetNode c node of
                None \<Rightarrow> Ret ((c, w1, newPod), Some (NoBindNode node))
              | Some ni \<Rightarrow>
                  (case Allocate rng (fmlookup AllocatorMap (policy_of pod)) (Allocatable ni) (BuildRequestOrinSet pod) of
                     Panic \<Rightarrow> Panic
                   | Ret res \<Rightarrow>
                       if boardID res = BoardIDNotFount
                       then Ret ((c, w1, newPod), Some (NoBoard node))
                       else (let np = AddPodBindAnnotation pod (boardID res)
                             in case Cache_AssumePod c np node of
                                  (c1, Some err) \<Rightarrow> Ret ((c1, w1, Some np), Some (CacheError err))
                                | (c1, None) \<Rightarrow>
                                    (case cs_UpdatePod cs w1 (pod_Namespace np) np of
                                       (w2, None) \<Rightarrow> Ret ((c1, w2, Some np), None)
                                     | (w2, Some err) \<Rightarrow>
                                         Ret ((fst (Cache_ForgetPod c1 pod node), w2, Some np), Some (ApiError err))))))))"

text \<open>\<open>retry.Do(f, Attempts(n))\<close>: the state after the attempts and whether one succeeded.\<close>

fun attempts :: "nat \<Rightarrow> ('s \<Rightarrow> ('s \<times> 'e option) outcome) \<Rightarrow> 's \<Rightarrow> ('s \<times> bool) outcome" where
  "attempts 0 f s = Ret (s, False)"
| "attempts (Suc n) f s =
     (case f s of
        Panic \<Rightarrow> Panic
      | Ret (s', None) \<Rightarrow> Ret (s', True)
      | Ret (s', Some e) \<Rightarrow> attempts n f s')"

type_synonym ('s, 'e) retry = "nat \<Rightarrow> ('s \<Rightarrow> ('s \<times> 'e option) outcome) \<Rightarrow> 's \<Rightarrow> ('s \<times> 'e option) outcome"

definition retry_contract :: "('s, 'e) retry \<Rightarrow> bool" where
  "retry_contract retryDo \<longleftrightarrow>
     (\<forall>n f s. case attempts n f s of
                Panic \<Rightarrow> retryDo n f s = Panic
              | Ret (s', ok) \<Rightarrow> (\<exists>e. retryDo n f s = Ret (s', e) \<and> (e = None \<longleftrightarrow> ok)))"

definition Bind ::
  "'w clientset \<Rightarrow> ('w bind_state, manager_error) retry \<Rightarrow> (BoardDetails \<Rightarrow> int list) \<Rightarrow>
   scheduleCache \<Rightarrow> 'w \<Rightarrow> string \<Rightarrow> string \<Rightarrow> string \<Rightarrow> uid \<Rightarrow>
   ((scheduleCache \<times> 'w) \<times> manager_error option) outcome" where
  "Bind cs retryDo rng c w node podName podNamespace podUID =
     (case Cache_GetNode c node of
        None \<Rightarrow> Ret ((c, w), Some (NoBindNode node))
      | Some ni \<Rightarrow>
          (case retryDo 3 (bindPod cs rng node podName podNamespace podUID) (c, w, None) of
             Panic \<Rightarrow> Panic
           | Ret ((c1, w1, newPod), Some err) \<Rightarrow> Ret ((c1, w1), Some err)
           | Ret ((c1, w1, newPod), None) \<Rightarrow>
               (case cs_BindPod cs w1 podNamespace podName podUID node of
                  (w2, None) \<Rightarrow> Ret ((c1, w2), None)
                | (w2, Some err) \<Rightarrow>
                    (case newPod of
                       None \<Rightarrow> Panic
                     | Some np \<Rightarrow>
                         (let c2 = fst (Cache_ForgetPod c1 np node);
                              recoverPod = RemovePodBindAnnotation np
                          in case cs_UpdatePod cs w2 (pod_Namespace np) recoverPod of
                               (w3, Some err') \<Rightarrow> Ret ((c2, w3), Some (ApiError err'))
                             | (w3, None) \<Rightarrow> Ret ((c2, w3), Some (ApiError err)))))))"

end
