(* ===== verification/BindFacts.thy ===== *)
theory BindFacts
  imports ManagerFacts
begin

text \<open>
  Lemmas on \<open>Bind\<close>. \<open>pod_cache\<close> is the contract \<open>Bind\<close> has with the cache about which pods
  are known; the schedule cache is its interpretation. \<open>claims\<close> is the abstract effect of a
  bind that returns \<open>nil\<close>: one board of the node that has the requested orins free loses
  exactly them, to one pod, and no other node changes.
\<close>

section \<open>Known pods\<close>

datatype 'node pod_call = Assume Pod 'node | Forget Pod 'node

locale pod_cache =
  fixes assume_pod :: "'c \<Rightarrow> Pod \<Rightarrow> 'node \<Rightarrow> 'c \<times> 'e option"
    and forget_pod :: "'c \<Rightarrow> Pod \<Rightarrow> 'node \<Rightarrow> 'c \<times> 'e option"
    and known :: "'c \<Rightarrow> uid \<Rightarrow> bool"
  assumes assume_known: "known c (pod_UID pod) \<Longrightarrow> fst (assume_pod c pod n) = c \<and> snd (assume_pod c pod n) \<noteq> None"
    and assume_new: "snd (assume_pod c pod n) = None \<Longrightarrow> known (fst (assume_pod c pod n)) (pod_UID pod)"
    and assume_keeps: "known c u \<Longrightarrow> known (fst (assume_pod c pod n)) u"
    and forget_keeps: "known c u \<Longrightarrow> known (fst (forget_pod c pod n)) u"
begin

fun run_call :: "'c \<Rightarrow> 'node pod_call \<Rightarrow> 'c" where
  "run_call c (Assume pod n) = fst (assume_pod c pod n)"
| "run_call c (Forget pod n) = fst (forget_pod c pod n)"

lemma known_stays: "known c u \<Longrightarrow> known (fold (\<lambda>k c. run_call c k) ks c) u"
proof (induction ks arbitrary: c)
  case (Cons k ks)
  then show ?case by (cases k) (simp_all add: assume_keeps forget_keeps)
qed simp

lemma assumed_once:
  "snd (assume_pod c pod n) = None \<Longrightarrow> pod_UID pod' = pod_UID pod \<Longrightarrow>
   snd (assume_pod (fold (\<lambda>k c. run_call c k) ks (fst (assume_pod c pod n))) pod' n') \<noteq> None"
  using assume_new known_stays assume_known by metis

end

interpretation sc: pod_cache Cache_AssumePod Cache_ForgetPod "\<lambda>c u. has_key (podMaps c) u"
  by unfold_locales (simp_all add: AssumePod_known AssumePod_success_known AssumePod_podMaps)

section \<open>GetPodFromApiserver\<close>

lemma GetPod_UID: "GetPodFromApiserver cs w name ns u = (w', Inr pod) \<Longrightarrow> pod_UID pod = u"
  by (auto simp: GetPodFromApiserver_def split: prod.splits sum.splits if_splits)

section \<open>Attempts\<close>

lemma attempts_rule:
  assumes "\<And>s s' e. I s \<Longrightarrow> f s = Ret (s', Some e) \<Longrightarrow> I s'"
    and "\<And>s s'. I s \<Longrightarrow> f s = Ret (s', None) \<Longrightarrow> Q s'"
  shows "I s \<Longrightarrow> attempts n f s = Ret (s', ok) \<Longrightarrow> if ok then Q s' else I s'"
proof (induction n arbitrary: s)
  case (Suc n)
  show ?case
  proof (cases "f s")
    case (Ret r)
    obtain t e where r: "r = (t, e)" by fastforce
    show ?thesis
    proof (cases e)
      case None
      then show ?thesis using Suc.prems Ret r assms(2) [of s t] by auto
    next
      case (Some err)
      then show ?thesis using Suc.prems Suc.IH [of t] Ret r assms(1) [of s t err] by auto
    qed
  qed (use Suc.prems in simp)
qed auto

lemma attempts_no_panic:
  assumes "\<And>s s' e. I s \<Longrightarrow> f s = Ret (s', Some e) \<Longrightarrow> I s'" and "\<And>s. I s \<Longrightarrow> f s \<noteq> Panic"
  shows "I s \<Longrightarrow> attempts n f s \<noteq> Panic"
proof (induction n arbitrary: s)
  case (Suc n)
  with assms(2) [OF Suc.prems] show ?case
    by (auto split: outcome.split option.split dest: assms(1))
qed simp

lemma retry_Ret:
  "retry_contract R \<Longrightarrow> R n f s = Ret (s', e) \<Longrightarrow> attempts n f s = Ret (s', e = None)"
  unfolding retry_contract_def
  by (drule spec [of _ n], drule spec [of _ f], drule spec [of _ s]) (auto split: outcome.splits)

lemma retry_Panic: "retry_contract R \<Longrightarrow> R n f s = Panic \<Longrightarrow> attempts n f s = Panic"
  unfolding retry_contract_def
  by (drule spec [of _ n], drule spec [of _ f], drule spec [of _ s]) (auto split: outcome.splits)

lemma retry_of_attempts:
  "retry_contract R \<Longrightarrow> attempts n f s = Ret (s', ok) \<Longrightarrow> \<exists>e. R n f s = Ret (s', e) \<and> (e = None \<longleftrightarrow> ok)"
  unfolding retry_contract_def
  by (drule spec [of _ n], drule spec [of _ f], drule spec [of _ s]) auto

section \<open>One attempt\<close>

text \<open>What one attempt does to the cache: nothing, or an \<open>AssumePod\<close> whose pod then stays.\<close>

lemma bindPod_cases:
  assumes "bindPod cs rng node name ns u (c, w, np) = Ret ((c', w', np'), e)"
  obtains (unchanged) err where "e = Some err" "c' = c"
  | (refused) err ni pod b c1 where "e = Some err" "Cache_GetNode c node = Some ni" "pod_UID pod = u"
      "boardID (BinpackAllocate rng (Allocatable ni) (BuildRequestOrinSet pod)) = b" "b \<noteq> BoardIDNotFount"
      "Cache_AssumePod c (AddPodBindAnnotation pod b) node = (c', Some c1)"
  | (assumed) ni pod b where "e = None" "Cache_GetNode c node = Some ni" "pod_UID pod = u"
      "boardID (BinpackAllocate rng (Allocatable ni) (BuildRequestOrinSet pod)) = b" "b \<noteq> BoardIDNotFount"
      "np' = Some (AddPodBindAnnotation pod b)"
      "Cache_AssumePod c (AddPodBindAnnotation pod b) node = (c', None)"
  | (undone) err ni pod b c1 where "e = Some err" "Cache_GetNode c node = Some ni" "pod_UID pod = u"
      "boardID (BinpackAllocate rng (Allocatable ni) (BuildRequestOrinSet pod)) = b" "b \<noteq> BoardIDNotFount"
      "Cache_AssumePod c (AddPodBindAnnotation pod b) node = (c1, None)"
      "c' = fst (Cache_ForgetPod c1 pod node)"
  using assms
  by (auto simp: bindPod_def Let_def Allocate_policy GetPod_UID split: prod.splits sum.splits option.splits if_splits)
    (metis GetPod_UID)+

lemma bindPod_known:
  assumes "has_key (podMaps c) u" "bindPod cs rng node name ns u (c, w, np) = Ret ((c', w', np'), e)"
  shows "c' = c \<and> e \<noteq> None"
  using assms(2)
proof (cases rule: bindPod_cases)
  case unchanged
  then show ?thesis by simp
next
  case (refused err ni pod b err')
  then show ?thesis using AssumePod_known [of c "AddPodBindAnnotation pod b" node] assms(1) by auto
next
  case (assumed ni pod b)
  then show ?thesis using AssumePod_known [of c "AddPodBindAnnotation pod b" node] assms(1) by auto
next
  case (undone err ni pod b c1)
  then show ?thesis using AssumePod_known [of c "AddPodBindAnnotation pod b" node] assms(1) by auto
qed

section \<open>What a successful bind does to the cache\<close>

definition free_slots :: "scheduleCache \<Rightarrow> string \<Rightarrow> (int \<times> int) set" where
  "free_slots c name = (case Cache_GetNode c name of None \<Rightarrow> {} | Some ni \<Rightarrow> slots (Allocatable ni))"

definition claims :: "scheduleCache \<Rightarrow> string \<Rightarrow> uid \<Rightarrow> Pod \<Rightarrow> int \<Rightarrow> scheduleCache \<Rightarrow> bool" where
  "claims c node u pod b c' \<longleftrightarrow>
     pod_UID pod = u \<and>
     {b} \<times> fset (BuildRequestOrinSet pod) \<subseteq> free_slots c node \<and>
     free_slots c' node = free_slots c node - {b} \<times> fset (BuildRequestOrinSet pod) \<and>
     (\<forall>n. n \<noteq> node \<longrightarrow> Cache_GetNode c' n = Cache_GetNode c n) \<and>
     (\<exists>ni'. Cache_GetNode c' node = Some ni' \<and> fmlookup (Pods ni') u = Some (AddPodBindAnnotation pod b)) \<and>
     podMaps c' = fmupd u (AddPodBindAnnotation pod b) (podMaps c)"

definition not_on_node :: "scheduleCache \<Rightarrow> string \<Rightarrow> uid \<Rightarrow> bool" where
  "not_on_node c node u \<longleftrightarrow> (\<forall>ni. Cache_GetNode c node = Some ni \<longrightarrow> \<not> has_key (Pods ni) u)"

lemma chosen_board_int64:
  assumes "node_sound ni" "fits_board (Allocatable ni) S b"
  shows "in_int64 b"
  using assms ni_inv_boards [of ni] by (auto simp: node_sound_def fits_board_def fBall_alt_def)

text \<open>Assuming a pod on the board the allocator chose always succeeds in a sound cache.\<close>

lemma AssumePod_claims:
  assumes sound: "cache_sound c" and ni: "Cache_GetNode c node = Some ni"
    and fresh: "\<not> has_key (Pods ni) (pod_UID pod)" and unknown: "\<not> has_key (podMaps c) (pod_UID pod)"
    and fits: "fits_board (Allocatable ni) (BuildRequestOrinSet pod) b"
  obtains c' where "Cache_AssumePod c (AddPodBindAnnotation pod b) node = (c', None)"
    "cache_sound c'" "claims c node (pod_UID pod) pod b c'"
proof -
  have ns: "node_sound ni" using sound ni cache_soundD by (simp add: Cache_GetNode_def)
  have b: "in_int64 b" by (rule chosen_board_int64 [OF ns fits])
  let ?p = "AddPodBindAnnotation pod b"
  have "\<not> has_key (Pods ni) (pod_UID ?p)" "bind_board ?p = Some b"
    "fits_board (Allocatable ni) (BuildRequestOrinSet ?p) b"
    using fresh b fits by simp_all
  from addPod_exclusive [OF _ _ this] ns obtain ni' where ni': "NodeInfo_addPod ni ?p = (ni', None)"
    "ni_inv ni'" "ni_exclusive ni'" "Pods ni' = fmupd (pod_UID ?p) ?p (Pods ni)"
    "slots (Allocatable ni') = slots (Allocatable ni) - pod_slots ?p"
    by (auto simp: node_sound_def)
  have "node_sound ni'" using ns ni' Total_addPod [of ni ?p] by (simp add: node_sound_def)
  let ?c = "(set_node c node ni')\<lparr>assumePods := finsert (pod_UID ?p) (assumePods c),
                                  podMaps := fmupd (pod_UID ?p) ?p (podMaps c)\<rparr>"
  have asm: "Cache_AssumePod c ?p node = (?c, None)"
    using ni unknown ni'(1) by (simp add: Cache_AssumePod_def Cache_GetNode_def)
  have "cache_sound ?c" by (rule cache_sound_set_node [OF sound \<open>node_sound ni'\<close>]) simp
  moreover have "{b} \<times> fset (BuildRequestOrinSet pod) \<subseteq> slots (Allocatable ni)"
    using fits by (simp add: fits_board_slots del: slots_iff)
  then have "claims c node (pod_UID pod) pod b ?c"
    using ni ni'(4,5) b
    by (auto simp: claims_def free_slots_def Cache_GetNode_def pod_slots_bound simp del: slots_iff)
  ultimately show ?thesis using asm that by blast
qed

lemma chosen_fits:
  "range_order rng \<Longrightarrow> boardID (BinpackAllocate rng d req) = b \<Longrightarrow> b \<noteq> BoardIDNotFount \<Longrightarrow> fits_board d req b"
  using binpack.found_fits by blast

definition fresh_bind :: "scheduleCache \<Rightarrow> string \<Rightarrow> uid \<Rightarrow> bool" where
  "fresh_bind c node u \<longleftrightarrow> cache_sound c \<and> not_on_node c node u"

definition bound_to :: "scheduleCache \<Rightarrow> string \<Rightarrow> uid \<Rightarrow> scheduleCache \<Rightarrow> Pod option \<Rightarrow> bool" where
  "bound_to c node u c' np \<longleftrightarrow> cache_sound c' \<and>
     (\<exists>pod b. claims c node u pod b c' \<and> np = Some (AddPodBindAnnotation pod b))"

lemma bindPod_fresh:
  assumes rng: "range_order rng" and fresh: "fresh_bind c node u"
    and run: "bindPod cs rng node name ns u (c, w, np) = Ret ((c', w', np'), e)"
  shows "if e = None then bound_to c node u c' np' else c' = c \<or> has_key (podMaps c') u"
proof (cases "has_key (podMaps c) u")
  case True
  with bindPod_known [OF True run] show ?thesis by auto
next
  case False
  have claim: "\<exists>c1. Cache_AssumePod c (AddPodBindAnnotation pod b) node = (c1, None) \<and> cache_sound c1 \<and>
         claims c node u pod b c1"
    if "Cache_GetNode c node = Some ni" "pod_UID pod = u" "b \<noteq> BoardIDNotFount"
      "boardID (BinpackAllocate rng (Allocatable ni) (BuildRequestOrinSet pod)) = b" for ni pod b
  proof -
    have "cache_sound c" "\<not> has_key (Pods ni) (pod_UID pod)" "\<not> has_key (podMaps c) (pod_UID pod)"
      using fresh that(1,2) False by (simp_all add: fresh_bind_def not_on_node_def)
    from AssumePod_claims [OF this(1) that(1) this(2,3) chosen_fits [OF rng that(4,3)]] that(2)
    show ?thesis by blast
  qed
  from run show ?thesis
  proof (cases rule: bindPod_cases)
    case unchanged
    then show ?thesis by simp
  next
    case (refused err ni pod b err')
    then show ?thesis using claim [OF refused(2,3,5,4)] by auto
  next
    case (assumed ni pod b)
    then show ?thesis using claim [OF assumed(2,3,5,4)] by (auto simp: bound_to_def)
  next
    case (undone err ni pod b c1)
    then show ?thesis using claim [OF undone(2,3,5,4)] by (auto simp: claims_def)
  qed
qed

text \<open>
  The retries: an attempt that fails leaves the cache alone or makes the pod known, and a
  known pod is refused by every later attempt. So the attempt that succeeds runs on the cache
  \<open>Bind\<close> started with.
\<close>

lemma attempts_fresh:
  fixes cs :: "'w clientset"
  assumes rng: "range_order rng" and fresh: "fresh_bind c node u"
    and run: "attempts n (bindPod cs rng node name ns u) (c, w, np) = Ret ((c', w', np'), ok)"
  shows "if ok then bound_to c node u c' np' else c' = c \<or> has_key (podMaps c') u"
proof -
  let ?I = "\<lambda>s :: 'w bind_state. fst s = c \<or> has_key (podMaps (fst s)) u"
  let ?Q = "\<lambda>s :: 'w bind_state. bound_to c node u (fst s) (snd (snd s))"
  have step: "if e = None then ?Q s' else ?I s'"
    if "?I s" "bindPod cs rng node name ns u s = Ret (s', e)" for s s' e
  proof (cases "fst s = c")
    case True
    with that bindPod_fresh [OF rng fresh] show ?thesis by (cases s, cases s') fastforce
  next
    case False
    with that bindPod_known show ?thesis by (cases s, cases s') fastforce
  qed
  have "if ok then ?Q (c', w', np') else ?I (c', w', np')"
    by (rule attempts_rule [where f = "bindPod cs rng node name ns u" and s = "(c, w, np)" and n = n])
      (use step run in \<open>fastforce+\<close>)
  then show ?thesis by (cases ok) simp_all
qed

section \<open>Bind\<close>

lemma Bind_success:
  fixes cs :: "'w clientset"
  assumes "range_order rng" "fresh_bind c node u" "retry_contract R"
    "Bind cs R rng c w node name ns u = Ret ((c', w'), None)"
  shows "\<exists>np. bound_to c node u c' np"
proof -
  obtain w1 np where "R 3 (bindPod cs rng node name ns u) (c, w, None) = Ret ((c', w1, np), None)"
    using assms(4) by (auto simp: Bind_def Let_def split: option.splits outcome.splits prod.splits)
  from retry_Ret [OF assms(3) this] attempts_fresh [OF assms(1,2)] show ?thesis by fastforce
qed

text \<open>The annotated pod a bind leaves in the cache is the one the API server took the update of.\<close>

lemma Bind_success_updated:
  fixes cs :: "'w clientset"
  assumes "range_order rng" "fresh_bind c node u" and retry: "retry_contract R"
    and run: "Bind cs R rng c w node name ns u = Ret ((c', w'), None)"
  shows "\<exists>np v v'. bound_to c node u c' (Some np) \<and> cs_UpdatePod cs v (pod_Namespace np) np = (v', None)"
proof -
  let ?f = "bindPod cs rng node name ns u"
  obtain w1 np where R: "R 3 ?f (c, w, None) = Ret ((c', w1, np), None)"
    using run by (auto simp: Bind_def Let_def split: option.splits outcome.splits prod.splits)
  have one: "\<exists>np v v'. snd (snd t) = Some np \<and> cs_UpdatePod cs v (pod_Namespace np) np = (v', None)"
    if "?f s = Ret (t, None)" for s t
  proof -
    obtain d v pod where s: "s = (d, v, pod)" by (metis prod_cases3)
    show ?thesis
      using that unfolding s
      by (auto simp: bindPod_def Let_def split: prod.splits sum.splits option.splits outcome.splits if_splits) blast
  qed
  have "if True then \<exists>p v v'. snd (snd (c', w1, np)) = Some p \<and> cs_UpdatePod cs v (pod_Namespace p) p = (v', None) else True"
    by (rule attempts_rule [where f = ?f and s = "(c, w, None)" and n = 3 and I = "\<lambda>_. True"])
      (use one retry_Ret [OF retry R] in auto)
  moreover have "bound_to c node u c' np"
    using retry_Ret [OF retry R] attempts_fresh [OF assms(1,2)] by fastforce
  ultimately show ?thesis by auto
qed

text \<open>Its board is the one claimed.\<close>

lemma bound_pod_board:
  assumes "bound_to c node u c' (Some np)"
  obtains ni pod b where "np = AddPodBindAnnotation pod b" "claims c node u pod b c'" "bind_board np = Some b"
    "Cache_GetNode c' node = Some ni" "fmlookup (Pods ni) u = Some np"
proof -
  obtain pod b ni where pod: "np = AddPodBindAnnotation pod b" "claims c node u pod b c'" "cache_sound c'"
    "Cache_GetNode c' node = Some ni" "fmlookup (Pods ni) u = Some np"
    using assms by (auto simp: bound_to_def claims_def)
  have "node_sound ni" using pod(3,4) cache_soundD [of c' node ni] by (simp add: Cache_GetNode_def)
  then have "ni_exclusive ni" by (simp add: node_sound_def)
  from ni_exclusiveD [OF this pod(5)] obtain d where d: "bind_board np = Some d" by blast
  then have "ParseInt (FormatInt b) = Some d" by (simp add: pod(1) bind_board_Some)
  then have "d = b" by (rule ParseInt_FormatInt_Some)
  with d show ?thesis using that pod by blast
qed

lemma Bind_failure:
  fixes cs :: "'w clientset"
  assumes "range_order rng" "fresh_bind c node u" "retry_contract R"
    "Bind cs R rng c w node name ns u = Ret ((c', w'), Some e)"
  shows "c' = c \<or> has_key (podMaps c') u"
proof (cases "Cache_GetNode c node")
  case None
  with assms(4) show ?thesis by (simp add: Bind_def)
next
  case (Some ni)
  with assms(4) obtain c1 w1 np e1 where run: "R 3 (bindPod cs rng node name ns u) (c, w, None) = Ret ((c1, w1, np), e1)"
    by (auto simp: Bind_def split: outcome.splits)
  have att: "if e1 = None then bound_to c node u c1 np else c1 = c \<or> has_key (podMaps c1) u"
    using attempts_fresh [OF assms(1,2) retry_Ret [OF assms(3) run]] by simp
  show ?thesis
  proof (cases e1)
    case None
    then have "has_key (podMaps c1) u" using att by (auto simp: bound_to_def claims_def)
    moreover have "podMaps c' = podMaps c1"
      using assms(4) Some run None
      by (auto simp: Bind_def Let_def split: option.splits prod.splits)
    ultimately show ?thesis by simp
  next
    case (Some e2)
    then show ?thesis using assms(4) \<open>Cache_GetNode c node = Some ni\<close> run att by (auto simp: Bind_def)
  qed
qed

lemma attempts_known:
  fixes cs :: "'w clientset"
  assumes "has_key (podMaps c) u"
    and "attempts n (bindPod cs rng node name ns u) (c, w, np) = Ret ((c', w', np'), ok)"
  shows "c' = c \<and> \<not> ok"
proof -
  have "if ok then False else fst ((c', w', np') :: 'w bind_state) = c"
    by (rule attempts_rule [where f = "bindPod cs rng node name ns u" and s = "(c, w, np)" and n = n
          and I = "\<lambda>s. fst s = c" and Q = "\<lambda>_. False"])
      (use assms bindPod_known in \<open>fastforce+\<close>)
  then show ?thesis by (cases ok) simp_all
qed

lemma Bind_known:
  fixes cs :: "'w clientset"
  assumes "has_key (podMaps c) u" "retry_contract R"
    "Bind cs R rng c w node name ns u = Ret ((c', w'), e)"
  shows "c' = c \<and> e \<noteq> None"
proof (cases "Cache_GetNode c node")
  case None
  with assms(3) show ?thesis by (auto simp: Bind_def)
next
  case (Some ni)
  with assms(3) obtain c1 w1 np e1 where run: "R 3 (bindPod cs rng node name ns u) (c, w, None) = Ret ((c1, w1, np), e1)"
    by (auto simp: Bind_def split: outcome.splits)
  have "c1 = c" "e1 \<noteq> None" using attempts_known [OF assms(1) retry_Ret [OF assms(2) run]] by auto
  then show ?thesis using assms(3) Some run by (auto simp: Bind_def)
qed

text \<open>The nil pointers \<open>Bind\<close> could follow: the allocator of an unknown policy, and \<open>newPod\<close>.\<close>

definition serves_binpack :: "'w clientset \<Rightarrow> bool" where
  "serves_binpack cs \<longleftrightarrow>
     (\<forall>w ns name w' pod. cs_GetPod cs w ns name = (w', Inr pod) \<longrightarrow> policy_of pod = AllocatorPolicyBinPack)"

lemma serves_binpackD: "serves_binpack cs \<Longrightarrow> cs_GetPod cs w ns name = (w', Inr pod) \<Longrightarrow> policy_of pod = AllocatorPolicyBinPack"
  unfolding serves_binpack_def by blast

lemma GetPod_binpack:
  "serves_binpack cs \<Longrightarrow> GetPodFromApiserver cs w name ns u = (w', Inr pod) \<Longrightarrow> policy_of pod = AllocatorPolicyBinPack"
  by (auto simp: GetPodFromApiserver_def split: prod.splits sum.splits if_splits dest: serves_binpackD)

lemma bindPod_no_panic: "serves_binpack cs \<Longrightarrow> bindPod cs rng node name ns u s \<noteq> Panic"
  by (auto simp: bindPod_def Let_def Allocate_policy dest: GetPod_binpack
      split: prod.splits sum.splits option.splits if_splits)

lemma bindPod_success_pod: "bindPod cs rng node name ns u s = Ret (s', None) \<Longrightarrow> snd (snd s') \<noteq> None"
  by (cases s, cases s') (auto elim: bindPod_cases)

lemma attempts_success_pod:
  assumes "attempts n (bindPod cs rng node name ns u) s = Ret (s', True)"
  shows "snd (snd s') \<noteq> None"
proof -
  have "if True then snd (snd s') \<noteq> None else True"
    by (rule attempts_rule [where f = "bindPod cs rng node name ns u" and s = s and n = n and I = "\<lambda>_. True"])
      (use assms bindPod_success_pod in \<open>blast+\<close>)
  then show ?thesis by simp
qed

lemma Bind_no_panic:
  assumes "serves_binpack cs" "retry_contract R"
  shows "Bind cs R rng c w node name ns u \<noteq> Panic"
proof (cases "Cache_GetNode c node")
  case (Some ni)
  have "attempts 3 (bindPod cs rng node name ns u) (c, w, None) \<noteq> Panic"
    by (rule attempts_no_panic [where I = "\<lambda>_. True"]) (simp_all add: bindPod_no_panic assms(1))
  then obtain c1 w1 np e where run: "R 3 (bindPod cs rng node name ns u) (c, w, None) = Ret ((c1, w1, np), e)"
    using retry_Panic [OF assms(2)] by (cases "R 3 (bindPod cs rng node name ns u) (c, w, None)") auto
  moreover have "np \<noteq> None" if "e = None"
    using attempts_success_pod [of 3 cs rng node name ns u "(c, w, None)" "(c1, w1, np)"] retry_Ret [OF assms(2) run] that
    by simp
  ultimately show ?thesis
    using Some by (auto simp: Bind_def Let_def split: option.split prod.split)
qed (simp add: Bind_def)

section \<open>Failed binds\<close>

text \<open>A client that serves one pod, answers \<open>Update\<close> with \<open>upd\<close> and \<open>Bind\<close> with \<open>bnd\<close>.\<close>

definition answers :: "'w clientset \<Rightarrow> Pod \<Rightarrow> string option \<Rightarrow> string option \<Rightarrow> bool" where
  "answers cs pod upd bnd \<longleftrightarrow>
     (\<forall>w ns name. snd (cs_GetPod cs w ns name) = Inr pod) \<and>
     (\<forall>w ns p. snd (cs_UpdatePod cs w ns p) = upd) \<and>
     (\<forall>w ns name u node. snd (cs_BindPod cs w ns name u node) = bnd)"

lemma answersE:
  assumes "answers cs pod upd bnd"
  obtains (get) w1 where "cs_GetPod cs w ns name = (w1, Inr pod)"
  using assms that by (metis answers_def prod.collapse)

lemma answers_update: "answers cs pod upd bnd \<Longrightarrow> \<exists>w1. cs_UpdatePod cs w ns p = (w1, upd)"
  by (metis answers_def prod.collapse)

lemma answers_bind: "answers cs pod upd bnd \<Longrightarrow> \<exists>w1. cs_BindPod cs w ns name u node = (w1, bnd)"
  by (metis answers_def prod.collapse)

lemma answers_serves:
  assumes "answers cs pod upd bnd" "policy_of pod = AllocatorPolicyBinPack"
  shows "serves_binpack cs"
  unfolding serves_binpack_def
proof (intro allI impI)
  fix w ns name w' p
  assume "cs_GetPod cs w ns name = (w', Inr p)"
  moreover have "snd (cs_GetPod cs w ns name) = Inr pod" using assms(1) unfolding answers_def by blast
  ultimately show "policy_of p = AllocatorPolicyBinPack" using assms(2) by simp
qed

lemma bindPod_answers:
  assumes cs: "answers cs pod upd bnd" and u: "pod_UID pod = u" and pol: "policy_of pod = AllocatorPolicyBinPack"
    and ni: "Cache_GetNode c node = Some ni"
    and b: "boardID (BinpackAllocate rng (Allocatable ni) (BuildRequestOrinSet pod)) = b" "b \<noteq> BoardIDNotFount"
    and asm: "Cache_AssumePod c (AddPodBindAnnotation pod b) node = (c1, None)"
  shows "\<exists>w'. bindPod cs rng node name ns u (c, w, np) =
     (case upd of None \<Rightarrow> Ret ((c1, w', Some (AddPodBindAnnotation pod b)), None)
      | Some err \<Rightarrow> Ret ((fst (Cache_ForgetPod c1 pod node), w', Some (AddPodBindAnnotation pod b)), Some (ApiError err)))"
proof -
  obtain w1 where get: "cs_GetPod cs w ns name = (w1, Inr pod)" using answersE [OF cs] .
  obtain w2 where upd: "cs_UpdatePod cs w1 (pod_Namespace (AddPodBindAnnotation pod b)) (AddPodBindAnnotation pod b) = (w2, upd)"
    using answers_update [OF cs] by blast
  have "GetPodFromApiserver cs w name ns u = (w1, Inr pod)" by (simp add: GetPodFromApiserver_def get u)
  then show ?thesis
    using upd by (auto simp: bindPod_def Let_def ni b asm Allocate_policy pol split: option.split)
qed

text \<open>
  When \<open>Update\<close> fails, \<open>Bind\<close> calls \<open>ForgetPod\<close> with the pod the API server returned, which
  has no board annotation, so nothing is released; the later attempts are refused because
  the pod is known.
\<close>

lemma ForgetPod_unannotated:
  assumes "fmlookup (pod_Annotations pod) AnnotationPodBindToBoard = None"
  shows "fst (Cache_ForgetPod c pod node) = c"
  using assms by (auto simp: Cache_ForgetPod_def deletePod_unannotated set_node_same split: option.split)

lemma attempts_all_fail:
  fixes cs :: "'w clientset"
  assumes cs: "answers cs pod upd bnd" and pol: "policy_of pod = AllocatorPolicyBinPack"
    and known: "has_key (podMaps c) u"
  shows "\<exists>w' np'. attempts n (bindPod cs rng node name ns u) (c, w, np) = Ret ((c, w', np'), False)"
proof -
  have no_panic: "bindPod cs rng node name ns u s \<noteq> Panic" for s :: "'w bind_state"
  proof -
    have "serves_binpack cs" by (rule answers_serves [OF cs pol])
    then show ?thesis by (rule bindPod_no_panic)
  qed
  then have "attempts n (bindPod cs rng node name ns u) (c, w, np) \<noteq> Panic"
    by (intro attempts_no_panic [where I = "\<lambda>_. True"]) auto
  then obtain c' w' np' ok where "attempts n (bindPod cs rng node name ns u) (c, w, np) = Ret ((c', w', np'), ok)"
    by (cases "attempts n (bindPod cs rng node name ns u) (c, w, np)") auto
  with attempts_known [OF known this] show ?thesis by auto
qed

lemma Bind_update_refused:
  fixes cs :: "'w clientset"
  assumes R: "retry_contract R" and ni: "Cache_GetNode c node = Some ni"
    and cs: "answers cs pod (Some err) bnd" and u: "pod_UID pod = u" and pol: "policy_of pod = AllocatorPolicyBinPack"
    and b: "boardID (BinpackAllocate rng (Allocatable ni) (BuildRequestOrinSet pod)) = b" "b \<noteq> BoardIDNotFount"
    and c1: "Cache_AssumePod c (AddPodBindAnnotation pod b) node = (c1, None)"
  shows "\<exists>w' e. Bind cs R rng c w node name ns u = Ret ((fst (Cache_ForgetPod c1 pod node), w'), Some e)"
proof -
  let ?c = "fst (Cache_ForgetPod c1 pod node)"
  have known: "has_key (podMaps ?c) u"
    using AssumePod_success_known [of c "AddPodBindAnnotation pod b" node] by (simp add: c1 u)
  obtain w1 where one: "bindPod cs rng node name ns u (c, w, None) =
      Ret ((?c, w1, Some (AddPodBindAnnotation pod b)), Some (ApiError err))"
    using bindPod_answers [OF cs u pol ni b c1, of name ns w None] by auto
  obtain w2 np where two: "attempts 2 (bindPod cs rng node name ns u) (?c, w1, Some (AddPodBindAnnotation pod b)) =
      Ret ((?c, w2, np), False)"
    using attempts_all_fail [OF cs pol known] by blast
  have "attempts (Suc 2) (bindPod cs rng node name ns u) (c, w, None) = Ret ((?c, w2, np), False)"
    by (simp only: attempts.simps one two outcome.case prod.case option.case)
  then have "attempts 3 (bindPod cs rng node name ns u) (c, w, None) = Ret ((?c, w2, np), False)"
    by (simp only: numeral_3_eq_3 numeral_2_eq_2)
  then obtain e where "R 3 (bindPod cs rng node name ns u) (c, w, None) = Ret ((?c, w2, np), Some e)"
    using retry_of_attempts [OF R] by fastforce
  then show ?thesis by (simp add: Bind_def ni)
qed

lemma Bind_update_fails:
  fixes cs :: "'w clientset"
  assumes rng: "range_order rng" and fresh: "fresh_bind c node u" and unknown: "\<not> has_key (podMaps c) u"
    and R: "retry_contract R" and ni: "Cache_GetNode c node = Some ni"
    and cs: "answers cs pod (Some err) bnd" and u: "pod_UID pod = u" and pol: "policy_of pod = AllocatorPolicyBinPack"
    and ann: "fmlookup (pod_Annotations pod) AnnotationPodBindToBoard = None"
    and b: "boardID (BinpackAllocate rng (Allocatable ni) (BuildRequestOrinSet pod)) = b" "b \<noteq> BoardIDNotFount"
  shows "\<exists>c' w' e. Bind cs R rng c w node name ns u = Ret ((c', w'), Some e) \<and> claims c node u pod b c'"
proof -
  have "\<not> has_key (Pods ni) (pod_UID pod)" "cache_sound c" "\<not> has_key (podMaps c) (pod_UID pod)"
    using fresh ni unknown u by (auto simp: fresh_bind_def not_on_node_def)
  from AssumePod_claims [OF this(2) ni this(1,3) chosen_fits [OF rng b]]
  obtain c1 where c1: "Cache_AssumePod c (AddPodBindAnnotation pod b) node = (c1, None)" "claims c node u pod b c1"
    using u by blast
  then show ?thesis
    using Bind_update_refused [OF R ni cs u pol b c1(1), of w name ns]
    by (auto simp: ForgetPod_unannotated [OF ann])
qed

text \<open>When the bind call fails, the orins come back, but the pod stays known.\<close>

lemma claims_release:
  assumes sound: "cache_sound c1" and claims: "claims c node u pod b c1" and b: "in_int64 b"
  shows "\<exists>c2. Cache_ForgetPod c1 (AddPodBindAnnotation pod b) node = (c2, None) \<and> cache_sound c2 \<and>
     free_slots c2 node = free_slots c node \<and> has_key (podMaps c2) u"
proof -
  let ?p = "AddPodBindAnnotation pod b"
  obtain ni' where ni': "Cache_GetNode c1 node = Some ni'" "fmlookup (Pods ni') u = Some ?p"
    and u: "pod_UID pod = u" and known: "has_key (podMaps c1) u"
    using claims by (auto simp: claims_def)
  have ns: "node_sound ni'" using sound ni'(1) cache_soundD by (simp add: Cache_GetNode_def)
  have "fmlookup (Pods ni') (pod_UID ?p) = Some ?p" by (simp add: u ni'(2))
  from deletePod_exclusive [OF _ _ this refl refl] ns
  obtain ni2 where ni2: "NodeInfo_deletePod ni' ?p = (ni2, None)" "ni_inv ni2" "ni_exclusive ni2"
    "slots (Allocatable ni2) = slots (Allocatable ni') \<union> pod_slots ?p"
    by (auto simp: node_sound_def)
  have "node_sound ni2" using ns ni2 Total_deletePod [of ni' ?p] by (simp add: node_sound_def)
  then have "cache_sound (set_node c1 node ni2)" by (rule cache_sound_set_node [OF sound]) simp
  moreover have "Cache_ForgetPod c1 ?p node = (set_node c1 node ni2, None)"
    using ni'(1) known u ni2(1) by (simp add: Cache_ForgetPod_def Cache_GetNode_def)
  moreover have "slots (Allocatable ni2) = free_slots c node"
  proof -
    have ps: "pod_slots ?p = {b} \<times> fset (BuildRequestOrinSet pod)" using b by (simp add: pod_slots_bound)
    have "slots (Allocatable ni') = free_slots c node - {b} \<times> fset (BuildRequestOrinSet pod)"
      "{b} \<times> fset (BuildRequestOrinSet pod) \<subseteq> free_slots c node"
      using claims ni'(1) by (auto simp: claims_def free_slots_def [of c1])
    then show ?thesis unfolding ni2(4) ps by blast
  qed
  ultimately show ?thesis using known
    by (simp add: free_slots_def [of "set_node c1 node ni2"] Cache_GetNode_def del: slots_iff)
qed

lemma Bind_bind_fails:
  fixes cs :: "'w clientset"
  assumes rng: "range_order rng" and fresh: "fresh_bind c node u" and unknown: "\<not> has_key (podMaps c) u"
    and R: "retry_contract R" and ni: "Cache_GetNode c node = Some ni"
    and cs: "answers cs pod None (Some err)" and u: "pod_UID pod = u" and pol: "policy_of pod = AllocatorPolicyBinPack"
    and b: "boardID (BinpackAllocate rng (Allocatable ni) (BuildRequestOrinSet pod)) = b" "b \<noteq> BoardIDNotFount"
  shows "\<exists>c' w'. Bind cs R rng c w node name ns u = Ret ((c', w'), Some (ApiError err)) \<and>
     cache_sound c' \<and> free_slots c' node = free_slots c node \<and> has_key (podMaps c') u"
proof -
  have "\<not> has_key (Pods ni) (pod_UID pod)" "cache_sound c" "\<not> has_key (podMaps c) (pod_UID pod)"
    using fresh ni unknown u by (auto simp: fresh_bind_def not_on_node_def)
  note assumed = AssumePod_claims [OF this(2) ni this(1,3) chosen_fits [OF rng b]]
  have "node_sound ni" using fresh ni cache_soundD [of c node ni] by (simp add: fresh_bind_def Cache_GetNode_def)
  then have b64: "in_int64 b" by (rule chosen_board_int64 [OF _ chosen_fits [OF rng b]])
  obtain c1 where c1: "Cache_AssumePod c (AddPodBindAnnotation pod b) node = (c1, None)"
    "cache_sound c1" "claims c node u pod b c1" using assumed u by blast
  obtain w1 where one: "bindPod cs rng node name ns u (c, w, None) = Ret ((c1, w1, Some (AddPodBindAnnotation pod b)), None)"
    using bindPod_answers [OF cs u pol ni b c1(1), of name ns w None] by auto
  have "attempts 3 (bindPod cs rng node name ns u) (c, w, None) = Ret ((c1, w1, Some (AddPodBindAnnotation pod b)), True)"
    by (simp only: numeral_3_eq_3 attempts.simps one outcome.case prod.case option.case)
  then have run: "R 3 (bindPod cs rng node name ns u) (c, w, None) = Ret ((c1, w1, Some (AddPodBindAnnotation pod b)), None)"
    using retry_of_attempts [OF R] by fastforce
  obtain w2 where bnd: "cs_BindPod cs w1 ns name u node = (w2, Some err)"
    using answers_bind [OF cs] by blast
  obtain w3 where upd: "cs_UpdatePod cs w2 (pod_Namespace pod) (RemovePodBindAnnotation (AddPodBindAnnotation pod b)) = (w3, None)"
    using answers_update [OF cs] by blast
  obtain c2 where "Cache_ForgetPod c1 (AddPodBindAnnotation pod b) node = (c2, None)" "cache_sound c2"
     "free_slots c2 node = free_slots c node" "has_key (podMaps c2) u"
    using claims_release [OF c1(2,3) b64] by blast
  then show ?thesis by (simp add: Bind_def ni run bnd upd Let_def)
qed

end
