(* ===== verification/Routes.thy ===== *)
theory Routes
  imports BindFacts
begin

text \<open>
  \<open>pkg/scheduler/routes\<close>: the HTTP handlers of the scheduler extender. The JSON codec and the
  texts of the manager's errors are arguments; the result of a route is the response it
  writes, or a panic. A request without a body is answered with status 400 by \<open>checkBody\<close>,
  which does not stop the handler, so decoding then reads from a nil body and panics. A nil
  pointer in the decoded arguments panics where the handler follows it.
\<close>

record ExtenderArgs =
  args_Pod :: "Pod option"
  args_NodeNames :: "string list option"

record ExtenderFilterResult =
  fr_NodeNames :: "string list option"
  fr_FailedNodes :: "(string, string) fmap option"
  fr_Error :: string

record HostPriority =
  hp_Host :: string
  hp_Score :: int

record ExtenderBindingArgs =
  ba_PodName :: string
  ba_PodNamespace :: string
  ba_PodUID :: uid
  ba_Node :: string

definition Predicate_Handler ::
  "(BoardDetails \<Rightarrow> int list) \<Rightarrow> nat list \<Rightarrow> scheduleCache \<Rightarrow> ExtenderArgs \<Rightarrow> ExtenderFilterResult outcome" where
  "Predicate_Handler rng ord c args =
     (case args_NodeNames args of
        None \<Rightarrow> Panic
      | Some nodes \<Rightarrow>
          (case args_Pod args of
             None \<Rightarrow> Panic
           | Some pod \<Rightarrow>
               (case Predicate rng ord c nodes pod of
                  Panic \<Rightarrow> Panic
                | Ret (nodeNames, faildNodes) \<Rightarrow>
                    Ret \<lparr>fr_NodeNames = Some nodeNames, fr_FailedNodes = Some faildNodes, fr_Error = []\<rparr>)))"

definition Prioritize_Handler ::
  "(BoardDetails \<Rightarrow> int list) \<Rightarrow> nat list \<Rightarrow> scheduleCache \<Rightarrow> ExtenderArgs \<Rightarrow> HostPriority list outcome" where
  "Prioritize_Handler rng ord c args =
     (case args_NodeNames args of
        None \<Rightarrow> Panic
      | Some nodes \<Rightarrow>
          (case args_Pod args of
             None \<Rightarrow> Panic
           | Some pod \<Rightarrow>
               (case Priority rng ord c nodes pod of
                  Panic \<Rightarrow> Panic
                | Ret scores \<Rightarrow>
                    Ret (map (\<lambda>i. \<lparr>hp_Host = nodes ! i, hp_Score = scores ! i\<rparr>) [0..<length scores]))))"

definition Bind_Handler ::
  "(manager_error \<Rightarrow> string) \<Rightarrow> 'w clientset \<Rightarrow> ('w bind_state, manager_error) retry \<Rightarrow> (BoardDetails \<Rightarrow> int list) \<Rightarrow>
   scheduleCache \<Rightarrow> 'w \<Rightarrow> ExtenderBindingArgs \<Rightarrow> ((scheduleCache \<times> 'w) \<times> string) outcome" where
  "Bind_Handler errText cs retryDo rng c w args =
     (case Bind cs retryDo rng c w (ba_Node args) (ba_PodName args) (ba_PodNamespace args) (ba_PodUID args) of
        Panic \<Rightarrow> Panic
      | Ret (s, None) \<Rightarrow> Ret (s, [])
      | Ret (s, Some err) \<Rightarrow> Ret (s, errText err))"

section \<open>Routes\<close>

record 'a response =
  rsp_Status :: nat
  rsp_ContentType :: string
  rsp_Body :: 'a

definition write_json :: "'a \<Rightarrow> 'a response" where
  "write_json body = \<lparr>rsp_Status = 200, rsp_ContentType = ''application/json'', rsp_Body = body\<rparr>"

definition PredicateRoute ::
  "(string \<Rightarrow> string + ExtenderArgs) \<Rightarrow> (ExtenderFilterResult \<Rightarrow> string + string) \<Rightarrow>
   (ExtenderArgs \<Rightarrow> ExtenderFilterResult outcome) \<Rightarrow> string option \<Rightarrow> string response outcome" where
  "PredicateRoute decode marshal handler body =
     (case body of
        None \<Rightarrow> Panic
      | Some text \<Rightarrow>
          (case (case decode text of
                   Inl err \<Rightarrow> Ret \<lparr>fr_NodeNames = None, fr_FailedNodes = None, fr_Error = err\<rparr>
                 | Inr args \<Rightarrow> handler args) of
             Panic \<Rightarrow> Panic
           | Ret result \<Rightarrow>
               (case marshal result of Inl _ \<Rightarrow> Panic | Inr resultBody \<Rightarrow> Ret (write_json resultBody))))"

definition PrioritizeRoute ::
  "(string \<Rightarrow> string + ExtenderArgs) \<Rightarrow> (HostPriority list \<Rightarrow> string + string) \<Rightarrow>
   (ExtenderArgs \<Rightarrow> HostPriority list outcome) \<Rightarrow> string option \<Rightarrow> string response outcome" where
  "PrioritizeRoute decode marshal handler body =
     (case body of
        None \<Rightarrow> Panic
      | Some text \<Rightarrow>
          (case decode text of
             Inl _ \<Rightarrow> Panic
           | Inr args \<Rightarrow>
               (case handler args of
                  Panic \<Rightarrow> Panic
                | Ret result \<Rightarrow>
                    (case marshal result of Inl _ \<Rightarrow> Panic | Inr resultBody \<Rightarrow> Ret (write_json resultBody)))))"

definition BindRoute ::
  "(string \<Rightarrow> string + ExtenderBindingArgs) \<Rightarrow> (string \<Rightarrow> string + string) \<Rightarrow>
   (ExtenderBindingArgs \<Rightarrow> ((scheduleCache \<times> 'w) \<times> string) outcome) \<Rightarrow> scheduleCache \<times> 'w \<Rightarrow> string option \<Rightarrow>
   ((scheduleCache \<times> 'w) \<times> string response) outcome" where
  "BindRoute decode marshal handler s body =
     (case body of
        None \<Rightarrow> Panic
      | Some text \<Rightarrow>
          (case (case decode text of Inl err \<Rightarrow> Ret (s, err) | Inr args \<Rightarrow> handler args) of
             Panic \<Rightarrow> Panic
           | Ret (s', result) \<Rightarrow>
               (case marshal result of Inl _ \<Rightarrow> Panic | Inr resultBody \<Rightarrow> Ret (s', write_json resultBody))))"

section \<open>What the routes answer\<close>

lemma Prioritize_Handler_hosts:
  assumes "mset ord = mset [0..<length nodes]" "policy_of pod = AllocatorPolicyBinPack"
  shows "Prioritize_Handler rng ord c \<lparr>args_Pod = Some pod, args_NodeNames = Some nodes\<rparr> =
     Ret (map2 (\<lambda>n s. \<lparr>hp_Host = n, hp_Score = s\<rparr>) nodes
            (Normalize 10 (map (node_score rng c (BuildRequestOrinSet pod)) nodes)))"
proof -
  let ?ss = "Normalize 10 (map (node_score rng c (BuildRequestOrinSet pod)) nodes)"
  have "map (\<lambda>i. \<lparr>hp_Host = nodes ! i, hp_Score = ?ss ! i\<rparr>) [0..<length ?ss] =
      map2 (\<lambda>n s. \<lparr>hp_Host = n, hp_Score = s\<rparr>) nodes ?ss"
    by (rule nth_equalityI) simp_all
  then show ?thesis
    by (simp only: Prioritize_Handler_def ExtenderArgs.simps option.case Priority_binpack [OF assms] outcome.case)
qed

lemma Bind_Handler_reports:
  assumes "\<And>e. errText e \<noteq> []" "Bind_Handler errText cs R rng c w args = Ret (s, msg)"
  shows "msg = [] \<longleftrightarrow>
     Bind cs R rng c w (ba_Node args) (ba_PodName args) (ba_PodNamespace args) (ba_PodUID args) = Ret (s, None)"
  using assms by (auto simp: Bind_Handler_def split: outcome.splits option.splits)

end
