(* ===== verification/Controller.thy ===== *)
theory Controller
  imports Manager
begin

text \<open>
  \<open>pkg/scheduler/manager/controller.go\<close>: the informer handlers, the work queue and the
  worker that keep the cache in step with the API server.

  The work queue, the key functions and the listers are code of client-go: they are fields
  of \<open>env\<close>, over a queue state \<open>'q\<close> and a world \<open>'w\<close> that holds the informer stores and the
  API server. \<open>wq_Get\<close> gives \<open>Quit\<close> after a shut-down and \<open>Blocked\<close> when the worker would
  wait for ever. An \<open>interface{}\<close> a handler receives is an \<open>obj\<close>; a failed type assertion
  without the comma-ok form panics.
\<close>

datatype obj = PodObj Pod | NodeObj Node | DeletedFinalStateUnknown obj | OtherObj string

datatype lister_error = IsNotFound | ListerError string

datatype 'q got = Quit 'q | Item string 'q | Blocked

datatype controller_error =
    KeyError string
  | CtlCacheError cache_error

record ('q, 'w) env =
  wq_Get :: "'q \<Rightarrow> 'q got"
  wq_Add :: "string \<Rightarrow> 'q \<Rightarrow> 'q"
  wq_Done :: "string \<Rightarrow> 'q \<Rightarrow> 'q"
  wq_Forget :: "string \<Rightarrow> 'q \<Rightarrow> 'q"
  wq_AddRateLimited :: "string \<Rightarrow> 'q \<Rightarrow> 'q"
  KeyFunc :: "Pod \<Rightarrow> string + string"
  SplitMetaNamespaceKey :: "string \<Rightarrow> string + string \<times> string"
  podLister_Get :: "'w \<Rightarrow> string \<Rightarrow> string \<Rightarrow> lister_error + Pod"
  podLister_List :: "'w \<Rightarrow> string + Pod list"
  clientset :: "'w clientset"

record ('q, 'w) Controller =
  manager :: scheduleCache
  podQueue :: 'q
  world :: 'w

section \<open>Pod classification\<close>

definition IsResourceExists :: "Pod \<Rightarrow> string \<Rightarrow> bool" where
  "IsResourceExists pod resourceName =
     list_ex (\<lambda>c. fBex (fmdom (c_Limits c)) (\<lambda>rkey. HasPrefix rkey resourceName)) (pod_Containers pod)"

definition IsOrinPod :: "Pod \<Rightarrow> bool" where
  "IsOrinPod pod =
     (IsResourceExists pod ExtendResouceTypeBoard \<and> IsResourceExists pod ExtendResouceTypeOrinPrefix)"

definition IsCompletedPod :: "Pod \<Rightarrow> bool" where
  "IsCompletedPod pod =
     (if pod_DeletionTimestamp pod \<noteq> None then True
      else pod_Phase pod = PodSucceeded \<or> pod_Phase pod = PodFailed)"

definition IsBindingBoard :: "Pod \<Rightarrow> bool" where
  "IsBindingBoard pod = (fmlookup (pod_Annotations pod) AnnotationPodBindToBoard \<noteq> None)"

text \<open>The filter the pod informer is registered with.\<close>

fun podFilter :: "obj \<Rightarrow> bool" where
  "podFilter (PodObj t) = IsOrinPod t"
| "podFilter (DeletedFinalStateUnknown (PodObj pod)) = IsOrinPod pod"
| "podFilter _ = False"

section \<open>Assigning and releasing\<close>

definition getActivePodInNode :: "('q, 'w) env \<Rightarrow> 'w \<Rightarrow> string \<Rightarrow> Pod list \<times> string option" where
  "getActivePodInNode e w nodeName =
     (case podLister_List e w of
        Inl err \<Rightarrow> ([], Some err)
      | Inr podList \<Rightarrow>
          (filter (\<lambda>p. pod_NodeName p = nodeName \<and> \<not> IsCompletedPod p \<and> IsBindingBoard p) podList, None))"

definition releasePod :: "scheduleCache \<Rightarrow> Pod \<Rightarrow> scheduleCache \<times> cache_error option" where
  "releasePod m pod = Cache_DeletePod m pod"

definition assignPod ::
  "('q, 'w) env \<Rightarrow> ('q, 'w) Controller \<Rightarrow> Pod \<Rightarrow> ('q, 'w) Controller \<times> cache_error option" where
  "assignPod e s pod =
     (case fmlookup (pod_Annotations pod) AnnotationPodBindToBoard of
        None \<Rightarrow> (s, None)
      | Some _ \<Rightarrow>
          (let s1 =
             (case Cache_GetNode (manager s) (pod_NodeName pod) of
                Some _ \<Rightarrow> s
              | None \<Rightarrow>
                  (case cs_GetNode (clientset e) (world s) (pod_NodeName pod) of
                     (w', Inl _) \<Rightarrow> s\<lparr>world := w'\<rparr>
                   | (w', Inr node) \<Rightarrow>
                       (let pods = fst (getActivePodInNode e w' (node_Name node))
                        in s\<lparr>world := w', manager := fst (Cache_AddNode (manager s) node pods)\<rparr>)))
           in case Cache_AddPod (manager s1) pod of (m', err) \<Rightarrow> (s1\<lparr>manager := m'\<rparr>, err)))"

section \<open>The worker\<close>

definition syncPod ::
  "('q, 'w) env \<Rightarrow> ('q, 'w) Controller \<Rightarrow> string \<Rightarrow> ('q, 'w) Controller \<times> bool \<times> controller_error option" where
  "syncPod e s key =
     (case SplitMetaNamespaceKey e key of
        Inl err \<Rightarrow> (s, False, Some (KeyError err))
      | Inr (ns, name) \<Rightarrow>
          (case podLister_Get e (world s) ns name of
             Inl IsNotFound \<Rightarrow> (s, True, None)
           | Inl (ListerError _) \<Rightarrow> (s, True, None)
           | Inr pod \<Rightarrow>
               if IsCompletedPod pod
               then (s\<lparr>manager := fst (releasePod (manager s) pod)\<rparr>, True, None)
               else if pod_NodeName pod = [] then (s, True, None)
               else (case assignPod e s pod of
                       (s', Some err) \<Rightarrow> (s', False, Some (CtlCacheError err))
                     | (s', None) \<Rightarrow> (s', True, None))))"

text \<open>\<open>None\<close>: the call to \<open>podQueue.Get\<close> waits for ever.\<close>

definition processNextWorkItem ::
  "('q, 'w) env \<Rightarrow> ('q, 'w) Controller \<Rightarrow> (('q, 'w) Controller \<times> bool) option" where
  "processNextWorkItem e s =
     (case wq_Get e (podQueue s) of
        Blocked \<Rightarrow> None
      | Quit q \<Rightarrow> Some (s\<lparr>podQueue := q\<rparr>, False)
      | Item key q \<Rightarrow>
          (case syncPod e (s\<lparr>podQueue := q\<rparr>) key of
             (s1, forget, None) \<Rightarrow>
               (let s2 = (if forget then s1\<lparr>podQueue := wq_Forget e key (podQueue s1)\<rparr> else s1)
                in Some (s2\<lparr>podQueue := wq_Done e key (podQueue s2)\<rparr>, False))
           | (s1, forget, Some _) \<Rightarrow>
               (let s2 = s1\<lparr>podQueue := wq_AddRateLimited e key (podQueue s1)\<rparr>
                in Some (s2\<lparr>podQueue := wq_Done e key (podQueue s2)\<rparr>, True))))"

partial_function (option) runWorker ::
  "('q, 'w) env \<Rightarrow> ('q, 'w) Controller \<Rightarrow> ('q, 'w) Controller option" where
  "runWorker e s =
     (case processNextWorkItem e s of
        None \<Rightarrow> None
      | Some (s', continue) \<Rightarrow> if continue then runWorker e s' else Some s')"

section \<open>Handlers\<close>

definition addPodToCache :: "('q, 'w) env \<Rightarrow> ('q, 'w) Controller \<Rightarrow> obj \<Rightarrow> ('q, 'w) Controller" where
  "addPodToCache e s obj =
     (case obj of
        PodObj pod \<Rightarrow>
          (case KeyFunc e pod of
             Inl _ \<Rightarrow> s
           | Inr podKey \<Rightarrow> s\<lparr>podQueue := wq_Add e podKey (podQueue s)\<rparr>)
      | _ \<Rightarrow> s)"

definition updatePodInCache :: "('q, 'w) env \<Rightarrow> ('q, 'w) Controller \<Rightarrow> obj \<Rightarrow> obj \<Rightarrow> ('q, 'w) Controller" where
  "updatePodInCache e s oldObj newObj =
     (case (oldObj, newObj) of
        (PodObj oldPod, PodObj newPod) \<Rightarrow>
          if pod_ResourceVersion oldPod = pod_ResourceVersion newPod then s
          else if Cache_KnownPod (manager s) oldPod \<and> IsCompletedPod newPod \<and> IsBindingBoard newPod
          then (case KeyFunc e newPod of
                  Inl _ \<Rightarrow> s
                | Inr podKey \<Rightarrow> s\<lparr>podQueue := wq_Add e podKey (podQueue s)\<rparr>)
          else s
      | _ \<Rightarrow> s)"

definition deletePodFromCache :: "('q, 'w) Controller \<Rightarrow> obj \<Rightarrow> ('q, 'w) Controller" where
  "deletePodFromCache s obj =
     (case obj of
        PodObj pod \<Rightarrow> s\<lparr>manager := fst (releasePod (manager s) pod)\<rparr>
      | DeletedFinalStateUnknown (PodObj pod) \<Rightarrow> s\<lparr>manager := fst (releasePod (manager s) pod)\<rparr>
      | _ \<Rightarrow> s)"

definition addNodeToCache :: "('q, 'w) env \<Rightarrow> ('q, 'w) Controller \<Rightarrow> obj \<Rightarrow> ('q, 'w) Controller outcome" where
  "addNodeToCache e s obj =
     (case obj of
        NodeObj node \<Rightarrow>
          if node_DeletionTimestamp node \<noteq> None
          then Ret (s\<lparr>manager := fst (Cache_DeleteNode (manager s) node)\<rparr>)
          else (let pods = fst (getActivePodInNode e (world s) (node_Name node))
                in Ret (s\<lparr>manager := fst (Cache_AddNode (manager s) node pods)\<rparr>))
      | _ \<Rightarrow> Panic)"

definition updateNodeInCache ::
  "('q, 'w) env \<Rightarrow> ('q, 'w) Controller \<Rightarrow> obj \<Rightarrow> obj \<Rightarrow> ('q, 'w) Controller outcome" where
  "updateNodeInCache e s obj newobj =
     (case (obj, newobj) of
        (NodeObj oldNode, NodeObj newNode) \<Rightarrow>
          if node_DeletionTimestamp newNode \<noteq> None
          then Ret (s\<lparr>manager := fst (Cache_DeleteNode (manager s) newNode)\<rparr>)
          else (let pods = fst (getActivePodInNode e (world s) (node_Name newNode))
                in Ret (s\<lparr>manager := fst (Cache_UpdateNode (manager s) oldNode newNode pods)\<rparr>))
      | _ \<Rightarrow> Panic)"

definition deleteNodeFromCache :: "('q, 'w) Controller \<Rightarrow> obj \<Rightarrow> ('q, 'w) Controller" where
  "deleteNodeFromCache s obj =
     (case obj of
        NodeObj node \<Rightarrow> s\<lparr>manager := fst (Cache_DeleteNode (manager s) node)\<rparr>
      | DeletedFinalStateUnknown (NodeObj node) \<Rightarrow> s\<lparr>manager := fst (Cache_DeleteNode (manager s) node)\<rparr>
      | _ \<Rightarrow> s)"

end
