(* ===== verification/ControllerFacts.thy ===== *)
theory ControllerFacts
  imports Controller
begin

text \<open>
  Lemmas on the controller: releasing twice is releasing once, the worker returns after the
  first item it syncs, a node rebuilt from the lister holds exactly the slots of its active
  bound pods, and every handler is one step of the cache machine.
\<close>

section \<open>Releasing\<close>

lemma NodeInfo_deletePod_idem:
  "fst (NodeInfo_deletePod (fst (NodeInfo_deletePod ni pod)) pod) = fst (NodeInfo_deletePod ni pod)"
proof (cases "bind_board pod")
  case None
  then have "fst (NodeInfo_deletePod mi pod) = mi" for mi
    by (auto simp: NodeInfo_deletePod_def bind_board_def split: option.split)
  then show ?thesis by simp
next
  case (Some b)
  then have ann: "fmlookup (pod_Annotations pod) AnnotationPodBindToBoard \<noteq> None"
    by (auto simp: bind_board_Some)
  have gone: "fst (NodeInfo_deletePod mi pod) = mi" if "\<not> has_key (Pods mi) (pod_UID pod)" for mi
    using deletePod_unknown [OF ann that] by simp
  show ?thesis
  proof (cases "has_key (Pods ni) (pod_UID pod)")
    case True
    show ?thesis
    proof (cases "fits_board (Requested ni) (BuildRequestOrinSet pod) b")
      case True
      then have "\<not> has_key (Pods (fst (NodeInfo_deletePod ni pod))) (pod_UID pod)"
        by (simp add: deletePod_eq [OF Some \<open>has_key (Pods ni) (pod_UID pod)\<close>])
      from gone [OF this] show ?thesis by simp
    next
      case False
      then have "fst (NodeInfo_deletePod ni pod) = ni"
        by (simp add: deletePod_eq [OF Some \<open>has_key (Pods ni) (pod_UID pod)\<close>])
      then show ?thesis by simp
    qed
  next
    case False
    from gone [OF this] show ?thesis by simp
  qed
qed

lemma fst_Cache_DeletePod:
  "fst (Cache_DeletePod c pod) =
     (if pod_NodeName pod = [] \<or> fmlookup (pod_Annotations pod) AnnotationPodBindToBoard = None then c
      else (case fmlookup (nodeCache c) (pod_NodeName pod) of
              None \<Rightarrow> c
            | Some ni \<Rightarrow>
                (let c' = set_node c (pod_NodeName pod) (fst (NodeInfo_deletePod ni pod))
                 in if snd (NodeInfo_deletePod ni pod) = None \<and> has_key (podMaps c) (pod_UID pod)
                    then c'\<lparr>podMaps := fmdrop (pod_UID pod) (podMaps c),
                            releasedPod := finsert (pod_UID pod) (releasedPod c)\<rparr>
                    else c')))"
  by (auto simp: Cache_DeletePod_def Let_def split: option.split prod.split)

lemma Cache_DeletePod_idem:
  "fst (Cache_DeletePod (fst (Cache_DeletePod c pod)) pod) = fst (Cache_DeletePod c pod)"
proof (cases "pod_NodeName pod = [] \<or> fmlookup (pod_Annotations pod) AnnotationPodBindToBoard = None")
  case True
  then show ?thesis by (simp add: fst_Cache_DeletePod)
next
  case False
  show ?thesis
  proof (cases "fmlookup (nodeCache c) (pod_NodeName pod)")
    case None
    with False show ?thesis by (simp add: fst_Cache_DeletePod)
  next
    case (Some ni)
    let ?d = "NodeInfo_deletePod ni pod"
    let ?d2 = "NodeInfo_deletePod (fst ?d) pod"
    have d2: "fst ?d2 = fst ?d" by (rule NodeInfo_deletePod_idem)
    have err: "snd ?d2 \<noteq> None \<or> snd ?d = None"
    proof (cases "snd ?d")
      case (Some e)
      have "fst ?d = ni"
        using Some by (auto simp: NodeInfo_deletePod_def Let_def split: option.splits sum.splits)
      with Some show ?thesis by simp
    qed simp
    have "fmupd n (fst ?d) (fmupd n (fst ?d) (nodeCache c)) = fmupd n (fst ?d) (nodeCache c)" for n
      by (rule fmap_ext) simp
    with False Some d2 err show ?thesis
      by (auto simp: fst_Cache_DeletePod Let_def)
  qed
qed

section \<open>The worker\<close>

lemma processNextWorkItem_continue:
  "processNextWorkItem e s = Some (s', r) \<Longrightarrow>
   r \<longleftrightarrow> (\<exists>key q. wq_Get e (podQueue s) = Item key q \<and>
            snd (snd (syncPod e (s\<lparr>podQueue := q\<rparr>) key)) \<noteq> None)"
  by (auto simp: processNextWorkItem_def Let_def split: got.splits prod.splits option.splits if_splits)

lemma runWorker_stop: "processNextWorkItem e s = Some (s', False) \<Longrightarrow> runWorker e s = Some s'"
  by (subst runWorker.simps) simp

lemma runWorker_retry: "processNextWorkItem e s = Some (s', True) \<Longrightarrow> runWorker e s = runWorker e s'"
  by (subst runWorker.simps) simp

lemma syncPod_queue [simp]: "podQueue (fst (syncPod e s key)) = podQueue s"
  by (auto simp: syncPod_def assignPod_def Let_def split: sum.split prod.split option.split lister_error.split)

lemma processNextWorkItem_Item:
  assumes "wq_Get e (podQueue s) = Item key q"
  shows "processNextWorkItem e s =
     (let (s1, forget, err) = syncPod e (s\<lparr>podQueue := q\<rparr>) key
      in Some (s1\<lparr>podQueue := wq_Done e key
                 (if err \<noteq> None then wq_AddRateLimited e key q else if forget then wq_Forget e key q else q)\<rparr>,
               err \<noteq> None))"
proof -
  obtain s1 forget err where sync: "syncPod e (s\<lparr>podQueue := q\<rparr>) key = (s1, forget, err)"
    by (metis prod_cases3)
  then have "podQueue s1 = q" using syncPod_queue [of e "s\<lparr>podQueue := q\<rparr>" key] by simp
  with assms sync show ?thesis
    by (auto simp: processNextWorkItem_def Let_def split: option.split)
qed

lemma syncPod_success_forgets: "snd (snd (syncPod e s key)) = None \<Longrightarrow> fst (snd (syncPod e s key))"
  by (auto simp: syncPod_def split: sum.splits prod.splits option.splits lister_error.splits if_splits)

section \<open>Rebuilding a node\<close>

lemma compatible_absent:
  "node_sound ni \<Longrightarrow> compatible ni ps \<Longrightarrow> has_key (Pods ni) u \<Longrightarrow>
   find (\<lambda>q. pod_UID q = u \<and> bind_board q \<noteq> None) ps = None"
proof (induction ps arbitrary: ni)
  case (Cons p ps)
  show ?case
  proof (cases "bind_board p")
    case None
    with Cons show ?thesis by (simp add: addPod_ignored)
  next
    case (Some b)
    let ?ni = "fst (NodeInfo_addPod ni p)"
    have prems: "\<not> has_key (Pods ni) (pod_UID p)" "fits_board (Allocatable ni) (BuildRequestOrinSet p) b"
      "compatible ?ni ps" using Cons.prems(2) Some by simp_all
    have sound: "node_sound ?ni" by (rule node_sound_addPod(1) [OF Cons.prems(1) prems(1) Some prems(2)])
    have "Pods ?ni = fmupd (pod_UID p) p (Pods ni)"
      using addPod_exclusive [OF _ _ prems(1) Some prems(2)] Cons.prems(1) by (auto simp: node_sound_def)
    then have "has_key (Pods ?ni) u" using Cons.prems(3) by simp
    moreover have "pod_UID p \<noteq> u" using prems(1) Cons.prems(3) by auto
    ultimately show ?thesis using Cons.IH [OF sound prems(3)] by simp
  qed
qed simp

lemma Pods_add_pods:
  "node_sound ni \<Longrightarrow> compatible ni ps \<Longrightarrow>
   fmlookup (Pods (add_pods ni ps)) u =
     (case find (\<lambda>p. pod_UID p = u \<and> bind_board p \<noteq> None) ps of
        None \<Rightarrow> fmlookup (Pods ni) u
      | Some p \<Rightarrow> Some p)"
proof (induction ps arbitrary: ni)
  case Nil
  then show ?case by simp
next
  case (Cons p ps)
  show ?case
  proof (cases "bind_board p")
    case None
    with Cons show ?thesis by (simp add: addPod_ignored)
  next
    case (Some b)
    let ?ni = "fst (NodeInfo_addPod ni p)"
    have prems: "\<not> has_key (Pods ni) (pod_UID p)" "fits_board (Allocatable ni) (BuildRequestOrinSet p) b"
      "compatible ?ni ps" using Cons.prems(2) Some by simp_all
    have sound: "node_sound ?ni" by (rule node_sound_addPod(1) [OF Cons.prems(1) prems(1) Some prems(2)])
    have pods: "Pods ?ni = fmupd (pod_UID p) p (Pods ni)"
      using addPod_exclusive [OF _ _ prems(1) Some prems(2)] Cons.prems(1) by (auto simp: node_sound_def)
    have later: "find (\<lambda>q. pod_UID q = pod_UID p \<and> bind_board q \<noteq> None) ps = None"
      using compatible_absent [OF sound prems(3), of "pod_UID p"] by (simp add: pods)
    show ?thesis
      using Cons.IH [OF sound prems(3)] Some later by (auto simp: pods split: option.split)
  qed
qed

lemma compatible_unique:
  "node_sound ni \<Longrightarrow> compatible ni ps \<Longrightarrow> p \<in> set ps \<Longrightarrow> bind_board p \<noteq> None \<Longrightarrow>
   find (\<lambda>q. pod_UID q = pod_UID p \<and> bind_board q \<noteq> None) ps = Some p"
proof (induction ps arbitrary: ni)
  case (Cons q ps)
  show ?case
  proof (cases "bind_board q")
    case None
    with Cons show ?thesis by (auto simp: addPod_ignored)
  next
    case (Some b)
    let ?ni = "fst (NodeInfo_addPod ni q)"
    have prems: "\<not> has_key (Pods ni) (pod_UID q)" "fits_board (Allocatable ni) (BuildRequestOrinSet q) b"
      "compatible ?ni ps" using Cons.prems(2) Some by simp_all
    have sound: "node_sound ?ni" by (rule node_sound_addPod(1) [OF Cons.prems(1) prems(1) Some prems(2)])
    have "Pods ?ni = fmupd (pod_UID q) q (Pods ni)"
      using addPod_exclusive [OF _ _ prems(1) Some prems(2)] Cons.prems(1) by (auto simp: node_sound_def)
    then have "find (\<lambda>r. pod_UID r = pod_UID q \<and> bind_board r \<noteq> None) ps = None"
      by (intro compatible_absent [OF sound prems(3)]) simp
    then have "pod_UID p \<noteq> pod_UID q" if "p \<in> set ps"
      using that Cons.prems(4) by (auto simp: find_None_iff)
    then show ?thesis using Cons.IH [OF sound prems(3)] Cons.prems(3,4) Some by auto
  qed
qed simp

lemma slots_NewNodeInfo:
  assumes "compatible (NewNodeInfo node []) pods"
  shows "slots (Requested (NewNodeInfo node pods)) = (\<Union>p \<in> set pods. pod_slots p)"
    and "slots (Allocatable (NewNodeInfo node pods)) = slots (node_total node) - (\<Union>p \<in> set pods. pod_slots p)"
proof -
  have sound: "node_sound (NewNodeInfo node pods)" by (rule NewNodeInfo_sound [OF assms])
  have look: "fmlookup (Pods (NewNodeInfo node pods)) u =
      find (\<lambda>p. pod_UID p = u \<and> bind_board p \<noteq> None) pods" for u
    unfolding NewNodeInfo_add_pods [of node pods] Pods_add_pods [OF NewNodeInfo_nil_sound assms]
    by (simp add: NewNodeInfo_def split: option.split)
  have "held_slots (Pods (NewNodeInfo node pods)) = (\<Union>p \<in> set pods. pod_slots p)"
  proof (intro set_eqI iffI)
    fix s assume "s \<in> held_slots (Pods (NewNodeInfo node pods))"
    then show "s \<in> (\<Union>p \<in> set pods. pod_slots p)"
      by (auto simp: held_slots_def look find_Some_iff)
  next
    fix s assume "s \<in> (\<Union>p \<in> set pods. pod_slots p)"
    then obtain p where p: "p \<in> set pods" "s \<in> pod_slots p" by blast
    then have "bind_board p \<noteq> None" by (cases "bind_board p") (simp_all add: pod_slots_def)
    with p(1) obtain q where q: "find (\<lambda>q. pod_UID q = pod_UID p \<and> bind_board q \<noteq> None) pods = Some q"
      by (cases "find (\<lambda>q. pod_UID q = pod_UID p \<and> bind_board q \<noteq> None) pods") (auto simp: find_None_iff)
    have "q = p" using compatible_unique [OF NewNodeInfo_nil_sound assms p(1) \<open>bind_board p \<noteq> None\<close>] q by simp
    with p q show "s \<in> held_slots (Pods (NewNodeInfo node pods))"
      by (auto simp: held_slots_def look)
  qed
  then show "slots (Requested (NewNodeInfo node pods)) = (\<Union>p \<in> set pods. pod_slots p)"
    using sound by (simp add: node_sound_def ni_exclusive_def)
  then show "slots (Allocatable (NewNodeInfo node pods)) = slots (node_total node) - (\<Union>p \<in> set pods. pod_slots p)"
    using sound ni_inv_slots [of "NewNodeInfo node pods"] by (simp add: node_sound_def del: slots_iff)
qed

section \<open>Handlers as steps\<close>

text \<open>What the environment owes: the listed pods fit on the node they are listed with.\<close>

definition listed_fit :: "('q, 'w) env \<Rightarrow> 'w \<Rightarrow> Node \<Rightarrow> string \<Rightarrow> bool" where
  "listed_fit e w node name \<longleftrightarrow> compatible (NewNodeInfo node []) (fst (getActivePodInNode e w name))"

definition placed_as_cached :: "scheduleCache \<Rightarrow> Pod \<Rightarrow> bool" where
  "placed_as_cached c pod \<longleftrightarrow>
     (\<forall>ni. fmlookup (nodeCache c) (pod_NodeName pod) = Some ni \<longrightarrow> same_placement ni pod)"

lemma addNodeToCache_step:
  assumes "listed_fit e (world s) node (node_Name node)"
  shows "\<exists>s'. addNodeToCache e s (NodeObj node) = Ret s' \<and> cache_step (manager s) (manager s') \<and>
     podQueue s' = podQueue s \<and> world s' = world s"
  using assms by (auto simp: addNodeToCache_def listed_fit_def Let_def intro: cache_step.intros)

lemma updateNodeInCache_step:
  assumes "listed_fit e (world s) old (node_Name new)" "listed_fit e (world s) new (node_Name new)"
  shows "\<exists>s'. updateNodeInCache e s (NodeObj old) (NodeObj new) = Ret s' \<and> cache_step (manager s) (manager s') \<and>
     podQueue s' = podQueue s \<and> world s' = world s"
  using assms by (auto simp: updateNodeInCache_def listed_fit_def Let_def intro: cache_step.intros)

lemma deleteNodeFromCache_step:
  "cache_step (manager s) (manager (deleteNodeFromCache s (NodeObj node)))"
  by (simp add: deleteNodeFromCache_def cache_step.node_deleted)

lemma deletePodFromCache_step:
  "placed_as_cached (manager s) pod \<Longrightarrow> cache_step (manager s) (manager (deletePodFromCache s (PodObj pod)))"
  by (auto simp: deletePodFromCache_def releasePod_def placed_as_cached_def intro: cache_step.pod_released)

end
