(* ===== verification/DeviceTypes.thy ===== *)
theory DeviceTypes
  imports GoStd "HOL-Library.Char_ord" "HOL-Library.List_Lexorder" "HOL-Library.Multiset"
begin

text \<open>
  \<open>pkg/device/types\<close>: \<open>Device\<close> of \<open>device.go\<close>, a sorted list of device ids with a short
  hash, and \<open>PodContainer\<close> and \<open>PodInfo\<close> of \<open>pod.go\<close>. The digest \<open>sha\<close>, which gives the
  hexadecimal SHA-256 of a text, and the JSON codec are arguments: \<open>Equals\<close> is right for
  any digest, since it also compares the lists, and the key and value of a \<open>PodInfo\<close> round-trip
  for any codec that round-trips.
\<close>

section \<open>device.go\<close>

record Device =
  Hash :: string
  dev_List :: "string list"
  ResourceName :: string

definition clone :: "string list \<Rightarrow> string list" where
  "clone xs = map (\<lambda>i. xs ! i) [0..<length xs]"

definition hash :: "(string \<Rightarrow> string) \<Rightarrow> string list \<Rightarrow> string" where
  "hash sha deviceList = take 8 (sha (Join deviceList '':''))"

definition NewDevice :: "(string \<Rightarrow> string) \<Rightarrow> string list \<Rightarrow> string \<Rightarrow> Device" where
  "NewDevice sha deviceList resourceName =
     (let curr = sort (clone deviceList)
      in \<lparr>Hash = hash sha curr, dev_List = curr, ResourceName = resourceName\<rparr>)"

fun equals_from :: "string list \<Rightarrow> string list \<Rightarrow> bool" where
  "equals_from (a # as) (b # bs) = (if a \<noteq> b then False else equals_from as bs)"
| "equals_from _ _ = True"

definition equals :: "string list \<Rightarrow> string list \<Rightarrow> bool" where
  "equals a b = (if length a \<noteq> length b then False else equals_from a b)"

definition Device_Equals :: "Device \<Rightarrow> Device \<Rightarrow> bool" where
  "Device_Equals d e = (Hash d = Hash e \<and> equals (dev_List d) (dev_List e) \<and> ResourceName d = ResourceName e)"

lemma clone_id [simp]: "clone xs = xs"
  by (simp add: clone_def map_nth)

lemma equals_from_iff: "length a = length b \<Longrightarrow> equals_from a b \<longleftrightarrow> a = b"
  by (induction a b rule: equals_from.induct) auto

lemma equals_iff [simp]: "equals a b \<longleftrightarrow> a = b"
  using equals_from_iff [of a b] by (auto simp: equals_def)

lemma sort_eq_iff: "sort xs = sort ys \<longleftrightarrow> mset xs = mset (ys :: 'a :: linorder list)"
proof
  assume "sort xs = sort ys"
  from arg_cong [OF this, of mset] show "mset xs = mset ys" by simp
next
  assume "mset xs = mset ys"
  then show "sort xs = sort ys" by (intro properties_for_sort) simp_all
qed

lemma NewDevice_Equals:
  "Device_Equals (NewDevice sha xs r) (NewDevice sha ys s) \<longleftrightarrow> mset xs = mset ys \<and> r = s"
  by (auto simp: Device_Equals_def NewDevice_def Let_def sort_eq_iff [symmetric])

section \<open>pod.go\<close>

record PodContainer =
  pc_Namespace :: string
  pc_Name :: string
  pc_Container :: string

definition PodContainer_String :: "PodContainer \<Rightarrow> string" where
  "PodContainer_String pc = pc_Namespace pc @ ''/'' @ pc_Name pc @ '':'' @ pc_Container pc"

definition PodContainer_Pod :: "PodContainer \<Rightarrow> string" where
  "PodContainer_Pod pc = pc_Namespace pc @ ''/'' @ pc_Name pc"

record PodInfo =
  pi_Namespace :: string
  pi_Name :: string
  ContainerDeviceMap :: "(string, Device) fmap"

record json_codec =
  json_Marshal :: "(string, Device) fmap \<Rightarrow> string"
  json_Unmarshal :: "string \<Rightarrow> (string, Device) fmap \<Rightarrow> (string, Device) fmap \<times> string option"

definition NewPI :: "string \<Rightarrow> string \<Rightarrow> PodInfo" where
  "NewPI namespace name = \<lparr>pi_Namespace = namespace, pi_Name = name, ContainerDeviceMap = fmempty\<rparr>"

definition NewPIFromRaw :: "json_codec \<Rightarrow> string \<Rightarrow> string \<Rightarrow> string + PodInfo" where
  "NewPIFromRaw js key val =
     (let arr = SplitChar key CHR ''/''
      in if length arr \<noteq> 2 then Inl (''error key format: '' @ key)
         else (let pi = NewPI (arr ! 0) (arr ! 1)
               in case json_Unmarshal js val (ContainerDeviceMap pi) of
                    (m, Some err) \<Rightarrow> Inl (''error val format: '' @ err)
                  | (m, None) \<Rightarrow> Inr (pi\<lparr>ContainerDeviceMap := m\<rparr>)))"

definition PodInfo_Key :: "PodInfo \<Rightarrow> string" where
  "PodInfo_Key i = PathJoin [pi_Namespace i, pi_Name i]"

definition PodInfo_Val :: "json_codec \<Rightarrow> PodInfo \<Rightarrow> string" where
  "PodInfo_Val js i = json_Marshal js (ContainerDeviceMap i)"

definition PodInfo_SetVal :: "json_codec \<Rightarrow> PodInfo \<Rightarrow> string \<Rightarrow> PodInfo \<times> string option" where
  "PodInfo_SetVal js i val =
     (case json_Unmarshal js val (ContainerDeviceMap i) of (m, err) \<Rightarrow> (i\<lparr>ContainerDeviceMap := m\<rparr>, err))"

definition json_ok :: "json_codec \<Rightarrow> (string, Device) fmap \<Rightarrow> bool" where
  "json_ok js m \<longleftrightarrow> json_Unmarshal js (json_Marshal js m) fmempty = (m, None)"

lemma PodInfo_Key_plain:
  "plain_segment (pi_Namespace i) \<Longrightarrow> plain_segment (pi_Name i) \<Longrightarrow>
   PodInfo_Key i = pi_Namespace i @ ''/'' @ pi_Name i"
  by (simp add: PodInfo_Key_def PathJoin_plain)

lemma SplitChar_PodInfo_Key:
  assumes "plain_segment (pi_Namespace i)" "plain_segment (pi_Name i)"
  shows "SplitChar (PodInfo_Key i) CHR ''/'' = [pi_Namespace i, pi_Name i]"
  using assms SplitChar_append [of "CHR ''/''" "pi_Namespace i" "pi_Name i"]
  by (simp add: PodInfo_Key_plain plain_segment_def SplitChar_no_sep)

lemma NewPIFromRaw_Key_Val:
  assumes "plain_segment (pi_Namespace i)" "plain_segment (pi_Name i)" "json_ok js (ContainerDeviceMap i)"
  shows "NewPIFromRaw js (PodInfo_Key i) (PodInfo_Val js i) = Inr i"
  using assms
  by (simp add: NewPIFromRaw_def SplitChar_PodInfo_Key NewPI_def PodInfo_Val_def json_ok_def)

lemma PodInfo_Key_inj:
  assumes "plain_segment (pi_Namespace i)" "plain_segment (pi_Name i)"
    "plain_segment (pi_Namespace j)" "plain_segment (pi_Name j)" "PodInfo_Key i = PodInfo_Key j"
  shows "pi_Namespace i = pi_Namespace j \<and> pi_Name i = pi_Name j"
  using SplitChar_PodInfo_Key [OF assms(1,2)] SplitChar_PodInfo_Key [OF assms(3,4)] assms(5) by simp

end
