(* ===== verification/PodResources.thy ===== *)
theory PodResources
  imports K8sObjects
begin

text \<open>
  \<open>pkg/device/podresources\<close>: the messages of the kubelet's pod-resources API the program
  reads, the lister server of \<open>server.go\<close>, and the endpoint handling of \<open>client.go\<close>. The
  package \<open>net/url\<close> and the gRPC dialer are arguments. \<open>GetAddressAndDialer\<close> returns the
  package's one dial function with the address, so the model returns the address.
\<close>

record ContainerDevices =
  cd_ResourceName :: string
  DeviceIds :: "string list"

record ContainerResources =
  cr_Name :: string
  Devices :: "ContainerDevices list"

record PodResources =
  pr_Name :: string
  pr_Namespace :: string
  pr_Containers :: "ContainerResources list"

section \<open>server.go\<close>

definition podResourcesServer_List ::
  "Pod list \<Rightarrow> (string \<Rightarrow> string \<Rightarrow> ContainerDevices list) \<Rightarrow> PodResources list" where
  "podResourcesServer_List pods getDevices =
     map (\<lambda>pod. \<lparr>pr_Name = pod_Name pod, pr_Namespace = pod_Namespace pod,
                 pr_Containers = map (\<lambda>container. \<lparr>cr_Name = c_Name container,
                                        Devices = getDevices (pod_UID pod) (c_Name container)\<rparr>)
                               (pod_Containers pod)\<rparr>) pods"

section \<open>client.go\<close>

record URL =
  Scheme :: string
  Host :: string
  Path :: string

record net_url =
  url_String :: "string \<Rightarrow> string \<Rightarrow> string"
  url_Parse :: "string \<Rightarrow> string + URL"

datatype endpoint_error =
    UrlError string
  | DeprecatedEndpoint string
  | ProtocolNotSupported string
  | OnlyUnix

definition unixProtocol :: string where
  "unixProtocol = ''unix''"

definition PodResourceRoot :: string where
  "PodResourceRoot = ''/var/lib/kubelet/pod-resources''"

definition Socket :: string where
  "Socket = ''kubelet''"

definition LocalEndpoint :: "net_url \<Rightarrow> string \<Rightarrow> string \<Rightarrow> string" where
  "LocalEndpoint u path file = PathJoin [url_String u unixProtocol path, file @ ''.sock'']"

definition parseEndpoint :: "net_url \<Rightarrow> string \<Rightarrow> string \<times> string \<times> endpoint_error option" where
  "parseEndpoint n endpoint =
     (case url_Parse n endpoint of
        Inl err \<Rightarrow> ([], [], Some (UrlError err))
      | Inr u \<Rightarrow>
          if Scheme u = ''tcp'' then (''tcp'', Host u, None)
          else if Scheme u = ''unix'' then (''unix'', Path u, None)
          else if Scheme u = [] then ([], [], Some (DeprecatedEndpoint endpoint))
          else (Scheme u, [], Some (ProtocolNotSupported (Scheme u))))"

definition parseEndpointWithFallbackProtocol ::
  "net_url \<Rightarrow> string \<Rightarrow> string \<Rightarrow> string \<times> string \<times> endpoint_error option" where
  "parseEndpointWithFallbackProtocol n endpoint fallbackProtocol =
     (let (protocol, addr, err) = parseEndpoint n endpoint
      in if err \<noteq> None \<and> protocol = []
         then parseEndpoint n (fallbackProtocol @ ''://'' @ endpoint)
         else (protocol, addr, err))"

definition GetAddressAndDialer :: "net_url \<Rightarrow> string \<Rightarrow> endpoint_error + string" where
  "GetAddressAndDialer n endpoint =
     (case parseEndpointWithFallbackProtocol n endpoint unixProtocol of
        (_, _, Some err) \<Rightarrow> Inl err
      | (protocol, addr, None) \<Rightarrow> if protocol \<noteq> unixProtocol then Inl OnlyUnix else Inr addr)"

record ('w, 'cl) grpc =
  DialContext :: "'w \<Rightarrow> string \<Rightarrow> 'w \<times> (string + 'cl)"
  ListPodResources :: "'w \<Rightarrow> 'cl \<Rightarrow> 'w \<times> (string + PodResources list)"
  CloseConn :: "'w \<Rightarrow> 'cl \<Rightarrow> 'w \<times> string option"

datatype client_error = EndpointError endpoint_error | DialError string string | ListError string

definition GetClient ::
  "net_url \<Rightarrow> ('w, 'cl) grpc \<Rightarrow> 'w \<Rightarrow> string \<Rightarrow> 'w \<times> (client_error + 'cl)" where
  "GetClient n g w socket =
     (case GetAddressAndDialer n socket of
        Inl err \<Rightarrow> (w, Inl (EndpointError err))
      | Inr addr \<Rightarrow>
          (case DialContext g w addr of
             (w', Inl err) \<Rightarrow> (w', Inl (DialError socket err))
           | (w', Inr cl) \<Rightarrow> (w', Inr cl)))"

lemma GetAddressAndDialer_iff:
  "GetAddressAndDialer n e = Inr addr \<longleftrightarrow>
     (\<exists>u. Path u = addr \<and> Scheme u = ''unix'' \<and>
        (url_Parse n e = Inr u \<or>
         (case url_Parse n e of Inl _ \<Rightarrow> True | Inr v \<Rightarrow> Scheme v = []) \<and> url_Parse n (''unix://'' @ e) = Inr u))"
proof (cases "url_Parse n e")
  case (Inl err)
  then show ?thesis
    by (cases "url_Parse n (''unix://'' @ e)")
      (auto simp: GetAddressAndDialer_def parseEndpointWithFallbackProtocol_def parseEndpoint_def unixProtocol_def)
next
  case (Inr u)
  then show ?thesis
    by (cases "url_Parse n (''unix://'' @ e)")
      (auto simp: GetAddressAndDialer_def parseEndpointWithFallbackProtocol_def parseEndpoint_def unixProtocol_def)
qed

end
