(* ===== verification/Locator.thy ===== *)
theory Locator
  imports DeviceTypes PodResources
begin

text \<open>
  \<open>pkg/device/kubeapis/locator.go\<close>: finding the container that was given a list of devices
  through the kubelet's pod-resources API. The locator keeps its connection and the error
  of the last call, and dials again after an error. Its lock makes \<open>Locate\<close> atomic; \<open>List\<close>
  and \<open>Close\<close> follow the client and the connection without looking at the error, so they
  panic on a locator whose dial failed.

  Older kubelets report all ids of a container in one entry, newer ones one id per entry.
  \<open>holds\<close> covers both: an entry with exactly these ids, or all entries together.
\<close>

record 'cl KubeletDeviceLocator =
  loc_err :: "client_error option"
  loc_resource :: string
  client :: "'cl option"

definition default_endpoint :: "net_url \<Rightarrow> string" where
  "default_endpoint n = LocalEndpoint n PodResourceRoot Socket"

definition NewKubeletDeviceLocator ::
  "net_url \<Rightarrow> ('w, 'cl) grpc \<Rightarrow> 'w \<Rightarrow> string \<Rightarrow> 'w \<times> 'cl KubeletDeviceLocator" where
  "NewKubeletDeviceLocator n g w resource =
     (case GetClient n g w (default_endpoint n) of
        (w', Inl err) \<Rightarrow> (w', \<lparr>loc_err = Some err, loc_resource = resource, client = None\<rparr>)
      | (w', Inr cl) \<Rightarrow> (w', \<lparr>loc_err = None, loc_resource = resource, client = Some cl\<rparr>))"

section \<open>Searching a response\<close>

text \<open>The loop over one container's entries: found early, or the ids collected.\<close>

fun scan_devices ::
  "(string \<Rightarrow> string) \<Rightarrow> string \<Rightarrow> Device \<Rightarrow> ContainerDevices list \<Rightarrow> string list \<Rightarrow> string list option" where
  "scan_devices sha resource devices [] deviceIds = Some deviceIds"
| "scan_devices sha resource devices (r # rs) deviceIds =
     (if cd_ResourceName r = resource
      then (if Device_Equals devices (NewDevice sha (DeviceIds r) (cd_ResourceName r))
            then None
            else scan_devices sha resource devices rs (deviceIds @ DeviceIds r))
      else scan_devices sha resource devices rs deviceIds)"

fun scan_containers ::
  "(string \<Rightarrow> string) \<Rightarrow> string \<Rightarrow> Device \<Rightarrow> PodResources \<Rightarrow> ContainerResources list \<Rightarrow> PodContainer option" where
  "scan_containers sha resource devices pod [] = None"
| "scan_containers sha resource devices pod (container # cs) =
     (let here = \<lparr>pc_Namespace = pr_Namespace pod, pc_Name = pr_Name pod, pc_Container = cr_Name container\<rparr>
      in case scan_devices sha resource devices (Devices container) [] of
           None \<Rightarrow> Some here
         | Some deviceIds \<Rightarrow>
             if Device_Equals devices (NewDevice sha deviceIds resource) then Some here
             else scan_containers sha resource devices pod cs)"

fun scan_pods ::
  "(string \<Rightarrow> string) \<Rightarrow> string \<Rightarrow> Device \<Rightarrow> PodResources list \<Rightarrow> PodContainer option" where
  "scan_pods sha resource devices [] = None"
| "scan_pods sha resource devices (pod # ps) =
     (case scan_containers sha resource devices pod (pr_Containers pod) of
        None \<Rightarrow> scan_pods sha resource devices ps
      | Some pc \<Rightarrow> Some pc)"

datatype locate_error = ClientError client_error | NoSuchPod

definition Locate ::
  "net_url \<Rightarrow> ('w, 'cl) grpc \<Rightarrow> (string \<Rightarrow> string) \<Rightarrow> 'w \<Rightarrow> 'cl KubeletDeviceLocator \<Rightarrow> Device \<Rightarrow>
   (('w \<times> 'cl KubeletDeviceLocator) \<times> (locate_error + PodContainer)) outcome" where
  "Locate n g sha w k devices =
     (let (w1, k1) =
        (if loc_err k \<noteq> None
         then (case GetClient n g w (default_endpoint n) of
                 (w', Inl err) \<Rightarrow> (w', k\<lparr>client := None, loc_err := Some err\<rparr>)
               | (w', Inr cl) \<Rightarrow> (w', k\<lparr>client := Some cl, loc_err := None\<rparr>))
         else (w, k))
      in case loc_err k1 of
           Some err \<Rightarrow> Ret ((w1, k1), Inl (ClientError err))
         | None \<Rightarrow>
             (case client k1 of
                None \<Rightarrow> Panic
              | Some cl \<Rightarrow>
                  (case ListPodResources g w1 cl of
                     (w2, Inl err) \<Rightarrow>
                       Ret ((w2, k1\<lparr>loc_err := Some (ListError err)\<rparr>), Inl (ClientError (ListError err)))
                   | (w2, Inr response) \<Rightarrow>
                       (case scan_pods sha (loc_resource k1) devices response of
                          None \<Rightarrow> Ret ((w2, k1), Inl NoSuchPod)
                        | Some pc \<Rightarrow> Ret ((w2, k1), Inr pc)))))"

text \<open>\<open>List\<close>: the last entry of the resource wins in a container's device map.\<close>

definition pod_info :: "(string \<Rightarrow> string) \<Rightarrow> string \<Rightarrow> PodResources \<Rightarrow> PodInfo" where
  "pod_info sha resource pod =
     (NewPI (pr_Namespace pod) (pr_Name pod))\<lparr>ContainerDeviceMap :=
        fold (\<lambda>container m.
          fold (\<lambda>r m. if cd_ResourceName r = resource
                       then fmupd (cr_Name container) (NewDevice sha (DeviceIds r) resource) m
                       else m) (Devices container) m) (pr_Containers pod) fmempty\<rparr>"

definition Locator_List ::
  "('w, 'cl) grpc \<Rightarrow> (string \<Rightarrow> string) \<Rightarrow> 'w \<Rightarrow> 'cl KubeletDeviceLocator \<Rightarrow>
   ('w \<times> (string + PodInfo list)) outcome" where
  "Locator_List g sha w k =
     (case client k of
        None \<Rightarrow> Panic
      | Some cl \<Rightarrow>
          (case ListPodResources g w cl of
             (w', Inl err) \<Rightarrow> Ret (w', Inl err)
           | (w', Inr ans) \<Rightarrow> Ret (w', Inr (map (pod_info sha (loc_resource k)) ans))))"

definition Locator_Close ::
  "('w, 'cl) grpc \<Rightarrow> 'w \<Rightarrow> 'cl KubeletDeviceLocator \<Rightarrow> ('w \<times> string option) outcome" where
  "Locator_Close g w k = (case client k of None \<Rightarrow> Panic | Some conn \<Rightarrow> Ret (CloseConn g w conn))"

section \<open>What a search finds\<close>

definition ids_of :: "string \<Rightarrow> ContainerResources \<Rightarrow> string list" where
  "ids_of resource c = concat (map DeviceIds (filter (\<lambda>r. cd_ResourceName r = resource) (Devices c)))"

definition holds :: "string \<Rightarrow> string list \<Rightarrow> ContainerResources \<Rightarrow> bool" where
  "holds resource ids c \<longleftrightarrow>
     list_ex (\<lambda>r. cd_ResourceName r = resource \<and> mset (DeviceIds r) = mset ids) (Devices c) \<or>
     mset (ids_of resource c) = mset ids"

definition at_container :: "PodResources \<Rightarrow> ContainerResources \<Rightarrow> PodContainer" where
  "at_container pod c = \<lparr>pc_Namespace = pr_Namespace pod, pc_Name = pr_Name pod, pc_Container = cr_Name c\<rparr>"

definition all_containers :: "PodResources list \<Rightarrow> (PodResources \<times> ContainerResources) list" where
  "all_containers response = concat (map (\<lambda>p. map (Pair p) (pr_Containers p)) response)"

lemma scan_devices_eq:
  "scan_devices sha R (NewDevice sha ids R) rs acc =
     (if list_ex (\<lambda>r. cd_ResourceName r = R \<and> mset (DeviceIds r) = mset ids) rs then None
      else Some (acc @ concat (map DeviceIds (filter (\<lambda>r. cd_ResourceName r = R) rs))))"
  by (induction rs arbitrary: acc) (auto simp: NewDevice_Equals)

lemma scan_containers_eq:
  "scan_containers sha R (NewDevice sha ids R) pod cs =
     map_option (at_container pod) (find (holds R ids) cs)"
  by (induction cs)
    (auto simp: scan_devices_eq NewDevice_Equals Let_def holds_def ids_of_def at_container_def)

lemma find_append: "find P (xs @ ys) = (case find P xs of None \<Rightarrow> find P ys | Some x \<Rightarrow> Some x)"
  by (induction xs) auto

lemma find_map: "find P (map f xs) = map_option f (find (\<lambda>x. P (f x)) xs)"
  by (induction xs) auto

lemma scan_pods_eq:
  "scan_pods sha R (NewDevice sha ids R) response =
     map_option (\<lambda>q. at_container (fst q) (snd q)) (find (\<lambda>q. holds R ids (snd q)) (all_containers response))"
  by (induction response)
    (auto simp: all_containers_def scan_containers_eq find_append find_map split: option.split)

text \<open>In a response where no device is in two containers, the search is exact.\<close>

definition exclusive_devices :: "string \<Rightarrow> PodResources list \<Rightarrow> bool" where
  "exclusive_devices R response \<longleftrightarrow>
     distinct (map (\<lambda>q. at_container (fst q) (snd q)) (all_containers response)) \<and>
     (\<forall>x \<in> set (all_containers response). \<forall>y \<in> set (all_containers response).
        x \<noteq> y \<longrightarrow> set (ids_of R (snd x)) \<inter> set (ids_of R (snd y)) = {})"

lemma holds_shares:
  assumes "holds R ids c" "x \<in> set ids"
  shows "x \<in> set (ids_of R c)"
proof -
  have "set ids = set (ids_of R c)" if "mset (ids_of R c) = mset ids"
    using that by (metis set_mset_mset)
  moreover have "set ids \<subseteq> set (ids_of R c)"
    if "r \<in> set (Devices c)" "cd_ResourceName r = R" "mset (DeviceIds r) = mset ids" for r
  proof -
    have "set ids = set (DeviceIds r)" using that(3) by (metis set_mset_mset)
    then show ?thesis using that(1,2) by (auto simp: ids_of_def)
  qed
  ultimately show ?thesis using assms by (auto simp: holds_def list_ex_iff)
qed

lemma scan_pods_exact:
  assumes "exclusive_devices R response" "(p, c) \<in> set (all_containers response)"
    "mset (ids_of R c) = mset ids" "ids \<noteq> []"
  shows "scan_pods sha R (NewDevice sha ids R) response = Some (at_container p c)"
proof -
  have here: "holds R ids c" using assms(3) by (simp add: holds_def)
  have only: "q = (p, c)" if q: "q \<in> set (all_containers response)" "holds R ids (snd q)" for q
  proof (rule ccontr)
    assume "q \<noteq> (p, c)"
    with assms(1,2) q(1) have "set (ids_of R (snd q)) \<inter> set (ids_of R c) = {}"
      unfolding exclusive_devices_def by fastforce
    moreover have "hd ids \<in> set ids" using assms(4) by simp
    ultimately show False using holds_shares [OF q(2)] holds_shares [OF here] by blast
  qed
  obtain q where q: "find (\<lambda>q. holds R ids (snd q)) (all_containers response) = Some q"
    using assms(2) here
    by (cases "find (\<lambda>q. holds R ids (snd q)) (all_containers response)") (auto simp: find_None_iff)
  then have "q \<in> set (all_containers response)" "holds R ids (snd q)"
    by (auto simp: find_Some_iff split: prod.splits)
  from only [OF this] have "q = (p, c)" .
  with q show ?thesis by (simp add: scan_pods_eq)
qed

text \<open>An empty list of devices is in every container that has none.\<close>

lemma scan_pods_empty_ids:
  "ids_of R c = [] \<Longrightarrow> scan_pods sha R (NewDevice sha [] R) (\<lparr>pr_Name = n, pr_Namespace = ns, pr_Containers = c # cs\<rparr> # ps) =
     Some \<lparr>pc_Namespace = ns, pc_Name = n, pc_Container = cr_Name c\<rparr>"
  unfolding scan_pods_eq by (simp add: all_containers_def holds_def at_container_def)

end
