(* ===== verification/Provider.thy ===== *)
theory Provider
  imports Prelude
begin

text \<open>
  \<open>pkg/device/provider\<close>: the device provider that reads the boards of a node from a YAML
  file (\<open>file.go\<close>) and the interface the plugin uses (\<open>interface.go\<close>). Reading and decoding
  the file are arguments; a decoded file has no null entries.

  \<open>device_provider\<close> is the contract behind the interface: the classes, the boards and their
  orins describe one and the same relation between boards and orins. The file provider
  is its interpretation.
\<close>

record OrinSoc =
  soc_ID :: int
  soc_Name :: string
  soc_IP :: string

record BoardDevice =
  bd_ID :: int
  DeviceNum :: string
  DeviceType :: string
  ClusterName :: string
  Lidar :: bool
  Camera :: string
  OrinSocs :: "OrinSoc list"

record OrinFileDevice =
  NucIP :: string
  BoardDevices :: "BoardDevice list"

record FileDeviceProvider =
  FilePath :: string
  FileDevice :: OrinFileDevice

datatype attr = StrAttr string | BoolAttr bool

definition AttrKeyBoardDeviceNum :: string where "AttrKeyBoardDeviceNum = ''device_num''"
definition AttrKeyBoardDeviceType :: string where "AttrKeyBoardDeviceType = ''device_type''"
definition AttrKeyBoardClusterName :: string where "AttrKeyBoardClusterName = ''cluster_name''"
definition AttrKeyBoardLidar :: string where "AttrKeyBoardLidar = ''lidar''"
definition AttrKeyBoardCamera :: string where "AttrKeyBoardCamera = ''camera''"
definition AttrKeyOrinIp :: string where "AttrKeyOrinIp = ''ip''"
definition AttrKeyOrinName :: string where "AttrKeyOrinName = ''name''"

definition FileDeviceProviderName :: string where
  "FileDeviceProviderName = ''file''"

datatype ProviderFactory = OrinFileDeviceFactory

definition ProviderMap :: "(string, ProviderFactory) fmap" where
  "ProviderMap = fmap_of_list [(FileDeviceProviderName, OrinFileDeviceFactory)]"

section \<open>file.go\<close>

definition NewFileDeviceProvider ::
  "(string \<Rightarrow> string + string) \<Rightarrow> (string \<Rightarrow> string + OrinFileDevice) \<Rightarrow> string \<Rightarrow> string + FileDeviceProvider" where
  "NewFileDeviceProvider readFile unmarshal filePath =
     (case readFile filePath of
        Inl err \<Rightarrow> Inl err
      | Inr yamlData \<Rightarrow>
          (case unmarshal yamlData of
             Inl err \<Rightarrow> Inl err
           | Inr fod \<Rightarrow> Inr \<lparr>FilePath = filePath, FileDevice = fod\<rparr>))"

definition add_class :: "int \<Rightarrow> OrinSoc \<Rightarrow> (int, int fset) fmap \<Rightarrow> (int, int fset) fmap" where
  "add_class bid soc res =
     (case fmlookup res (soc_ID soc) of
        None \<Rightarrow> fmupd (soc_ID soc) {|bid|} res
      | Some boardIDs \<Rightarrow> fmupd (soc_ID soc) (finsert bid boardIDs) res)"

definition GetOrinClasses :: "FileDeviceProvider \<Rightarrow> (int, int fset) fmap" where
  "GetOrinClasses fp =
     fold (\<lambda>b res. fold (add_class (bd_ID b)) (OrinSocs b) res) (BoardDevices (FileDevice fp)) fmempty"

definition GetBoardAttrs :: "FileDeviceProvider \<Rightarrow> int \<Rightarrow> (string, attr) fmap" where
  "GetBoardAttrs fp boardID =
     fold (\<lambda>b res.
       if bd_ID b = boardID
       then fmupd AttrKeyBoardCamera (StrAttr (Camera b))
              (fmupd AttrKeyBoardLidar (BoolAttr (Lidar b))
                (fmupd AttrKeyBoardClusterName (StrAttr (ClusterName b))
                  (fmupd AttrKeyBoardDeviceType (StrAttr (DeviceType b))
                    (fmupd AttrKeyBoardDeviceNum (StrAttr (DeviceNum b)) res))))
       else res) (BoardDevices (FileDevice fp)) fmempty"

definition GetOrinAttrs :: "FileDeviceProvider \<Rightarrow> int \<Rightarrow> int \<Rightarrow> (string, attr) fmap" where
  "GetOrinAttrs fp boardID OrinID =
     fold (\<lambda>b res.
       if bd_ID b = boardID
       then fold (\<lambda>s res.
              if soc_ID s = OrinID
              then fmupd AttrKeyOrinName (StrAttr (soc_Name s)) (fmupd AttrKeyOrinIp (StrAttr (soc_IP s)) res)
              else res) (OrinSocs b) res
       else res) (BoardDevices (FileDevice fp)) fmempty"

definition GetBoards :: "FileDeviceProvider \<Rightarrow> int list" where
  "GetBoards fp = map bd_ID (BoardDevices (FileDevice fp))"

definition GetBoardOrins :: "FileDeviceProvider \<Rightarrow> int \<Rightarrow> int list" where
  "GetBoardOrins fp boardID =
     fold (\<lambda>b res. if bd_ID b = boardID then res @ map soc_ID (OrinSocs b) else res)
       (BoardDevices (FileDevice fp)) []"

section \<open>The contract\<close>

locale device_provider =
  fixes classes :: "'p \<Rightarrow> (int, int fset) fmap"
    and boards :: "'p \<Rightarrow> int list"
    and orins :: "'p \<Rightarrow> int \<Rightarrow> int list"
    and orin_attrs :: "'p \<Rightarrow> int \<Rightarrow> int \<Rightarrow> (string, attr) fmap"
  assumes class_iff: "b |\<in>| map_get {||} (classes p) i \<longleftrightarrow> i \<in> set (orins p b)"
    and class_nonempty: "fmlookup (classes p) i \<noteq> Some {||}"
    and orins_board: "i \<in> set (orins p b) \<Longrightarrow> b \<in> set (boards p)"
    and attrs_iff: "orin_attrs p b i \<noteq> fmempty \<longleftrightarrow> i \<in> set (orins p b)"
begin

lemma class_dom: "has_key (classes p) i \<longleftrightarrow> (\<exists>b \<in> set (boards p). i \<in> set (orins p b))"
proof
  assume "has_key (classes p) i"
  then obtain S where "fmlookup (classes p) i = Some S" by (auto simp: has_key_def)
  moreover from this class_nonempty [of p i] obtain b where "b |\<in>| S" by auto
  ultimately have "i \<in> set (orins p b)" using class_iff [of b p i] by (simp add: map_get_def)
  then show "\<exists>b \<in> set (boards p). i \<in> set (orins p b)" using orins_board by blast
next
  assume "\<exists>b \<in> set (boards p). i \<in> set (orins p b)"
  then obtain b where "b |\<in>| map_get {||} (classes p) i" using class_iff by blast
  then show "has_key (classes p) i" by (auto simp: map_get_def has_key_def split: option.splits)
qed

lemma class_attrs: "b |\<in>| map_get {||} (classes p) i \<Longrightarrow> orin_attrs p b i \<noteq> fmempty"
  by (simp add: attrs_iff class_iff)

end

section \<open>The file provider meets it\<close>

definition has_orin :: "FileDeviceProvider \<Rightarrow> int \<Rightarrow> int \<Rightarrow> bool" where
  "has_orin fp b i \<longleftrightarrow>
     list_ex (\<lambda>d. bd_ID d = b \<and> list_ex (\<lambda>s. soc_ID s = i) (OrinSocs d)) (BoardDevices (FileDevice fp))"

lemma has_orin_iff:
  "has_orin fp b i \<longleftrightarrow> (\<exists>d \<in> set (BoardDevices (FileDevice fp)). bd_ID d = b \<and> i \<in> soc_ID ` set (OrinSocs d))"
  by (auto simp: has_orin_def list_ex_iff)

lemma add_class_get:
  "map_get {||} (add_class bid soc res) i =
     (if i = soc_ID soc then finsert bid (map_get {||} res i) else map_get {||} res i)"
  by (auto simp: add_class_def map_get_def split: option.split)

lemma fold_add_class:
  "b |\<in>| map_get {||} (fold (add_class bid) socs res) i \<longleftrightarrow>
     b |\<in>| map_get {||} res i \<or> (b = bid \<and> i \<in> soc_ID ` set socs)"
  by (induction socs arbitrary: res) (auto simp: add_class_get)

lemma fold_classes:
  "b |\<in>| map_get {||} (fold (\<lambda>d res. fold (add_class (bd_ID d)) (OrinSocs d) res) ds res) i \<longleftrightarrow>
     b |\<in>| map_get {||} res i \<or> (\<exists>d \<in> set ds. bd_ID d = b \<and> i \<in> soc_ID ` set (OrinSocs d))"
  by (induction ds arbitrary: res) (auto simp: fold_add_class)

lemma fold_add_class_nonempty:
  "(\<And>i. fmlookup res i \<noteq> Some {||}) \<Longrightarrow> fmlookup (fold (add_class bid) socs res) i \<noteq> Some {||}"
  by (induction socs arbitrary: res) (simp_all add: add_class_def split: option.split)

lemma fold_classes_nonempty:
  "(\<And>i. fmlookup res i \<noteq> Some {||}) \<Longrightarrow>
   fmlookup (fold (\<lambda>d res. fold (add_class (bd_ID d)) (OrinSocs d) res) ds res) i \<noteq> Some {||}"
  by (induction ds arbitrary: res) (simp_all add: fold_add_class_nonempty)

lemma GetBoardOrins_iff: "i \<in> set (GetBoardOrins fp b) \<longleftrightarrow> has_orin fp b i"
proof -
  have "set (fold (\<lambda>d res. if bd_ID d = b then res @ map soc_ID (OrinSocs d) else res) ds acc) =
      set acc \<union> {i. \<exists>d \<in> set ds. bd_ID d = b \<and> i \<in> soc_ID ` set (OrinSocs d)}" for ds acc
    by (induction ds arbitrary: acc) auto
  from this [of "BoardDevices (FileDevice fp)" "[]"] show ?thesis
    by (simp add: GetBoardOrins_def has_orin_iff)
qed

lemma GetOrinAttrs_empty_iff: "GetOrinAttrs fp b i = fmempty \<longleftrightarrow> \<not> has_orin fp b i"
proof -
  let ?f = "\<lambda>s res. if soc_ID s = i
       then fmupd AttrKeyOrinName (StrAttr (soc_Name s)) (fmupd AttrKeyOrinIp (StrAttr (soc_IP s)) res) else res"
  have soc: "has_key (fold ?f socs res) AttrKeyOrinIp \<longleftrightarrow> has_key res AttrKeyOrinIp \<or> i \<in> soc_ID ` set socs"
    for socs and res :: "(string, attr) fmap"
    by (induction socs arbitrary: res) (auto simp: AttrKeyOrinName_def AttrKeyOrinIp_def)
  let ?g = "\<lambda>d res. if bd_ID d = b then fold ?f (OrinSocs d) res else res"
  have key: "has_key (fold ?g ds res) AttrKeyOrinIp \<longleftrightarrow>
      has_key res AttrKeyOrinIp \<or> (\<exists>d \<in> set ds. bd_ID d = b \<and> i \<in> soc_ID ` set (OrinSocs d))"
    for ds and res :: "(string, attr) fmap"
    by (induction ds arbitrary: res) (auto simp: soc)
  have same_soc: "i \<notin> soc_ID ` set socs \<Longrightarrow> fold ?f socs res = res" for socs and res :: "(string, attr) fmap"
    by (induction socs arbitrary: res) auto
  have same: "\<forall>d \<in> set ds. bd_ID d = b \<longrightarrow> i \<notin> soc_ID ` set (OrinSocs d) \<Longrightarrow> fold ?g ds res = res"
    for ds and res :: "(string, attr) fmap"
    by (induction ds arbitrary: res) (auto simp: same_soc)
  show ?thesis
  proof
    assume "GetOrinAttrs fp b i = fmempty"
    then show "\<not> has_orin fp b i"
      using key [of "BoardDevices (FileDevice fp)" fmempty] by (simp add: GetOrinAttrs_def has_orin_iff)
  next
    assume "\<not> has_orin fp b i"
    then show "GetOrinAttrs fp b i = fmempty"
      unfolding GetOrinAttrs_def by (intro same) (auto simp: has_orin_iff)
  qed
qed

interpretation file_provider: device_provider GetOrinClasses GetBoards GetBoardOrins GetOrinAttrs
proof unfold_locales
  fix fp b i
  show "b |\<in>| map_get {||} (GetOrinClasses fp) i \<longleftrightarrow> i \<in> set (GetBoardOrins fp b)"
    by (simp add: GetBoardOrins_iff GetOrinClasses_def fold_classes has_orin_iff)
  show "fmlookup (GetOrinClasses fp) i \<noteq> Some {||}"
    unfolding GetOrinClasses_def by (rule fold_classes_nonempty) simp
  show "b \<in> set (GetBoards fp)" if "i \<in> set (GetBoardOrins fp b)"
    using that by (auto simp: GetBoardOrins_iff has_orin_iff GetBoards_def)
  show "GetOrinAttrs fp b i \<noteq> fmempty \<longleftrightarrow> i \<in> set (GetBoardOrins fp b)"
    by (simp add: GetOrinAttrs_empty_iff GetBoardOrins_iff)
qed

end
