(* ===== verification/Plugin.thy ===== *)
theory Plugin
  imports Locator Provider SchedUtil
begin

text \<open>
  \<open>pkg/device/plugin/orin.go\<close>: the device plugin. One gRPC server per orin id advertises the
  boards that carry it, mounts a host directory into the container at \<open>Allocate\<close>, fills that
  directory with the orin's attributes at \<open>PreStartContainer\<close>, and the node's boards are
  published as extra capacity. The file system, the API server, the pod lister and the JSON
  codec are fields of \<open>plugin_env\<close> over a world \<open>'w\<close>; the provider's interface is a
  record of its methods. \<open>uns\<close> is the order in which \<open>UnsortedList\<close> and ranges yield a set.
\<close>

record DeviceProvider =
  dp_GetOrinClasses :: "(int, int fset) fmap"
  dp_GetOrinAttrs :: "int \<Rightarrow> int \<Rightarrow> (string, attr) fmap option"
  dp_GetBoards :: "int list"
  dp_GetBoardOrins :: "int \<Rightarrow> int list"

definition file_methods :: "FileDeviceProvider \<Rightarrow> DeviceProvider" where
  "file_methods fp =
     \<lparr>dp_GetOrinClasses = GetOrinClasses fp, dp_GetOrinAttrs = (\<lambda>b i. Some (GetOrinAttrs fp b i)),
      dp_GetBoards = GetBoards fp, dp_GetBoardOrins = GetBoardOrins fp\<rparr>"

record ('w, 'cl) plugin_env =
  e_url :: net_url
  e_grpc :: "('w, 'cl) grpc"
  e_sha :: "string \<Rightarrow> string"
  e_Pow10 :: "int \<Rightarrow> int64"
  Sitter_GetPod :: "'w \<Rightarrow> string \<Rightarrow> string \<Rightarrow> string + Pod"
  MkdirAll :: "'w \<Rightarrow> string \<Rightarrow> 'w \<times> string option"
  json_attrs :: "(string, attr) fmap \<Rightarrow> string + string"
  WriteFile :: "'w \<Rightarrow> string \<Rightarrow> string \<Rightarrow> 'w \<times> string option"
  ApplyStatus :: "'w \<Rightarrow> string \<Rightarrow> (string, int64) fmap \<Rightarrow> 'w \<times> string option"

record 'cl OrinDeviceConfig =
  DeviceLocator :: "(string, 'cl KubeletDeviceLocator) fmap"
  cfg_DeviceProvider :: DeviceProvider
  NodeName :: string

record v1beta1_Device =
  dv_ID :: string
  dv_Health :: string

record OrinDeviceGrpcServer =
  OrinID :: int
  gs_ResourceName :: string
  devices :: "v1beta1_Device list"

record DevicePluginServer =
  Endpoint :: string
  ps_ResourceName :: string
  ps_Server :: OrinDeviceGrpcServer

record Mount =
  ContainerPath :: string
  HostPath :: string
  ReadOnly :: bool

datatype plugin_error =
    DevicesEmpty
  | LocateFailed locate_error
  | GetPodFailed string
  | NoAnnotation PodContainer
  | BadBoardID string
  | PopulateFailed
  | ApplyFailed string

definition HostVitualPath :: string where
  "HostVitualPath = ''/data/edge/device''"

section \<open>The servers\<close>

definition device_id :: "int \<Rightarrow> int \<Rightarrow> string" where
  "device_id bid orinID = FormatInt bid @ ''-'' @ FormatInt orinID"

definition NewOrinDeviceGrpcServer ::
  "(int fset \<Rightarrow> int list) \<Rightarrow> string \<Rightarrow> int \<Rightarrow> int fset \<Rightarrow> OrinDeviceGrpcServer" where
  "NewOrinDeviceGrpcServer uns resourceName orinID boardIDSets =
     \<lparr>OrinID = orinID, gs_ResourceName = resourceName,
      devices = map (\<lambda>bid. \<lparr>dv_ID = device_id bid orinID, dv_Health = ''Healthy''\<rparr>) (uns boardIDSets)\<rparr>"

definition GetDevicePluginOptions :: bool where
  "GetDevicePluginOptions = True"

text \<open>\<open>ListAndWatch\<close>: one send, then it waits until the stream's context is done.\<close>

definition ListAndWatch ::
  "('w \<Rightarrow> v1beta1_Device list \<Rightarrow> 'w \<times> string option) \<Rightarrow> 'w \<Rightarrow> OrinDeviceGrpcServer \<Rightarrow> 'w \<times> string option" where
  "ListAndWatch send w s =
     (case send w (devices s) of (w', Some err) \<Rightarrow> (w', Some err) | (w', None) \<Rightarrow> (w', None))"

definition orin_resource :: "int \<Rightarrow> string" where
  "orin_resource orinID = ExtendResouceTypeOrinPrefix @ FormatInt orinID"

text \<open>The map \<open>extraResource\<close>, built in the order of \<open>GetBoards\<close>.\<close>

definition extra_resource :: "('w, 'cl) plugin_env \<Rightarrow> DeviceProvider \<Rightarrow> (string, int64) fmap" where
  "extra_resource e provider =
     fold (\<lambda>bid m.
        fmupd (ExtendResouceTypeBoardPrefix @ FormatInt bid)
          (BuildDecimalMap (e_Pow10 e) (fset_of_list (dp_GetBoardOrins provider bid)) 1) m)
       (dp_GetBoards provider) (fmupd ExtendResouceTypeBoard 1024 fmempty)"

definition patchNodeExtraResource ::
  "('w, 'cl) plugin_env \<Rightarrow> 'w \<Rightarrow> DeviceProvider \<Rightarrow> string \<Rightarrow> 'w \<times> plugin_error option" where
  "patchNodeExtraResource e w provider nodeName =
     (case ApplyStatus e w nodeName (extra_resource e provider) of
        (w', Some err) \<Rightarrow> (w', Some (ApplyFailed err))
      | (w', None) \<Rightarrow> (w', None))"

definition add_server ::
  "('w, 'cl) plugin_env \<Rightarrow> (int fset \<Rightarrow> int list) \<Rightarrow> (int, int fset) fmap \<Rightarrow> int \<Rightarrow>
   'w \<times> (string, 'cl KubeletDeviceLocator) fmap \<times> (string, DevicePluginServer) fmap \<Rightarrow>
   'w \<times> (string, 'cl KubeletDeviceLocator) fmap \<times> (string, DevicePluginServer) fmap" where
  "add_server e uns classes orinID s =
     (case s of (w, locators, odp) \<Rightarrow>
        let resourceName = orin_resource orinID;
            (w', l) = NewKubeletDeviceLocator (e_url e) (e_grpc e) w resourceName;
            gsrv = NewOrinDeviceGrpcServer uns resourceName orinID (map_get {||} classes orinID)
        in (w', fmupd resourceName l locators,
            fmupd resourceName
              \<lparr>Endpoint = ReplaceChar resourceName CHR ''/'' CHR ''-'' @ ''.sock'',
               ps_ResourceName = resourceName, ps_Server = gsrv\<rparr> odp))"

definition NewOrinDevicePlugin ::
  "('w, 'cl) plugin_env \<Rightarrow> (int fset \<Rightarrow> int list) \<Rightarrow> 'w \<Rightarrow> 'cl OrinDeviceConfig \<Rightarrow>
   ('w \<times> 'cl OrinDeviceConfig) \<times> (plugin_error + (string, DevicePluginServer) fmap)" where
  "NewOrinDevicePlugin e uns w c =
     (let classes = dp_GetOrinClasses (cfg_DeviceProvider c);
          (w1, locators, odp) = fold (add_server e uns classes) (uns (fmdom classes)) (w, DeviceLocator c, fmempty);
          c1 = c\<lparr>DeviceLocator := locators\<rparr>
      in case patchNodeExtraResource e w1 (cfg_DeviceProvider c) (NodeName c) of
           (w2, Some err) \<Rightarrow> ((w2, c1), Inl err)
         | (w2, None) \<Rightarrow> ((w2, c1), Inr odp))"

section \<open>Containers\<close>

definition vitual_path :: "string \<Rightarrow> string \<Rightarrow> string" where
  "vitual_path resourceName deviceID = HostVitualPath @ ''/'' @ resourceName @ ''/'' @ deviceID"

definition Plugin_Allocate :: "OrinDeviceGrpcServer \<Rightarrow> string list list \<Rightarrow> plugin_error + Mount list list" where
  "Plugin_Allocate s containerRequests =
     (let devicesIDs = fold (\<lambda>container ids. ids @ container) containerRequests []
      in if length devicesIDs = 0 then Inl DevicesEmpty
         else Inr [[\<lparr>ContainerPath = ''/etc/'' @ gs_ResourceName s,
                     HostPath = vitual_path (gs_ResourceName s) (devicesIDs ! 0),
                     ReadOnly = True\<rparr>]])"

definition populateOrinAttr ::
  "('w, 'cl) plugin_env \<Rightarrow> 'w \<Rightarrow> string \<Rightarrow> (string, attr) fmap \<Rightarrow> 'w \<times> string option" where
  "populateOrinAttr e w vpath attrs =
     (let configPath = PathJoin [vpath, ''config.json'']
      in case MkdirAll e w vpath of
           (w1, Some err) \<Rightarrow> (w1, Some err)
         | (w1, None) \<Rightarrow>
             (case json_attrs e attrs of
                Inl err \<Rightarrow> (w1, Some err)
              | Inr data \<Rightarrow> WriteFile e w1 configPath data))"

text \<open>A nil map of attributes is \<open>None\<close>; the file provider never returns one.\<close>

definition PreStartContainer ::
  "('w, 'cl) plugin_env \<Rightarrow> 'cl OrinDeviceConfig \<Rightarrow> OrinDeviceGrpcServer \<Rightarrow> 'w \<Rightarrow> string list \<Rightarrow>
   (('w \<times> 'cl OrinDeviceConfig) \<times> plugin_error option) outcome" where
  "PreStartContainer e c s w devicesIDs =
     (if length devicesIDs = 0 then Ret ((w, c), Some DevicesEmpty)
      else let orindevice = NewDevice (e_sha e) devicesIDs (gs_ResourceName s)
           in case fmlookup (DeviceLocator c) (gs_ResourceName s) of
                None \<Rightarrow> Panic
              | Some k \<Rightarrow>
                  (case Locate (e_url e) (e_grpc e) (e_sha e) w k orindevice of
                     Panic \<Rightarrow> Panic
                   | Ret ((w1, k1), res) \<Rightarrow>
                       (let c1 = c\<lparr>DeviceLocator := fmupd (gs_ResourceName s) k1 (DeviceLocator c)\<rparr>
                        in case res of
                             Inl err \<Rightarrow> Ret ((w1, c1), Some (LocateFailed err))
                           | Inr at \<Rightarrow>
                               (case Sitter_GetPod e w1 (pc_Namespace at) (pc_Name at) of
                                  Inl err \<Rightarrow> Ret ((w1, c1), Some (GetPodFailed err))
                                | Inr pod \<Rightarrow>
                                    (case fmlookup (pod_Annotations pod) AnnotationPodBindToBoard of
                                       None \<Rightarrow> Ret ((w1, c1), Some (NoAnnotation at))
                                     | Some boardID \<Rightarrow>
                                         (case ParseInt boardID of
                                            None \<Rightarrow> Ret ((w1, c1), Some (BadBoardID boardID))
                                          | Some boardIDInt \<Rightarrow>
                                              if fcard (BuildRequestOrinSet pod) = 0 then Ret ((w1, c1), None)
                                              else (case dp_GetOrinAttrs (cfg_DeviceProvider c) boardIDInt (OrinID s) of
                                                      None \<Rightarrow> Ret ((w1, c1), None)
                                                    | Some attrs \<Rightarrow>
                                                        (let vpath = vitual_path (gs_ResourceName s) (devicesIDs ! 0)
                                                         in case populateOrinAttr e w1 vpath attrs of
                                                              (w2, Some _) \<Rightarrow> Ret ((w2, c1), Some PopulateFailed)
                                                            | (w2, None) \<Rightarrow> Ret ((w2, c1), None)))))))))"

end
