(* ===== verification/NodeTopology.thy ===== *)
theory NodeTopology
  imports Plugin NodeInfos
begin

text \<open>
  Where the two programs meet: the plugin publishes the boards of a node as capacity, and the
  scheduler's \<open>NewNodeInfo\<close> reads the node's devices back from it. \<open>carries\<close> says that the
  board keys of a node's capacity are the ones published; whatever else the capacity holds
  does not matter.
\<close>

abbreviation board_key :: "int \<Rightarrow> string" where
  "board_key b \<equiv> ExtendResouceTypeBoardPrefix @ FormatInt b"

definition carries :: "Node \<Rightarrow> ('w, 'cl) plugin_env \<Rightarrow> DeviceProvider \<Rightarrow> bool" where
  "carries node e provider \<longleftrightarrow>
     (\<forall>k. HasPrefix k ExtendResouceTypeBoardPrefix \<longrightarrow>
        fmlookup (node_Capacity node) k = fmlookup (extra_resource e provider) k)"

definition board_value :: "('w, 'cl) plugin_env \<Rightarrow> DeviceProvider \<Rightarrow> int \<Rightarrow> int64" where
  "board_value e provider b = BuildDecimalMap (e_Pow10 e) (fset_of_list (dp_GetBoardOrins provider b)) 1"

definition boards_in_range :: "DeviceProvider \<Rightarrow> bool" where
  "boards_in_range provider \<longleftrightarrow> list_all in_int64 (dp_GetBoards provider)"

definition orins_in_range :: "DeviceProvider \<Rightarrow> bool" where
  "orins_in_range provider \<longleftrightarrow>
     list_all (\<lambda>b. list_all (\<lambda>i. in_int64 (i - 1) \<and> i \<le> 19) (dp_GetBoardOrins provider b)) (dp_GetBoards provider)"

lemma board_key_inj: "in_int64 b \<Longrightarrow> in_int64 c \<Longrightarrow> board_key b = board_key c \<longleftrightarrow> b = c"
  by (auto dest: FormatInt_inj)

lemma fold_boards_lookup:
  assumes "\<forall>b \<in> set bs. in_int64 b" "HasPrefix k ExtendResouceTypeBoardPrefix"
  shows "fmlookup (fold (\<lambda>b m. fmupd (board_key b) (f b) m) bs m0) k =
     (case find (\<lambda>b. board_key b = k) bs of Some b \<Rightarrow> Some (f b) | None \<Rightarrow> fmlookup m0 k)"
  using assms(1)
proof (induction bs arbitrary: m0)
  case (Cons b bs)
  have same: "find (\<lambda>c. board_key c = k) bs = Some c \<Longrightarrow> board_key b = k \<Longrightarrow> c = b" for c
    using Cons.prems FormatInt_inj [of c b] by (auto simp: find_Some_iff)
  show ?case
    using Cons same by (auto split: option.split)
qed simp

lemma extra_resource_lookup:
  assumes "boards_in_range provider" "HasPrefix k ExtendResouceTypeBoardPrefix"
  shows "fmlookup (extra_resource e provider) k =
     map_option (board_value e provider) (find (\<lambda>b. board_key b = k) (dp_GetBoards provider))"
proof -
  have "k \<noteq> ExtendResouceTypeBoard" using assms(2) board_not_board_prefix by auto
  then show ?thesis
    using assms fold_boards_lookup [of "dp_GetBoards provider" k "board_value e provider"]
    by (simp add: extra_resource_def board_value_def boards_in_range_def list_all_iff split: option.split)
qed

lemma published_board:
  assumes "carries node e provider" "boards_in_range provider"
  shows "has_key (node_Capacity node) k \<and> board_of_key (node_Capacity node) k = Some (b, S) \<and> k = board_key b \<longleftrightarrow>
     b \<in> set (dp_GetBoards provider) \<and> k = board_key b \<and> decode_from DefaultOrinStartBit (board_value e provider b) = Inr S"
proof (cases "k = board_key b")
  case True
  have look: "fmlookup (node_Capacity node) k =
      map_option (board_value e provider) (find (\<lambda>c. board_key c = k) (dp_GetBoards provider))"
    using assms True extra_resource_lookup [OF assms(2), of k e] by (simp add: carries_def)
  have find: "find (\<lambda>c. board_key c = k) (dp_GetBoards provider) = (if b \<in> set (dp_GetBoards provider) then Some b else None)"
    if "in_int64 b"
  proof (cases "find (\<lambda>c. board_key c = k) (dp_GetBoards provider)")
    case None
    with True show ?thesis by (auto simp: find_None_iff)
  next
    case (Some c)
    then have c: "c \<in> set (dp_GetBoards provider)" "board_key c = k" by (auto simp: find_Some_iff)
    then have "c = b" using True that assms(2) by (auto simp: boards_in_range_def list_all_iff dest: FormatInt_inj)
    with Some c show ?thesis by simp
  qed
  show ?thesis
  proof (cases "in_int64 b")
    case True
    then show ?thesis
      using look find \<open>k = board_key b\<close>
      by (auto simp: has_key_def board_of_key_def BoardIDFromResourceName_def map_get_def split: sum.split if_splits)
  next
    case False
    then have "b \<notin> set (dp_GetBoards provider)" using assms(2) by (auto simp: boards_in_range_def list_all_iff)
    moreover have "board_of_key (node_Capacity node) k \<noteq> Some (b, S)"
      using False by (auto simp: board_of_key_def BoardIDFromResourceName_def split: option.splits sum.splits dest: ParseInt_range)
    ultimately show ?thesis by simp
  qed
qed simp

lemma published_key:
  assumes "carries node e provider" "boards_in_range provider"
    "has_key (node_Capacity node) k" "board_of_key (node_Capacity node) k = Some (b, S)"
  shows "k = board_key b"
proof -
  have k: "HasPrefix k ExtendResouceTypeBoardPrefix" "BoardIDFromResourceName k = Some b"
    using assms(4) by (auto simp: board_of_key_def split: if_splits option.splits sum.splits)
  then have "has_key (extra_resource e provider) k" using assms(1,3) by (simp add: carries_def has_key_def)
  then obtain c where found: "find (\<lambda>b. board_key b = k) (dp_GetBoards provider) = Some c"
    using extra_resource_lookup [OF assms(2) k(1), of e] by (auto simp: has_key_def)
  then have c: "c \<in> set (dp_GetBoards provider)" "k = board_key c"
    by (induction "dp_GetBoards provider" rule: list.induct) (auto simp: find_Some_iff)
  then have "in_int64 c" using assms(2) by (auto simp: boards_in_range_def list_all_iff)
  then have "c = b" using k(2) c(2) by (simp add: BoardIDFromResourceName_def)
  with c show ?thesis by simp
qed

lemma decode_board_value:
  assumes "orins_in_range provider" "b \<in> set (dp_GetBoards provider)"
  shows "decode_from DefaultOrinStartBit (board_value e provider b) =
     Inr (ffilter (\<lambda>i. 1 \<le> i) (fset_of_list (dp_GetBoardOrins provider b)))"
proof -
  have "\<forall>i. i |\<in>| fset_of_list (dp_GetBoardOrins provider b) \<longrightarrow> in_int64 (i - 1) \<and> i - 1 \<le> 18"
    using assms by (auto simp: orins_in_range_def list_all_iff fset_of_list_elem)
  from Parse_BuildDecimalMap [OF this] show ?thesis
    by (simp add: decode_from_def DefaultOrinStartBit_def board_value_def)
qed

text \<open>The scheduler's total is the provider's topology, less the orins numbered below one.\<close>

lemma node_total_published:
  assumes "carries node e provider" "boards_in_range provider" "orins_in_range provider"
  shows "BoardSet (node_total node) = fset_of_list (dp_GetBoards provider)"
    and "(b, i) \<in> slots (node_total node) \<longleftrightarrow>
       b \<in> set (dp_GetBoards provider) \<and> i \<in> set (dp_GetBoardOrins provider b) \<and> 1 \<le> i"
proof -
  have key: "(\<exists>k. has_key (node_Capacity node) k \<and> board_of_key (node_Capacity node) k = Some (b, S)) \<longleftrightarrow>
      b \<in> set (dp_GetBoards provider) \<and> S = ffilter (\<lambda>i. 1 \<le> i) (fset_of_list (dp_GetBoardOrins provider b))" for b S
    using published_key [OF assms(1,2)] published_board [OF assms(1,2), of "board_key b" b S]
      decode_board_value [OF assms(3), of b e] by auto
  show "BoardSet (node_total node) = fset_of_list (dp_GetBoards provider)"
  proof (rule fset_eqI)
    fix c
    show "c |\<in>| BoardSet (node_total node) \<longleftrightarrow> c |\<in>| fset_of_list (dp_GetBoards provider)"
      using key [of c] unfolding node_total_boards fset_of_list_elem by blast
  qed
  show "(b, i) \<in> slots (node_total node) \<longleftrightarrow>
      b \<in> set (dp_GetBoards provider) \<and> i \<in> set (dp_GetBoardOrins provider b) \<and> 1 \<le> i"
  proof -
    have "(b, i) \<in> slots (node_total node) \<longleftrightarrow>
        (\<exists>S. (\<exists>k. has_key (node_Capacity node) k \<and> board_of_key (node_Capacity node) k = Some (b, S)) \<and> i |\<in>| S)"
      unfolding node_total_slots by blast
    then show ?thesis by (auto simp: key fset_of_list_elem simp del: slots_iff)
  qed
qed

end
