(* ===== verification/PluginFacts.thy ===== *)
theory PluginFacts
  imports NodeTopology
begin

text \<open>
  Lemmas on the device plugin: the devices a server advertises, the servers a plugin starts,
  and the agreement of \<open>Allocate\<close> and \<open>PreStartContainer\<close> on the directory they use.
\<close>

section \<open>Advertised devices\<close>

definition list_order :: "(int fset \<Rightarrow> int list) \<Rightarrow> bool" where
  "list_order uns \<longleftrightarrow> (\<forall>S. distinct (uns S) \<and> set (uns S) = fset S)"

lemma list_orderD: "list_order uns \<Longrightarrow> set (uns S) = fset S" "list_order uns \<Longrightarrow> distinct (uns S)"
  by (simp_all add: list_order_def)

lemma list_order_sorted: "list_order sorted_list_of_fset"
  by (simp add: list_order_def sorted_list_of_fset.rep_eq)

lemma device_id_inj: "in_int64 a \<Longrightarrow> in_int64 b \<Longrightarrow> device_id a i = device_id b i \<longleftrightarrow> a = b"
  by (auto simp: device_id_def dest: FormatInt_inj)

lemma devices_distinct:
  assumes "list_order uns" "fBall S in_int64"
  shows "distinct (map dv_ID (devices (NewOrinDeviceGrpcServer uns name i S)))"
proof -
  have "inj_on (\<lambda>b. device_id b i) (set (uns S))"
    using assms by (auto simp: inj_on_def device_id_inj list_orderD fBall_alt_def)
  then show ?thesis using assms by (simp add: NewOrinDeviceGrpcServer_def distinct_map list_orderD comp_def)
qed

lemma devices_iff:
  "list_order uns \<Longrightarrow>
   d \<in> set (map dv_ID (devices (NewOrinDeviceGrpcServer uns name i S))) \<longleftrightarrow> (\<exists>b. b |\<in>| S \<and> d = device_id b i)"
  by (auto simp: NewOrinDeviceGrpcServer_def list_orderD)

section \<open>Starting the plugin\<close>

definition server_of :: "(int fset \<Rightarrow> int list) \<Rightarrow> (int, int fset) fmap \<Rightarrow> int \<Rightarrow> DevicePluginServer" where
  "server_of uns classes i =
     \<lparr>Endpoint = ReplaceChar (orin_resource i) CHR ''/'' CHR ''-'' @ ''.sock'',
      ps_ResourceName = orin_resource i,
      ps_Server = NewOrinDeviceGrpcServer uns (orin_resource i) i (map_get {||} classes i)\<rparr>"

lemma add_server_odp:
  "snd (snd (add_server e uns classes i s)) = fmupd (orin_resource i) (server_of uns classes i) (snd (snd s))"
  by (simp add: add_server_def server_of_def Let_def split: prod.split)

lemma add_server_locators:
  "has_key (fst (snd (add_server e uns classes i s))) k \<longleftrightarrow> k = orin_resource i \<or> has_key (fst (snd s)) k"
  by (simp add: add_server_def Let_def split: prod.split)

lemma fold_add_server_odp:
  "snd (snd (fold (add_server e uns classes) is s)) =
     fold (\<lambda>i m. fmupd (orin_resource i) (server_of uns classes i) m) is (snd (snd s))"
  by (induction "is" arbitrary: s) (simp_all add: add_server_odp)

lemma fold_add_server_locators:
  "has_key (fst (snd (fold (add_server e uns classes) is s))) k \<longleftrightarrow>
     k \<in> orin_resource ` set is \<or> has_key (fst (snd s)) k"
  by (induction "is" arbitrary: s) (auto simp: add_server_locators)

lemma orin_resource_inj: "in_int64 i \<Longrightarrow> in_int64 j \<Longrightarrow> orin_resource i = orin_resource j \<longleftrightarrow> i = j"
  by (auto simp: orin_resource_def dest: FormatInt_inj)

lemma fold_servers_lookup:
  assumes "\<forall>i \<in> set is. in_int64 i" "in_int64 j"
  shows "fmlookup (fold (\<lambda>i m. fmupd (orin_resource i) (f i) m) is m) (orin_resource j) =
     (if j \<in> set is then Some (f j) else fmlookup m (orin_resource j))"
  using assms by (induction "is" arbitrary: m) (auto simp: orin_resource_inj)

lemma NewOrinDevicePlugin_ok:
  assumes "NewOrinDevicePlugin e uns w c = ((w', c'), Inr odp)"
  shows "odp = fold (\<lambda>i m. fmupd (orin_resource i)
             (server_of uns (dp_GetOrinClasses (cfg_DeviceProvider c)) i) m)
           (uns (fmdom (dp_GetOrinClasses (cfg_DeviceProvider c)))) fmempty"
    and "has_key (DeviceLocator c') k \<longleftrightarrow>
        k \<in> orin_resource ` set (uns (fmdom (dp_GetOrinClasses (cfg_DeviceProvider c)))) \<or> has_key (DeviceLocator c) k"
    and "\<exists>w1. ApplyStatus e w1 (NodeName c) (extra_resource e (cfg_DeviceProvider c)) = (w', None)"
proof -
  let ?cl = "dp_GetOrinClasses (cfg_DeviceProvider c)"
  let ?s = "fold (add_server e uns ?cl) (uns (fmdom ?cl)) (w, DeviceLocator c, fmempty)"
  obtain w1 locators odp1 where s: "?s = (w1, locators, odp1)" by (metis prod_cases3)
  have r: "odp = odp1" "c' = c\<lparr>DeviceLocator := locators\<rparr>"
    "patchNodeExtraResource e w1 (cfg_DeviceProvider c) (NodeName c) = (w', None)"
    using assms by (auto simp: NewOrinDevicePlugin_def Let_def s split: prod.splits option.splits)
  show "odp = fold (\<lambda>i m. fmupd (orin_resource i) (server_of uns ?cl i) m) (uns (fmdom ?cl)) fmempty"
    using fold_add_server_odp [of e uns ?cl "uns (fmdom ?cl)" "(w, DeviceLocator c, fmempty)"] s r by simp
  show "has_key (DeviceLocator c') k \<longleftrightarrow> k \<in> orin_resource ` set (uns (fmdom ?cl)) \<or> has_key (DeviceLocator c) k"
    using fold_add_server_locators [of e uns ?cl "uns (fmdom ?cl)" "(w, DeviceLocator c, fmempty)" k] s r by simp
  show "\<exists>w1. ApplyStatus e w1 (NodeName c) (extra_resource e (cfg_DeviceProvider c)) = (w', None)"
    using r(3) by (auto simp: patchNodeExtraResource_def split: prod.splits option.splits)
qed

section \<open>Allocate and PreStartContainer\<close>

lemma Plugin_Allocate_eq:
  "Plugin_Allocate s reqs =
     (if concat reqs = [] then Inl DevicesEmpty
      else Inr [[\<lparr>ContainerPath = ''/etc/'' @ gs_ResourceName s,
                  HostPath = vitual_path (gs_ResourceName s) (hd (concat reqs)), ReadOnly = True\<rparr>]])"
proof -
  have "fold (\<lambda>container ids. ids @ container) reqs acc = acc @ concat reqs" for acc
    by (induction reqs arbitrary: acc) auto
  from this [of "[]"] show ?thesis by (simp add: Plugin_Allocate_def hd_conv_nth)
qed

text \<open>A \<open>PreStartContainer\<close> that succeeds, by what it did.\<close>

lemma PreStart_success:
  assumes "PreStartContainer e c s w ids = Ret ((w', c'), None)"
  obtains k w1 k1 at pod b where
    "ids \<noteq> []" "fmlookup (DeviceLocator c) (gs_ResourceName s) = Some k"
    "Locate (e_url e) (e_grpc e) (e_sha e) w k (NewDevice (e_sha e) ids (gs_ResourceName s)) = Ret ((w1, k1), Inr at)"
    "Sitter_GetPod e w1 (pc_Namespace at) (pc_Name at) = Inr pod" "bind_board pod = Some b"
    "BuildRequestOrinSet pod = {||} \<or> dp_GetOrinAttrs (cfg_DeviceProvider c) b (OrinID s) = None \<longrightarrow> w' = w1"
    "BuildRequestOrinSet pod \<noteq> {||} \<longrightarrow> (\<forall>attrs. dp_GetOrinAttrs (cfg_DeviceProvider c) b (OrinID s) = Some attrs \<longrightarrow>
       populateOrinAttr e w1 (vitual_path (gs_ResourceName s) (hd ids)) attrs = (w', None))"
proof -
  from assms have ids: "ids \<noteq> []" by (auto simp: PreStartContainer_def)
  then have hd: "ids ! 0 = hd ids" by (simp add: hd_conv_nth)
  from assms ids obtain k where k: "fmlookup (DeviceLocator c) (gs_ResourceName s) = Some k"
    by (auto simp: PreStartContainer_def Let_def split: option.splits)
  from assms ids k obtain w1 k1 at where l: "Locate (e_url e) (e_grpc e) (e_sha e) w k (NewDevice (e_sha e) ids (gs_ResourceName s)) = Ret ((w1, k1), Inr at)"
    by (auto simp: PreStartContainer_def Let_def split: outcome.splits sum.splits)
  from assms ids k l obtain pod where p: "Sitter_GetPod e w1 (pc_Namespace at) (pc_Name at) = Inr pod"
    by (auto simp: PreStartContainer_def Let_def split: sum.splits)
  from assms ids k l p obtain b where b: "bind_board pod = Some b"
    by (auto simp: PreStartContainer_def Let_def bind_board_Some split: option.splits)
  have rest: "(if fcard (BuildRequestOrinSet pod) = 0 then w' = w1
      else case dp_GetOrinAttrs (cfg_DeviceProvider c) b (OrinID s) of
             None \<Rightarrow> w' = w1
           | Some attrs \<Rightarrow> populateOrinAttr e w1 (vitual_path (gs_ResourceName s) (hd ids)) attrs = (w', None))"
    using assms ids k l p b
    by (auto simp: PreStartContainer_def Let_def bind_board_Some hd split: option.splits prod.splits if_splits)
  show thesis
    by (rule that [OF ids k l p b]) (use rest in \<open>auto split: option.splits\<close>)
qed

text \<open>
  The pod a container start is for: the one the locator and the pod lister give for its devices.
\<close>

definition prestart_pod ::
  "('w, 'cl) plugin_env \<Rightarrow> 'cl OrinDeviceConfig \<Rightarrow> OrinDeviceGrpcServer \<Rightarrow> 'w \<Rightarrow> string list \<Rightarrow> Pod option" where
  "prestart_pod e c s w ids =
     (case fmlookup (DeviceLocator c) (gs_ResourceName s) of
        None \<Rightarrow> None
      | Some k \<Rightarrow>
          (case Locate (e_url e) (e_grpc e) (e_sha e) w k (NewDevice (e_sha e) ids (gs_ResourceName s)) of
             Ret ((w1, k1), Inr at) \<Rightarrow>
               (case Sitter_GetPod e w1 (pc_Namespace at) (pc_Name at) of Inl _ \<Rightarrow> None | Inr pod \<Rightarrow> Some pod)
           | _ \<Rightarrow> None))"

text \<open>What \<open>os.WriteFile\<close> does when it returns no error: the file has the data.\<close>

definition file_store :: "('w, 'cl) plugin_env \<Rightarrow> ('w \<Rightarrow> string \<Rightarrow> string option) \<Rightarrow> bool" where
  "file_store e content \<longleftrightarrow> (\<forall>w p d w'. WriteFile e w p d = (w', None) \<longrightarrow> content w' p = Some d)"

lemma populate_writes:
  assumes "populateOrinAttr e w vpath attrs = (w', None)" "file_store e content"
  obtains data where "json_attrs e attrs = Inr data" "content w' (PathJoin [vpath, ''config.json'']) = Some data"
  using assms
  by (auto simp: populateOrinAttr_def Let_def file_store_def split: prod.splits option.splits sum.splits)

lemma PreStart_writes:
  assumes "PreStartContainer e c s w (concat reqs) = Ret ((w', c'), None)" "file_store e content"
  obtains m pod b where "Plugin_Allocate s reqs = Inr [[m]]" "prestart_pod e c s w (concat reqs) = Some pod"
    "bind_board pod = Some b"
    "\<And>attrs. BuildRequestOrinSet pod \<noteq> {||} \<Longrightarrow> dp_GetOrinAttrs (cfg_DeviceProvider c) b (OrinID s) = Some attrs \<Longrightarrow>
       \<exists>data. json_attrs e attrs = Inr data \<and> content w' (PathJoin [HostPath m, ''config.json'']) = Some data"
proof (rule PreStart_success [OF assms(1)])
  fix k w1 k1 pc pod b
  assume ids: "concat reqs \<noteq> []"
    and k: "fmlookup (DeviceLocator c) (gs_ResourceName s) = Some k"
    and l: "Locate (e_url e) (e_grpc e) (e_sha e) w k (NewDevice (e_sha e) (concat reqs) (gs_ResourceName s)) = Ret ((w1, k1), Inr pc)"
    and p: "Sitter_GetPod e w1 (pc_Namespace pc) (pc_Name pc) = Inr pod" and b: "bind_board pod = Some b"
    and fill: "BuildRequestOrinSet pod \<noteq> {||} \<longrightarrow> (\<forall>attrs. dp_GetOrinAttrs (cfg_DeviceProvider c) b (OrinID s) = Some attrs \<longrightarrow>
       populateOrinAttr e w1 (vitual_path (gs_ResourceName s) (hd (concat reqs))) attrs = (w', None))"
  let ?m = "\<lparr>ContainerPath = ''/etc/'' @ gs_ResourceName s,
      HostPath = vitual_path (gs_ResourceName s) (hd (concat reqs)), ReadOnly = True\<rparr>"
  have "Plugin_Allocate s reqs = Inr [[?m]]" using ids by (simp only: Plugin_Allocate_eq if_False)
  moreover have "prestart_pod e c s w (concat reqs) = Some pod" by (simp add: prestart_pod_def k l p)
  moreover have "\<exists>data. json_attrs e attrs = Inr data \<and> content w' (PathJoin [HostPath ?m, ''config.json'']) = Some data"
    if "BuildRequestOrinSet pod \<noteq> {||}" "dp_GetOrinAttrs (cfg_DeviceProvider c) b (OrinID s) = Some attrs" for attrs
  proof -
    have "populateOrinAttr e w1 (HostPath ?m) attrs = (w', None)" using fill that by simp
    from populate_writes [OF this assms(2)] show ?thesis by blast
  qed
  ultimately show thesis using b by (intro that)
qed

text \<open>
  A plugin that starts has one server per orin class. It advertises exactly one device per
  board that carries the orin, no id twice, its locator is registered, and the node's status
  was applied with the boards as extra capacity.
\<close>

lemma servers_every_class:
  assumes "NewOrinDevicePlugin e uns w c = ((w', c'), Inr odp)" "list_order uns"
    "fmlookup (dp_GetOrinClasses (cfg_DeviceProvider c)) i = Some bs" "fBall bs in_int64"
    "fBall (fmdom (dp_GetOrinClasses (cfg_DeviceProvider c))) in_int64"
  shows "\<exists>s. fmlookup odp (orin_resource i) = Some s \<and> ps_ResourceName s = orin_resource i \<and>
     OrinID (ps_Server s) = i \<and>
     distinct (map dv_ID (devices (ps_Server s))) \<and>
     set (map dv_ID (devices (ps_Server s))) = (\<lambda>b. device_id b i) ` fset bs \<and>
     has_key (DeviceLocator c') (orin_resource i) \<and>
     (\<exists>w1. ApplyStatus e w1 (NodeName c) (extra_resource e (cfg_DeviceProvider c)) = (w', None))"
proof -
  let ?cl = "dp_GetOrinClasses (cfg_DeviceProvider c)"
  have i: "i \<in> set (uns (fmdom ?cl))" using assms(2,3) by (simp add: list_orderD fmdomI)
  have rng: "\<forall>i \<in> set (uns (fmdom ?cl)). in_int64 i" using assms(2,5) by (simp add: list_orderD fBall_alt_def)
  have "fmlookup odp (orin_resource i) = Some (server_of uns ?cl i)"
    unfolding NewOrinDevicePlugin_ok(1) [OF assms(1)] by (subst fold_servers_lookup [OF rng]) (use rng i in auto)
  moreover have "map_get {||} ?cl i = bs" using assms(3) by (simp add: map_get_def)
  moreover have "set (map dv_ID (devices (NewOrinDeviceGrpcServer uns (orin_resource i) i bs))) = (\<lambda>b. device_id b i) ` fset bs"
    using assms(2) by (auto simp: NewOrinDeviceGrpcServer_def list_orderD)
  moreover have "OrinID (NewOrinDeviceGrpcServer uns (orin_resource i) i bs) = i"
    by (simp add: NewOrinDeviceGrpcServer_def)
  ultimately show ?thesis
    using devices_distinct [OF assms(2,4), of "orin_resource i" i] i
      NewOrinDevicePlugin_ok(2,3) [OF assms(1)] by (simp add: server_of_def del: set_map)
qed

end
