(* ===== verification/PluginRun.thy ===== *)
theory PluginRun
  imports Prelude
begin

text \<open>
  \<open>DevicePluginServer.Run\<close> of \<open>pkg/device/plugin/plugin.go\<close> as a state machine: serve, wait
  for the socket, register with the kubelet, then wait for an error, a new kubelet socket or
  the stop channel. What the operating system and the kubelet answer is the event of a step.

  The state has the control location, the error in \<open>errChan\<close> (a channel of capacity one),
  whether the current \<open>stoChan\<close> is open, how many served listeners were not told to stop, and
  whether \<open>stop\<close> is closed. Closing a closed channel and a failed \<open>Listen\<close> panic; sending on
  a full \<open>errChan\<close> blocks for ever, since only this goroutine receives.
\<close>

datatype location = Restart | Serving | Waiting | Registering | Selecting | Returned | Panicked | Blocked

record run_state =
  loc :: location
  errChan :: "string option"
  stoOpen :: bool
  live :: nat
  stopClosed :: bool

datatype event =
    Slept
  | ListenOk | ListenFails
  | WaitOk | WaitFails string
  | RegisterOk | RegisterFails string
  | ReceiveErr
  | FsEvent bool
  | StopReceived
  | CloseStop

definition run_init :: run_state where
  "run_init = \<lparr>loc = Restart, errChan = None, stoOpen = True, live = 0, stopClosed = False\<rparr>"

text \<open>
  \<open>close(stoChan)\<close> tells the server of that channel to stop; at \<open>restart\<close> a new open channel
  takes its place. \<open>FsEvent True\<close> is the creation
  of the kubelet's socket, \<open>FsEvent False\<close> any other event of the watcher.
\<close>

fun run_next :: "event \<Rightarrow> run_state \<Rightarrow> run_state option" where
  "run_next Slept s =
     (if loc s = Restart
      then Some (if stoOpen s then s\<lparr>loc := Serving, live := 0\<rparr> else s\<lparr>loc := Panicked\<rparr>)
      else None)"
| "run_next ListenOk s = (if loc s = Serving then Some (s\<lparr>loc := Waiting, live := live s + 1\<rparr>) else None)"
| "run_next ListenFails s = (if loc s = Serving then Some (s\<lparr>loc := Panicked\<rparr>) else None)"
| "run_next WaitOk s = (if loc s = Waiting then Some (s\<lparr>loc := Registering\<rparr>) else None)"
| "run_next (WaitFails _) s = (if loc s = Waiting then Some (s\<lparr>loc := Restart\<rparr>) else None)"
| "run_next RegisterOk s = (if loc s = Registering then Some (s\<lparr>loc := Selecting\<rparr>) else None)"
| "run_next (RegisterFails e) s =
     (if loc s = Registering
      then Some (if errChan s = None then s\<lparr>loc := Selecting, errChan := Some e\<rparr> else s\<lparr>loc := Blocked\<rparr>)
      else None)"
| "run_next ReceiveErr s =
     (if loc s = Selecting \<and> errChan s \<noteq> None then Some (s\<lparr>loc := Restart, errChan := None\<rparr>) else None)"
| "run_next (FsEvent created) s =
     (if loc s = Selecting then Some (if created then s\<lparr>loc := Restart\<rparr> else s) else None)"
| "run_next StopReceived s =
     (if loc s = Selecting \<and> stopClosed s
      then Some (if stoOpen s then s\<lparr>loc := Returned, stoOpen := False, live := 0\<rparr> else s\<lparr>loc := Panicked\<rparr>)
      else None)"
| "run_next CloseStop s = (if stopClosed s then None else Some (s\<lparr>stopClosed := True\<rparr>))"

inductive run_step :: "run_state \<Rightarrow> event \<Rightarrow> run_state \<Rightarrow> bool" where
  step: "run_next e s = Some t \<Longrightarrow> run_step s e t"

inductive_simps run_step_simps: "run_step s e t"

fun run_events :: "event list \<Rightarrow> run_state \<Rightarrow> run_state option" where
  "run_events [] s = Some s"
| "run_events (e # es) s = Option.bind (run_next e s) (run_events es)"

inductive run_reachable :: "run_state \<Rightarrow> bool" where
  init: "run_reachable run_init"
| more: "run_reachable s \<Longrightarrow> run_step s e t \<Longrightarrow> run_reachable t"

section \<open>Invariant\<close>

definition run_inv :: "run_state \<Rightarrow> bool" where
  "run_inv s \<longleftrightarrow>
     live s \<le> 1 \<and>
     (loc s \<noteq> Returned \<longrightarrow> stoOpen s) \<and>
     (loc s = Returned \<longrightarrow> live s = 0 \<and> stopClosed s) \<and>
     (loc s = Serving \<longrightarrow> live s = 0) \<and>
     (loc s \<in> {Waiting, Registering, Selecting} \<longrightarrow> live s = 1) \<and>
     (loc s = Blocked \<longrightarrow> errChan s \<noteq> None \<and> live s = 1)"

lemma run_inv_init: "run_inv run_init"
  by (simp add: run_inv_def run_init_def)

lemma run_inv_next: "run_next e s = Some t \<Longrightarrow> run_inv s \<Longrightarrow> run_inv t"
  by (cases e) (auto simp: run_inv_def split: if_splits)

lemma run_reachable_inv: "run_reachable s \<Longrightarrow> run_inv s"
  by (induction rule: run_reachable.induct) (auto simp: run_step_simps run_inv_init intro: run_inv_next)

text \<open>The only panic is a \<open>Listen\<close> that fails: no channel is closed twice.\<close>

lemma run_panic_cause: "run_inv s \<Longrightarrow> loc s \<noteq> Panicked \<Longrightarrow> run_next e s = Some t \<Longrightarrow> loc t = Panicked \<Longrightarrow> e = ListenFails"
  by (cases e) (auto simp: run_inv_def split: if_splits)

lemma run_reachable_events: "run_reachable s \<Longrightarrow> run_events es s = Some t \<Longrightarrow> run_reachable t"
proof (induction es arbitrary: s)
  case (Cons e es)
  then obtain u where "run_next e s = Some u" "run_events es u = Some t"
    by (auto simp: bind_eq_Some_conv)
  with Cons show ?case by (blast intro: run_reachable.more run_step.step)
qed simp

lemma run_blocked_stays: "loc s = Blocked \<Longrightarrow> run_next e s = Some t \<Longrightarrow> loc t = Blocked"
  by (cases e) (auto split: if_splits)

lemma run_events_append: "run_events (es @ fs) s = Option.bind (run_events es s) (run_events fs)"
proof (induction es arbitrary: s)
  case (Cons e es)
  then show ?case by (cases "run_next e s") simp_all
qed simp

text \<open>Waiting for a socket that never answers does not look at \<open>stop\<close>.\<close>

lemma wait_fails_loop:
  assumes "loc s = Restart" "stoOpen s"
  shows "\<exists>t. run_events (concat (replicate n [Slept, ListenOk, WaitFails e])) s = Some t \<and>
     loc t = Restart \<and> stoOpen t \<and> stopClosed t = stopClosed s"
  using assms
proof (induction n arbitrary: s)
  case (Suc n)
  let ?es = "[Slept, ListenOk, WaitFails e]" and ?t = "s\<lparr>loc := Restart, live := 1\<rparr>"
  have once: "run_events ?es s = Some ?t" using Suc.prems by simp
  have "run_events (concat (replicate (Suc n) ?es)) s = run_events (concat (replicate n ?es)) ?t"
    by (simp only: replicate_Suc concat.simps run_events_append once Option.bind.bind_lunit)
  then show ?case using Suc.IH [of ?t] Suc.prems(2) by simp
qed simp

end
