(* ===== verification/Hazards.thy ===== *)
theory Hazards
  imports BindFacts
begin

text \<open>
  What happens outside the discipline of CacheMachine. \<open>Bind\<close> chooses a board from the node
  info without the cache's lock and assumes the pod later, so two binds can choose the same
  orins before either assumes: both succeed. A bind is here just those two calls, with the
  bin-packing policy; the API calls and retries around them do not touch the cache in between.
  And a node that loses devices its pods hold is
  given no allocatable boards, holds requests no pod accounts for, and refuses every pod until
  its capacity changes again.
\<close>

section \<open>Two binds that overlap\<close>

datatype bind_action = Choose nat | AssumeChosen nat

record race_state =
  race_cache :: scheduleCache
  chosen :: "nat \<Rightarrow> int option"
  outcomes :: "nat \<Rightarrow> cache_error option option"

text \<open>
  Bind number \<open>i\<close> binds \<open>pods i\<close> to \<open>node\<close>. \<open>Choose i\<close> is its call to \<open>Allocate\<close>,
  \<open>AssumeChosen i\<close> its call to \<open>AssumePod\<close>, each atomic.
\<close>

fun race_step :: "(BoardDetails \<Rightarrow> int list) \<Rightarrow> string \<Rightarrow> (nat \<Rightarrow> Pod) \<Rightarrow> bind_action \<Rightarrow> race_state \<Rightarrow> race_state" where
  "race_step rng node pods (Choose i) s =
     (case Cache_GetNode (race_cache s) node of
        None \<Rightarrow> s
      | Some ni \<Rightarrow>
          (let b = boardID (BinpackAllocate rng (Allocatable ni) (BuildRequestOrinSet (pods i)))
           in if b = BoardIDNotFount then s else s\<lparr>chosen := (chosen s)(i \<mapsto> b)\<rparr>))"
| "race_step rng node pods (AssumeChosen i) s =
     (case chosen s i of
        None \<Rightarrow> s
      | Some b \<Rightarrow>
          (case Cache_AssumePod (race_cache s) (AddPodBindAnnotation (pods i) b) node of
             (c', err) \<Rightarrow> s\<lparr>race_cache := c', outcomes := (outcomes s)(i \<mapsto> err)\<rparr>))"

definition run_race ::
  "(BoardDetails \<Rightarrow> int list) \<Rightarrow> string \<Rightarrow> (nat \<Rightarrow> Pod) \<Rightarrow> bind_action list \<Rightarrow> scheduleCache \<Rightarrow> race_state" where
  "run_race rng node pods acts c =
     fold (race_step rng node pods) acts \<lparr>race_cache = c, chosen = Map.empty, outcomes = Map.empty\<rparr>"

lemma AssumePod_covered:
  assumes ni: "Cache_GetNode c node = Some ni" and unknown: "\<not> has_key (podMaps c) (pod_UID pod)"
    and fresh: "\<not> has_key (Pods ni) (pod_UID pod)" and b: "bind_board pod = Some b"
    and cov: "covers (Total ni) (requested_after ni pod b)"
  obtains c' ni' where "Cache_AssumePod c pod node = (c', None)" "Cache_GetNode c' node = Some ni'"
    "Pods ni' = fmupd (pod_UID pod) pod (Pods ni)" "Total ni' = Total ni" "Requested ni' = requested_after ni pod b"
    "podMaps c' = fmupd (pod_UID pod) pod (podMaps c)"
  using assms
  by (auto simp: Cache_AssumePod_def Cache_GetNode_def addPod_fresh [OF b fresh] addPod_request_eq)

lemma overlapping_assumes:
  assumes sound: "cache_sound c" and ni: "Cache_GetNode c node = Some ni"
    and uids: "pod_UID p \<noteq> pod_UID q"
    and p: "\<not> has_key (podMaps c) (pod_UID p)" "\<not> has_key (Pods ni) (pod_UID p)"
    and q: "\<not> has_key (podMaps c) (pod_UID q)" "\<not> has_key (Pods ni) (pod_UID q)"
    and b: "fits_board (Allocatable ni) (BuildRequestOrinSet p) b" "fits_board (Allocatable ni) (BuildRequestOrinSet q) b"
  shows "\<exists>c1 c2 ni2. Cache_AssumePod c (AddPodBindAnnotation p b) node = (c1, None) \<and>
     Cache_AssumePod c1 (AddPodBindAnnotation q b) node = (c2, None) \<and> Cache_GetNode c2 node = Some ni2 \<and>
     fmlookup (Pods ni2) (pod_UID p) = Some (AddPodBindAnnotation p b) \<and>
     fmlookup (Pods ni2) (pod_UID q) = Some (AddPodBindAnnotation q b)"
proof -
  have ns: "node_sound ni" using sound ni cache_soundD [of c node ni] by (simp add: Cache_GetNode_def)
  have b64: "in_int64 b" by (rule chosen_board_int64 [OF ns b(1)])
  have inv: "ni_inv ni" using ns by (simp add: node_sound_def)
  let ?p = "AddPodBindAnnotation p b" and ?q = "AddPodBindAnnotation q b"
  let ?R = "requested_after ni ?p b"
  have sub: "{b} \<times> fset (BuildRequestOrinSet p) \<subseteq> slots (Total ni)" "{b} \<times> fset (BuildRequestOrinSet q) \<subseteq> slots (Total ni)"
    "b |\<in>| BoardSet (Total ni)"
    using b ni_inv_slots [OF inv] ni_inv_boards [OF inv] by (auto simp: fits_board_slots simp del: slots_iff)
  have cov: "covers (Total ni) ?R"
    using inv sub by (auto simp: ni_inv_iff covers_slots slots_requested_after BoardSet_requested_after simp del: slots_iff)
  obtain c1 ni1 where c1: "Cache_AssumePod c ?p node = (c1, None)" "Cache_GetNode c1 node = Some ni1"
    "Pods ni1 = fmupd (pod_UID p) ?p (Pods ni)" "Total ni1 = Total ni" "Requested ni1 = ?R"
    "podMaps c1 = fmupd (pod_UID p) ?p (podMaps c)"
    using AssumePod_covered [OF ni, of ?p b] p b64 cov by auto
  have cov1: "covers (Total ni1) (requested_after ni1 ?q b)"
    using cov sub by (auto simp: c1(4,5) covers_slots slots_requested_after BoardSet_requested_after simp del: slots_iff)
  have q1: "\<not> has_key (podMaps c1) (pod_UID ?q)" "\<not> has_key (Pods ni1) (pod_UID ?q)" "bind_board ?q = Some b"
    using q uids b64 by (simp_all add: c1(3,6))
  obtain c2 ni2 where c2: "Cache_AssumePod c1 ?q node = (c2, None)" "Cache_GetNode c2 node = Some ni2"
    "Pods ni2 = fmupd (pod_UID ?q) ?q (Pods ni1)"
    using AssumePod_covered [OF c1(2) q1 cov1] by blast
  have "fmlookup (Pods ni2) (pod_UID p) = Some ?p" "fmlookup (Pods ni2) (pod_UID q) = Some ?q"
    using uids by (simp_all add: c2(3) c1(3))
  with c1(1) c2(1,2) show ?thesis by blast
qed

lemma run_race_overlap:
  assumes rng: "range_order rng" and sound: "cache_sound c" and ni: "Cache_GetNode c node = Some ni"
    and uids: "pod_UID (pods 0) \<noteq> pod_UID (pods 1)"
    and fresh: "\<And>i. i < 2 \<Longrightarrow> \<not> has_key (podMaps c) (pod_UID (pods i)) \<and> \<not> has_key (Pods ni) (pod_UID (pods i))"
    and same: "BuildRequestOrinSet (pods 0) = BuildRequestOrinSet (pods 1)"
    and b: "boardID (BinpackAllocate rng (Allocatable ni) (BuildRequestOrinSet (pods 0))) = b" "b \<noteq> BoardIDNotFount"
  shows "\<exists>ni2. Cache_GetNode (race_cache (run_race rng node pods [Choose 0, Choose 1, AssumeChosen 0, AssumeChosen 1] c)) node = Some ni2 \<and>
     outcomes (run_race rng node pods [Choose 0, Choose 1, AssumeChosen 0, AssumeChosen 1] c) = [0 \<mapsto> None, 1 \<mapsto> None] \<and>
     (\<forall>i < 2. fmlookup (Pods ni2) (pod_UID (pods i)) = Some (AddPodBindAnnotation (pods i) b))"
proof -
  have fits: "fits_board (Allocatable ni) (BuildRequestOrinSet (pods 0)) b" by (rule chosen_fits [OF rng b])
  obtain c1 c2 ni2 where run: "Cache_AssumePod c (AddPodBindAnnotation (pods 0) b) node = (c1, None)"
    "Cache_AssumePod c1 (AddPodBindAnnotation (pods 1) b) node = (c2, None)" "Cache_GetNode c2 node = Some ni2"
    "fmlookup (Pods ni2) (pod_UID (pods 0)) = Some (AddPodBindAnnotation (pods 0) b)"
    "fmlookup (Pods ni2) (pod_UID (pods 1)) = Some (AddPodBindAnnotation (pods 1) b)"
    using overlapping_assumes [OF sound ni uids, of b] fresh [of 0] fresh [of 1] fits fits [unfolded same] by auto
  have "run_race rng node pods [Choose 0, Choose 1, AssumeChosen 0, AssumeChosen 1] c =
      \<lparr>race_cache = c2, chosen = [0 \<mapsto> b, 1 \<mapsto> b], outcomes = [0 \<mapsto> None, 1 \<mapsto> None]\<rparr>"
    using b by (simp add: run_race_def ni same run(1,2) Let_def del: One_nat_def)
  then show ?thesis using run(3,4,5) by (auto simp: less_2_cases_iff)
qed

section \<open>Lost devices\<close>

lemma UpdateNode_lost:
  assumes "compatible (NewNodeInfo old []) pods" "\<not> BoardDetails_Equal (node_total old) (node_total new)"
    "\<not> covers (node_total new) (Requested (NewNodeInfo old pods))"
  shows "\<exists>c' ni. Cache_UpdateNode c old new pods = (c', None) \<and> Cache_GetNode c' (node_Name new) = Some ni \<and>
     Allocatable ni = fmempty \<and> Requested ni = Requested (NewNodeInfo old pods) \<and> poisoned ni"
  using assms
  by (auto simp: Cache_UpdateNode_def Let_def Cache_GetNode_def DifferenceFromSuperset_eq poisoned_def)

lemma poisoned_assume:
  assumes "Cache_GetNode c node = Some ni" "poisoned ni" "\<not> has_key (Pods ni) (pod_UID pod)"
    "bind_board pod = Some b"
  shows "snd (Cache_AssumePod c pod node) \<noteq> None"
  using assms poisoned_addPod(1) [OF assms(2,4,3)]
  by (auto simp: Cache_AssumePod_def Cache_GetNode_def split: prod.split option.split)

section \<open>Stale annotations\<close>

lemma AssumePod_node:
  assumes sound: "cache_sound c" and ni: "Cache_GetNode c node = Some ni"
    and fresh: "\<not> has_key (Pods ni) (pod_UID p)" and bind: "bind_board p = Some b"
    and fits: "fits_board (Allocatable ni) (BuildRequestOrinSet p) b"
    and asm: "Cache_AssumePod c p node = (c1, None)"
  shows "\<exists>ni1. Cache_GetNode c1 node = Some ni1 \<and> node_sound ni1 \<and> Pods ni1 = fmupd (pod_UID p) p (Pods ni) \<and>
     slots (Allocatable ni1) = slots (Allocatable ni) - pod_slots p"
proof -
  have ns: "node_sound ni" using sound ni cache_soundD by (simp add: Cache_GetNode_def)
  obtain ni1 where ni1: "NodeInfo_addPod ni p = (ni1, None)" "Pods ni1 = fmupd (pod_UID p) p (Pods ni)"
    "slots (Allocatable ni1) = slots (Allocatable ni) - pod_slots p"
    using addPod_exclusive [OF _ _ fresh bind fits] ns by (auto simp: node_sound_def)
  moreover have "node_sound ni1" using node_sound_addPod(1) [OF ns fresh bind fits] ni1(1) by simp
  ultimately show ?thesis
    using asm ni by (auto simp: Cache_AssumePod_def Cache_GetNode_def split: if_splits)
qed

text \<open>
  \<open>ForgetPod\<close> is handed the pod as the API server has it. When that copy still carries the
  board of an earlier bind, the orins it releases are those of that board, whoever holds
  them now, and the ones just claimed stay claimed by nobody.
\<close>

lemma Bind_stale_annotation:
  fixes cs :: "'w clientset"
  assumes rng: "range_order rng" and fresh: "fresh_bind c node u" and unknown: "\<not> has_key (podMaps c) u"
    and R: "retry_contract R" and ni: "Cache_GetNode c node = Some ni"
    and cs: "answers cs pod (Some err) bnd" and u: "pod_UID pod = u" and pol: "policy_of pod = AllocatorPolicyBinPack"
    and b: "boardID (BinpackAllocate rng (Allocatable ni) (BuildRequestOrinSet pod)) = b" "b \<noteq> BoardIDNotFount"
    and stale: "bind_board pod = Some d"
    and victim: "fmlookup (Pods ni) v = Some q" "bind_board q = Some d"
      "BuildRequestOrinSet pod |\<subseteq>| BuildRequestOrinSet q"
  shows "\<exists>c' w' e ni'. Bind cs R rng c w node name ns u = Ret ((c', w'), Some e) \<and>
     Cache_GetNode c' node = Some ni' \<and> fmlookup (Pods ni') v = Some q \<and> \<not> has_key (Pods ni') u \<and>
     slots (Allocatable ni') =
       (slots (Allocatable ni) - {b} \<times> fset (BuildRequestOrinSet pod)) \<union> {d} \<times> fset (BuildRequestOrinSet pod)"
proof -
  let ?p = "AddPodBindAnnotation pod b"
  have nk: "\<not> has_key (Pods ni) (pod_UID pod)" and sound: "cache_sound c" and unk: "\<not> has_key (podMaps c) (pod_UID pod)"
    using fresh ni unknown u by (auto simp: fresh_bind_def not_on_node_def)
  have fits: "fits_board (Allocatable ni) (BuildRequestOrinSet pod) b" by (rule chosen_fits [OF rng b])
  have "node_sound ni" using sound ni cache_soundD by (simp add: Cache_GetNode_def)
  then have b64: "in_int64 b" by (rule chosen_board_int64 [OF _ fits])
  obtain c1 where c1: "Cache_AssumePod c ?p node = (c1, None)" "claims c node (pod_UID pod) pod b c1"
    using AssumePod_claims [OF sound ni nk unk fits] by blast
  have keys: "\<not> has_key (Pods ni) (pod_UID ?p)" "bind_board ?p = Some b"
    "fits_board (Allocatable ni) (BuildRequestOrinSet ?p) b" using nk b64 fits by simp_all
  obtain ni1 where ni1: "Cache_GetNode c1 node = Some ni1" "node_sound ni1"
    "Pods ni1 = fmupd (pod_UID ?p) ?p (Pods ni)" "slots (Allocatable ni1) = slots (Allocatable ni) - pod_slots ?p"
    using AssumePod_node [OF sound ni keys c1(1)] by blast
  have vu: "v \<noteq> u" using nk victim(1) u by (auto simp: has_key_def)
  have q1: "fmlookup (Pods ni1) v = Some q" using ni1(3) victim(1) vu u by simp
  have "{d} \<times> fset (BuildRequestOrinSet pod) \<subseteq> pod_slots q"
    using victim(3) by (auto simp: pod_slots_bound [OF victim(2)] less_eq_fset.rep_eq)
  also have "\<dots> \<subseteq> slots (Requested ni1)"
  proof -
    have "slots (Requested ni1) = held_slots (Pods ni1)" using ni1(2) by (simp add: node_sound_def ni_exclusive_def)
    then show ?thesis using q1 unfolding held_slots_def by blast
  qed
  finally have "fits_board (Requested ni1) (BuildRequestOrinSet pod) d"
    using ni_exclusiveD [OF _ q1] ni1(2) victim(2) by (auto simp: node_sound_def fits_board_slots simp del: slots_iff)
  moreover have "has_key (Pods ni1) (pod_UID pod)" by (simp add: ni1(3))
  ultimately have del: "NodeInfo_deletePod ni1 pod =
      (ni1\<lparr>Requested := board_minus (Requested ni1) (release_of pod d),
           Allocatable := BoardDetails_Add (Allocatable ni1) d (AddAll fmempty d (BuildRequestOrinSet pod)),
           Pods := fmdrop (pod_UID pod) (Pods ni1)\<rparr>, None)" (is "_ = (?ni2, None)")
    by (simp add: deletePod_eq [OF stale])
  have "has_key (podMaps c1) (pod_UID pod)" using c1(2) by (simp add: claims_def)
  then have "fst (Cache_ForgetPod c1 pod node) = set_node c1 node ?ni2"
    using ni1(1) del by (simp add: Cache_ForgetPod_def Cache_GetNode_def)
  moreover have "slots (Allocatable ?ni2) =
      (slots (Allocatable ni) - {b} \<times> fset (BuildRequestOrinSet pod)) \<union> {d} \<times> fset (BuildRequestOrinSet pod)"
    using b64 by (auto simp: slots_Add ni1(4) pod_slots_bound simp del: slots_iff)
  moreover have "fmlookup (Pods ?ni2) v = Some q" "\<not> has_key (Pods ?ni2) u" using q1 vu u by simp_all
  ultimately show ?thesis
    using Bind_update_refused [OF R ni cs u pol b c1(1), of w name ns]
    by (auto simp: Cache_GetNode_def simp del: slots_iff)
qed

end
