(* ===== verification/Samples.thy ===== *)
theory Samples
  imports Routes ControllerFacts PluginFacts PluginRun Hazards
begin

text \<open>
  Concrete objects the witnesses of the properties evaluate: a node with two boards, pods that
  ask for one or two orins, the caches built from them, a client that answers every call the
  same way, and a retry loop that is the attempts themselves.
\<close>

definition s_node :: Node where
  "s_node = \<lparr>node_Name = ''n1'',
     node_Capacity = fmap_of_list [(ExtendResouceTypeBoardPrefix @ ''1'', 11), (ExtendResouceTypeBoardPrefix @ ''2'', 10),
                                   (''cpu'', 4)],
     node_DeletionTimestamp = None\<rparr>"

definition s_node_lost :: Node where
  "s_node_lost = s_node\<lparr>node_Capacity := fmap_of_list [(ExtendResouceTypeBoardPrefix @ ''2'', 10)]\<rparr>"

definition s_pod :: "uid \<Rightarrow> string list \<Rightarrow> Pod" where
  "s_pod u orins = \<lparr>pod_Name = u, pod_Namespace = ''d'', pod_UID = u, pod_ResourceVersion = ''1'',
     pod_Annotations = fmempty, pod_Labels = fmempty, pod_NodeName = ''n1'',
     pod_Containers = [\<lparr>c_Name = ''c'', c_Limits = fmap_of_list (map (\<lambda>i. (ExtendResouceTypeOrinPrefix @ i, 1)) orins)\<rparr>],
     pod_Phase = PodRunning, pod_DeletionTimestamp = None\<rparr>"

definition s_p1 :: Pod where "s_p1 = s_pod ''u1'' [''1'']"
definition s_p2 :: Pod where "s_p2 = s_pod ''u2'' [''1'', ''2'']"
definition s_b1 :: Pod where "s_b1 = AddPodBindAnnotation s_p1 1"

definition s_ni :: NodeInfo where "s_ni = NewNodeInfo s_node []"
definition s_cache :: scheduleCache where "s_cache = fst (Cache_AddNode NewScheduleCache s_node [])"
definition s_cache1 :: scheduleCache where "s_cache1 = fst (Cache_AssumePod s_cache s_b1 ''n1'')"

lemma s_request: "BuildRequestOrinSet s_p1 = {|1|}" "BuildRequestOrinSet s_p2 = {|1, 2|}"
  by code_simp+

lemma s_chosen: "boardID (BinpackAllocate sorted_range (Allocatable s_ni) {|1|}) = 1"
  by code_simp

lemma s_fits: "fits_board (Allocatable s_ni) {|1|} 1" "fits_board (Allocatable s_ni) {|1, 2|} 1"
  by code_simp+

lemma s_cache_node: "Cache_GetNode s_cache ''n1'' = Some s_ni"
  by (simp add: s_cache_def s_ni_def Cache_AddNode_def Cache_GetNode_def s_node_def)

lemma s_ni_sound: "node_sound s_ni"
  by (simp add: s_ni_def NewNodeInfo_nil_sound)

lemma s_ni_Pods: "Pods s_ni = fmempty"
  by (simp add: s_ni_def NewNodeInfo_def)

lemma s_cache_reachable: "cache_reachable s_cache"
  unfolding s_cache_def
  by (rule cache_reachable.step [OF cache_reachable.start cache_step.node_added]) simp

lemma s_cache_podMaps: "podMaps s_cache = fmempty"
  by (simp add: s_cache_def Cache_AddNode_def NewScheduleCache_def)

lemma s_fresh: "fresh_bind s_cache ''n1'' u"
  using cache_reachable_sound [OF s_cache_reachable]
  by (simp add: fresh_bind_def not_on_node_def s_cache_node s_ni_Pods)

text \<open>A client that serves one pod; the world counts its calls.\<close>

definition s_client :: "Pod \<Rightarrow> string option \<Rightarrow> string option \<Rightarrow> nat clientset" where
  "s_client pod upd bnd =
     \<lparr>cs_GetPod = \<lambda>w _ _. (w + 1, Inr pod), cs_UpdatePod = \<lambda>w _ _. (w + 1, upd),
      cs_BindPod = \<lambda>w _ _ _ _. (w + 1, bnd), cs_GetNode = \<lambda>w _. (w + 1, Inr s_node)\<rparr>"

lemma s_client_answers: "answers (s_client pod upd bnd) pod upd bnd"
  by (simp add: answers_def s_client_def)

definition s_retry :: "('s, manager_error) retry" where
  "s_retry n f s = (case attempts n f s of Panic \<Rightarrow> Panic
     | Ret (s', ok) \<Rightarrow> Ret (s', if ok then None else Some (ApiError ''retry'')))"

lemma s_retry_contract: "retry_contract s_retry"
  by (auto simp: retry_contract_def s_retry_def split: outcome.split)

lemma s_p1_facts: "policy_of s_p1 = AllocatorPolicyBinPack" "pod_UID s_p1 = ''u1''"
  "fmlookup (pod_Annotations s_p1) AnnotationPodBindToBoard = None"
  by code_simp+

lemma s_board: "boardID (BinpackAllocate sorted_range (Allocatable s_ni) (BuildRequestOrinSet s_p1)) = 1"
  "(1 :: int) \<noteq> BoardIDNotFount"
  using s_chosen s_request by (simp_all add: BoardIDNotFount_def)

text \<open>A controller whose queue is a list and whose listers serve the given pods.\<close>

definition s_env :: "Pod list \<Rightarrow> (string list, nat) env" where
  "s_env pods =
     \<lparr>wq_Get = \<lambda>q. case q of [] \<Rightarrow> got.Blocked | k # ks \<Rightarrow> Item k ks,
      wq_Add = \<lambda>k q. if k \<in> set q then q else q @ [k], wq_Done = \<lambda>_ q. q, wq_Forget = \<lambda>_ q. q,
      wq_AddRateLimited = \<lambda>k q. q @ [k],
      KeyFunc = \<lambda>p. Inr (pod_Namespace p @ ''/'' @ pod_Name p),
      SplitMetaNamespaceKey = \<lambda>k. (case SplitChar k CHR ''/'' of [ns, n] \<Rightarrow> Inr (ns, n) | _ \<Rightarrow> Inl k),
      podLister_Get = \<lambda>_ ns n. (case find (\<lambda>p. pod_Namespace p = ns \<and> pod_Name p = n) pods of
                                   None \<Rightarrow> Inl IsNotFound | Some p \<Rightarrow> Inr p),
      podLister_List = \<lambda>_. Inr pods,
      clientset = s_client s_p1 None None\<rparr>"

definition s_ctl :: "string list \<Rightarrow> (string list, nat) Controller" where
  "s_ctl q = \<lparr>manager = s_cache, podQueue = q, world = 0\<rparr>"

lemma s_sync:
  "syncPod (s_env [s_b1]) \<lparr>manager = s_cache, podQueue = q, world = 0\<rparr> ''d/u1'' =
     (\<lparr>manager = fst (Cache_AddPod s_cache s_b1), podQueue = q, world = 0\<rparr>, True, None)"
proof -
  have "SplitMetaNamespaceKey (s_env [s_b1]) ''d/u1'' = Inr (''d'', ''u1'')" by code_simp
  moreover have "podLister_Get (s_env [s_b1]) 0 ''d'' ''u1'' = Inr s_b1" by code_simp
  moreover have "\<not> IsCompletedPod s_b1" "pod_NodeName s_b1 = ''n1''" "snd (Cache_AddPod s_cache s_b1) = None"
    "fmlookup (pod_Annotations s_b1) AnnotationPodBindToBoard = Some ''1''" by code_simp+
  ultimately show ?thesis
    by (auto simp: syncPod_def assignPod_def s_cache_node Let_def split: prod.split)
qed

end
