(* ===== verification/SchedulerProperties.thy ===== *)
theory SchedulerProperties
  imports Samples
begin

text \<open>
  The properties of the scheduler extender: the cache, the manager, the allocator, the
  topology maps, the decimal encoding, the worker pool and the controller. Each theorem is
  followed by its witness, which applies it to the objects of Samples.
\<close>

section \<open>The cache\<close>

text \<open>
  In every cache the operations can reach, a node's requested slots are exactly the
  slots its pods hold, no slot is held by two pods, and the allocatable slots are the
  total less the held ones.
\<close>

theorem reachable_cache_exclusive:
  assumes "cache_reachable c" "Cache_GetNode c name = Some ni"
  shows "slots (Requested ni) = held_slots (Pods ni) \<and> disjoint_pods (Pods ni) \<and>
     held_slots (Pods ni) \<subseteq> slots (Total ni) \<and>
     slots (Allocatable ni) = slots (Total ni) - held_slots (Pods ni)"
  using node_sound_accounts [of ni] cache_soundD [OF cache_reachable_sound] assms
  by (simp add: Cache_GetNode_def del: slots_iff)

lemma reachable_cache_exclusive_witness:
  "slots (Allocatable (the (Cache_GetNode s_cache1 ''n1''))) =
     slots (Total (the (Cache_GetNode s_cache1 ''n1''))) - held_slots (Pods (the (Cache_GetNode s_cache1 ''n1'')))"
proof -
  have "cache_step NewScheduleCache s_cache" unfolding s_cache_def by (rule cache_step.node_added) simp
  then have r: "cache_reachable s_cache" by (rule cache_reachable.step [OF cache_reachable.start])
  have "cache_step s_cache s_cache1"
    unfolding s_cache1_def s_b1_def
    by (rule cache_step.pod_assumed [where ni = s_ni and rng = sorted_range])
      (use range_order_sorted s_chosen s_request in
        \<open>simp_all add: s_cache_def Cache_AddNode_def s_ni_def s_node_def NewNodeInfo_def BoardIDNotFount_def NewScheduleCache_def\<close>)
  then have "cache_reachable s_cache1" by (rule cache_reachable.step [OF r])
  moreover have "Cache_GetNode s_cache1 ''n1'' \<noteq> None" by code_simp
  ultimately show ?thesis
    using reachable_cache_exclusive [of s_cache1 "''n1''" "the (Cache_GetNode s_cache1 ''n1'')"] by simp
qed

text \<open>
  Deleting a pod from a node keeps the accounting identity \<open>Allocatable = Total - Requested\<close>,
  the check the source leaves as a TODO, whatever pod is handed in.
\<close>

theorem deletePod_keeps_identity:
  assumes "DifferenceFromSuperset (Total ni) (Requested ni) = Inr (Allocatable ni)" "board_wf (Total ni)"
  shows "DifferenceFromSuperset (Total (fst (NodeInfo_deletePod ni pod))) (Requested (fst (NodeInfo_deletePod ni pod))) =
     Inr (Allocatable (fst (NodeInfo_deletePod ni pod)))"
  using deletePod_inv [of ni pod] assms by (simp add: ni_inv_def)

lemma deletePod_keeps_identity_witness:
  "let ni = the (Cache_GetNode s_cache1 ''n1''); ni' = fst (NodeInfo_deletePod ni s_b1)
   in Pods ni' = fmempty \<and> DifferenceFromSuperset (Total ni') (Requested ni') = Inr (Allocatable ni')"
proof -
  let ?ni = "the (Cache_GetNode s_cache1 ''n1'')"
  have "DifferenceFromSuperset (Total ?ni) (Requested ?ni) = Inr (Allocatable ?ni)" by code_simp
  moreover have "board_wf (Total ?ni)" by code_simp
  moreover have "Pods (fst (NodeInfo_deletePod ?ni s_b1)) = fmempty" by code_simp
  ultimately show ?thesis using deletePod_keeps_identity [of ?ni s_b1] by (simp add: Let_def)
qed

text \<open>
  C25: A node accepts a pod on a board that has its orins free, records it, and takes exactly
  those orins out of the allocatable ones.
\<close>

theorem addPod_takes_free_orins:
  assumes "node_sound ni" "\<not> has_key (Pods ni) (pod_UID pod)" "bind_board pod = Some b"
    "fits_board (Allocatable ni) (BuildRequestOrinSet pod) b"
  shows "\<exists>ni'. NodeInfo_addPod ni pod = (ni', None) \<and> node_sound ni' \<and>
     Pods ni' = fmupd (pod_UID pod) pod (Pods ni) \<and> Total ni' = Total ni \<and>
     slots (Allocatable ni') = slots (Allocatable ni) - {b} \<times> fset (BuildRequestOrinSet pod)"
  using addPod_exclusive [of ni pod b] node_sound_addPod [OF assms] Total_addPod [of ni pod] assms
  by (auto simp: node_sound_def pod_slots_bound simp del: slots_iff Total_addPod)

lemma s_b1_bound: "bind_board s_b1 = Some 1" "BuildRequestOrinSet s_b1 = {|1|}" "pod_UID s_b1 = ''u1''"
  by code_simp+

lemma addPod_takes_free_orins_witness:
  "\<exists>ni'. NodeInfo_addPod s_ni s_b1 = (ni', None) \<and> slots (Allocatable ni') = slots (Allocatable s_ni) - {1} \<times> fset {|1|}"
  using addPod_takes_free_orins [of s_ni s_b1 1] s_ni_sound s_b1_bound s_fits by (auto simp: s_ni_Pods)

text \<open>
  C26: Adding a pod and deleting it again gives the orins back: the same pods, the same
  allocatable and the same requested slots as before.
\<close>

theorem add_delete_roundtrip:
  assumes "node_sound ni" "\<not> has_key (Pods ni) (pod_UID pod)" "bind_board pod = Some b"
    "fits_board (Allocatable ni) (BuildRequestOrinSet pod) b"
  shows "\<exists>ni2. NodeInfo_deletePod (fst (NodeInfo_addPod ni pod)) pod = (ni2, None) \<and>
     Pods ni2 = Pods ni \<and> Allocatable ni2 = Allocatable ni \<and> slots (Requested ni2) = slots (Requested ni)"
proof -
  obtain ni1 where ni1: "NodeInfo_addPod ni pod = (ni1, None)" "ni_inv ni1" "ni_exclusive ni1"
    "Pods ni1 = fmupd (pod_UID pod) pod (Pods ni)" "slots (Allocatable ni1) = slots (Allocatable ni) - pod_slots pod"
    using addPod_exclusive [of ni pod b] assms by (auto simp: node_sound_def)
  have "fmlookup (Pods ni1) (pod_UID pod) = Some pod" by (simp add: ni1(4))
  from deletePod_exclusive [OF ni1(2,3) this refl refl] obtain ni2 where
    ni2: "NodeInfo_deletePod ni1 pod = (ni2, None)" "ni_inv ni2" "ni_exclusive ni2"
    "Pods ni2 = fmdrop (pod_UID pod) (Pods ni1)" "slots (Allocatable ni2) = slots (Allocatable ni1) \<union> pod_slots pod" by blast
  have none: "fmlookup (Pods ni) (pod_UID pod) = None" using assms(2) by (simp add: has_key_def)
  have pods: "Pods ni2 = Pods ni"
    unfolding ni2(4) ni1(4) by (rule fmap_ext) (simp add: none)
  have T: "Total ni2 = Total ni" using Total_deletePod [of ni1 pod] Total_addPod [of ni pod] ni1(1) ni2(1) by simp
  have inv: "ni_inv ni" using assms(1) by (simp add: node_sound_def)
  have sub: "pod_slots pod \<subseteq> slots (Allocatable ni)"
    using assms(3,4) by (simp add: fits_board_slots pod_slots_bound)
  have A: "slots (Allocatable ni2) = slots (Allocatable ni)"
    using sub unfolding ni2(5) ni1(5) by blast
  have "Allocatable ni2 = Allocatable ni"
  proof (rule board_wf_determined)
    show "board_wf (Allocatable ni2)" "board_wf (Allocatable ni)"
      using inv ni2(2) by (auto simp: ni_inv_iff intro!: inv_intros)
    show "BoardSet (Allocatable ni2) = BoardSet (Allocatable ni)"
      using ni_inv_boards [OF inv] ni_inv_boards [OF ni2(2)] T by simp
  qed (rule A)
  moreover have "slots (Requested ni2) = slots (Requested ni)"
    using ni2(3) assms(1) pods by (simp add: ni_exclusive_def node_sound_def)
  ultimately show ?thesis using ni1(1) ni2(1) pods by (simp del: slots_iff)
qed

lemma add_delete_roundtrip_witness:
  "\<exists>ni2. NodeInfo_deletePod (fst (NodeInfo_addPod s_ni s_b1)) s_b1 = (ni2, None) \<and> Allocatable ni2 = Allocatable s_ni"
  using add_delete_roundtrip [of s_ni s_b1 1] s_ni_sound s_b1_bound s_fits by (auto simp: s_ni_Pods)

text \<open>
  C27: An \<open>addPod\<close> that fails on a node has already written its request: from then on every
  pod the node does not hold is refused, and neither the pods nor the allocatable orins change.
\<close>

theorem failed_addPod_poisons_node:
  assumes "\<not> has_key (Pods ni) (pod_UID p)" "bind_board p = Some a" "snd (NodeInfo_addPod ni p) \<noteq> None"
    and "\<not> has_key (Pods ni) (pod_UID q)" "bind_board q = Some b"
  shows "snd (NodeInfo_addPod (fst (NodeInfo_addPod ni p)) q) \<noteq> None \<and>
     Pods (fst (NodeInfo_addPod (fst (NodeInfo_addPod ni p)) q)) = Pods ni \<and>
     Allocatable (fst (NodeInfo_addPod (fst (NodeInfo_addPod ni p)) q)) = Allocatable ni"
proof -
  let ?ni = "fst (NodeInfo_addPod ni p)"
  have eq: "NodeInfo_addPod ni p = addPod_request ni p a" by (rule addPod_fresh [OF assms(2,1)])
  have bad: "poisoned ?ni" using addPod_request_poisoned [of ni p a] assms(3) by (simp add: eq)
  have same: "Pods ?ni = Pods ni" "Allocatable ?ni = Allocatable ni"
    using assms(3) by (simp_all add: eq addPod_request_eq split: if_splits)
  show ?thesis using poisoned_addPod [OF bad assms(5)] assms(4) same by simp
qed

lemma failed_addPod_poisons_node_witness:
  "let bad = fst (NodeInfo_addPod s_ni (AddPodBindAnnotation s_p1 9))
   in snd (NodeInfo_addPod s_ni (AddPodBindAnnotation s_p2 1)) = None \<and>
      snd (NodeInfo_addPod bad (AddPodBindAnnotation s_p2 1)) \<noteq> None"
proof -
  have "snd (NodeInfo_addPod s_ni (AddPodBindAnnotation s_p2 1)) = None" by code_simp
  moreover have "snd (NodeInfo_addPod s_ni (AddPodBindAnnotation s_p1 9)) \<noteq> None" by code_simp
  moreover have "bind_board (AddPodBindAnnotation s_p1 9) = Some 9" "bind_board (AddPodBindAnnotation s_p2 1) = Some 1"
    by code_simp+
  ultimately show ?thesis
    using failed_addPod_poisons_node [of s_ni "AddPodBindAnnotation s_p1 9" 9 "AddPodBindAnnotation s_p2 1" 1]
    by (simp add: s_ni_Pods Let_def)
qed

section \<open>Bind\<close>

text \<open>
  C4: A bind that returns nil from a sound cache, on a node that does not hold the pod, claims
  one board: it has the requested orins free, they alone leave the node's allocatable slots,
  the node and the cache hold the annotated pod, every other node is as before, and the cache
  is sound again. This holds for every client, however often the bind was retried.
\<close>

theorem bind_success_claims:
  assumes "range_order rng" "fresh_bind c node u" "retry_contract R"
    "Bind cs R rng c w node name ns u = Ret ((c', w'), None)"
  shows "cache_sound c' \<and> (\<exists>pod b. claims c node u pod b c')"
  using Bind_success [OF assms] by (auto simp: bound_to_def)

lemma bind_success_claims_witness:
  "let c' = fst (fst (case Bind (s_client s_p1 None None) s_retry sorted_range s_cache 0 ''n1'' ''u1'' ''d'' ''u1'' of Ret r \<Rightarrow> r))
   in cache_sound c' \<and> (\<exists>pod b. claims s_cache ''n1'' ''u1'' pod b c')"
proof -
  obtain c' w' where "Bind (s_client s_p1 None None) s_retry sorted_range s_cache 0 ''n1'' ''u1'' ''d'' ''u1'' = Ret ((c', w'), None)"
    by (rule that) code_simp
  with bind_success_claims [OF range_order_sorted s_fresh s_retry_contract this] show ?thesis by simp
qed

text \<open>
  A bind that returns an error, from a sound cache and on a node that does not hold the pod,
  either left the cache exactly as it was or left the pod among the known pods. On a poisoned
  node neither holds: there the failing \<open>addPod\<close> writes the request and the pod stays unknown.
\<close>

theorem failed_bind_dichotomy:
  assumes "range_order rng" "fresh_bind c node u" "retry_contract R"
    "Bind cs R rng c w node name ns u = Ret ((c', w'), Some e)"
  shows "c' = c \<or> has_key (podMaps c') u"
  by (rule Bind_failure [OF assms])

lemma failed_bind_dichotomy_witness:
  "\<exists>c' w' e. Bind (s_client s_p1 (Some ''conflict'') None) s_retry sorted_range s_cache 0 ''n1'' ''u1'' ''d'' ''u1'' = Ret ((c', w'), Some e) \<and>
     (c' = s_cache \<or> has_key (podMaps c') ''u1'')"
proof -
  obtain c' w' e where "Bind (s_client s_p1 (Some ''conflict'') None) s_retry sorted_range s_cache 0 ''n1'' ''u1'' ''d'' ''u1'' = Ret ((c', w'), Some e)"
    by (rule that) code_simp
  with failed_bind_dichotomy [OF range_order_sorted s_fresh s_retry_contract this] show ?thesis by blast
qed

text \<open>
  C5: A pod the cache knows is never bound: every bind of it returns an error and changes
  nothing in the cache, for every client and node.
\<close>

theorem known_pod_never_bound:
  assumes "has_key (podMaps c) u" "retry_contract R" "Bind cs R rng c w node name ns u = Ret ((c', w'), e)"
  shows "c' = c \<and> e \<noteq> None"
  by (rule Bind_known [OF assms])

lemma known_pod_never_bound_witness:
  "\<exists>c' w' e. Bind (s_client s_p1 None None) s_retry sorted_range s_cache1 0 ''n1'' ''u1'' ''d'' ''u1'' = Ret ((c', w'), e) \<and>
     c' = s_cache1 \<and> e \<noteq> None"
proof -
  have known: "has_key (podMaps s_cache1) ''u1''" by code_simp
  obtain c' w' e where "Bind (s_client s_p1 None None) s_retry sorted_range s_cache1 0 ''n1'' ''u1'' ''d'' ''u1'' = Ret ((c', w'), e)"
    by (rule that) code_simp
  with known_pod_never_bound [OF known s_retry_contract this] show ?thesis by blast
qed

text \<open>
  C6: When the API server refuses the update of the pod, the bind fails and yet keeps the
  orins: the cache is left as after a successful claim, because \<open>ForgetPod\<close> is handed the
  pod without its board annotation.
\<close>

theorem bind_update_failure_keeps_claim:
  assumes "range_order rng" "fresh_bind c node u" "\<not> has_key (podMaps c) u" "retry_contract R"
    "Cache_GetNode c node = Some ni" "answers cs pod (Some err) bnd" "pod_UID pod = u"
    "policy_of pod = AllocatorPolicyBinPack" "fmlookup (pod_Annotations pod) AnnotationPodBindToBoard = None"
    "boardID (BinpackAllocate rng (Allocatable ni) (BuildRequestOrinSet pod)) = b" "b \<noteq> BoardIDNotFount"
  shows "\<exists>c' w' e. Bind cs R rng c w node name ns u = Ret ((c', w'), Some e) \<and> claims c node u pod b c'"
  by (rule Bind_update_fails [OF assms])

lemma bind_update_failure_keeps_claim_witness:
  "\<exists>c' w' e. Bind (s_client s_p1 (Some ''conflict'') None) s_retry sorted_range s_cache 0 ''n1'' ''u1'' ''d'' ''u1'' = Ret ((c', w'), Some e) \<and>
     claims s_cache ''n1'' ''u1'' s_p1 1 c'"
  by (rule bind_update_failure_keeps_claim [OF range_order_sorted s_fresh _ s_retry_contract s_cache_node
        s_client_answers s_p1_facts(2) s_p1_facts(1) s_p1_facts(3) s_board]) (simp add: s_cache_podMaps)

text \<open>
  C7: When the bind call itself fails after the update, the node gets all its slots back and the
  cache stays sound, but the pod remains known.
\<close>

theorem bind_failure_restores_slots:
  assumes "range_order rng" "fresh_bind c node u" "\<not> has_key (podMaps c) u" "retry_contract R"
    "Cache_GetNode c node = Some ni" "answers cs pod None (Some err)" "pod_UID pod = u"
    "policy_of pod = AllocatorPolicyBinPack"
    "boardID (BinpackAllocate rng (Allocatable ni) (BuildRequestOrinSet pod)) = b" "b \<noteq> BoardIDNotFount"
  shows "\<exists>c' w'. Bind cs R rng c w node name ns u = Ret ((c', w'), Some (ApiError err)) \<and>
     cache_sound c' \<and> free_slots c' node = free_slots c node \<and> has_key (podMaps c') u"
  by (rule Bind_bind_fails [OF assms])

lemma bind_failure_restores_slots_witness:
  "\<exists>c' w'. Bind (s_client s_p1 None (Some ''gone'')) s_retry sorted_range s_cache 0 ''n1'' ''u1'' ''d'' ''u1'' = Ret ((c', w'), Some (ApiError ''gone'')) \<and>
     cache_sound c' \<and> free_slots c' ''n1'' = free_slots s_cache ''n1'' \<and> has_key (podMaps c') ''u1''"
  by (rule bind_failure_restores_slots [OF range_order_sorted s_fresh _ s_retry_contract s_cache_node
        s_client_answers s_p1_facts(2) s_p1_facts(1) s_board]) (simp add: s_cache_podMaps)

text \<open>
  C34: While the API server serves only pods of the bin-packing policy, no bind follows a nil
  pointer: neither a missing allocator nor the pod of an attempt that did not set it.
\<close>

theorem bind_never_panics:
  assumes "serves_binpack cs" "retry_contract R"
  shows "Bind cs R rng c w node name ns u \<noteq> Panic"
  by (rule Bind_no_panic [OF assms])

lemma bind_never_panics_witness:
  "Bind (s_client s_p1 None (Some ''gone'')) s_retry sorted_range s_cache 0 ''n1'' ''u1'' ''d'' ''u1'' \<noteq> Panic"
  by (rule bind_never_panics [OF answers_serves [OF s_client_answers s_p1_facts(1)] s_retry_contract])

text \<open>
  C8: Two binds that overlap, each choosing its board before the other assumes its pod, both
  succeed on the same board: the node then holds both pods with the same orins.
\<close>

theorem overlapping_binds_double_book:
  assumes "range_order rng" "cache_sound c" "Cache_GetNode c node = Some ni"
    "pod_UID (pods 0) \<noteq> pod_UID (pods 1)"
    "\<And>i. i < 2 \<Longrightarrow> \<not> has_key (podMaps c) (pod_UID (pods i)) \<and> \<not> has_key (Pods ni) (pod_UID (pods i))"
    "BuildRequestOrinSet (pods 0) = BuildRequestOrinSet (pods 1)"
    "boardID (BinpackAllocate rng (Allocatable ni) (BuildRequestOrinSet (pods 0))) = b" "b \<noteq> BoardIDNotFount"
  shows "\<exists>ni2. Cache_GetNode (race_cache (run_race rng node pods [Choose 0, Choose 1, AssumeChosen 0, AssumeChosen 1] c)) node = Some ni2 \<and>
     outcomes (run_race rng node pods [Choose 0, Choose 1, AssumeChosen 0, AssumeChosen 1] c) = [0 \<mapsto> None, 1 \<mapsto> None] \<and>
     (\<forall>i < 2. fmlookup (Pods ni2) (pod_UID (pods i)) = Some (AddPodBindAnnotation (pods i) b))"
  by (rule run_race_overlap [OF assms])

lemma overlapping_binds_double_book_witness:
  "let pods = (\<lambda>i :: nat. if i = 0 then s_p1 else s_pod ''u3'' [''1''])
   in outcomes (run_race sorted_range ''n1'' pods [Choose 0, Choose 1, AssumeChosen 0, AssumeChosen 1] s_cache) = [0 \<mapsto> None, 1 \<mapsto> None]"
proof -
  let ?pods = "\<lambda>i :: nat. if i = 0 then s_p1 else s_pod ''u3'' [''1'']"
  have "pod_UID (?pods 0) \<noteq> pod_UID (?pods 1)" by code_simp
  moreover have "BuildRequestOrinSet (?pods 0) = BuildRequestOrinSet (?pods 1)" by code_simp
  moreover have "boardID (BinpackAllocate sorted_range (Allocatable s_ni) (BuildRequestOrinSet (?pods 0))) = 1"
    using s_board by simp
  ultimately show ?thesis
    using overlapping_binds_double_book [OF range_order_sorted cache_reachable_sound [OF s_cache_reachable] s_cache_node,
        of ?pods 1] s_board(2)
    by (auto simp: s_cache_podMaps s_ni_Pods Let_def)
qed

section \<open>Filtering and scoring\<close>

text \<open>
  C21: The filter's answer, in whatever order the worker pool delivers the nodes: the names of
  the nodes that can host the pod's orins on one board, each as often as it was asked about,
  padded at the end with one empty name per rejected node; the failed nodes are the others.
\<close>

theorem Predicate_answer:
  assumes "range_order rng" "node_alloc_ok c" "mset ord = mset [0..<length nodes]"
    "policy_of pod = AllocatorPolicyBinPack"
  shows "\<exists>accepted fails. Predicate rng ord c nodes pod =
       Ret (accepted @ replicate (length (filter (\<lambda>n. \<not> can_host c (BuildRequestOrinSet pod) n) nodes)) [], fails) \<and>
     mset accepted = mset (filter (can_host c (BuildRequestOrinSet pod)) nodes) \<and>
     (\<forall>n. has_key fails n \<longleftrightarrow> n \<in> set nodes \<and> \<not> can_host c (BuildRequestOrinSet pod) n)"
  using Predicate_binpack [OF assms(3,4), of rng c] perm_indices(3) [OF assms(3), of "can_host c (BuildRequestOrinSet pod)"]
  unfolding admits_can_host [OF assms(1,2)] by blast

lemma Predicate_answer_witness:
  "\<exists>fails. Predicate sorted_range [1, 0] s_cache [''n1'', ''n2''] s_p1 = Ret ([''n1'', []], fails) \<and> has_key fails ''n2''"
proof -
  have "node_alloc_ok s_cache" "policy_of s_p1 = AllocatorPolicyBinPack" by code_simp+
  moreover have "mset [1, 0] = mset [0..<length [''n1'', ''n2'']]" by (simp add: upt_rec)
  moreover have "can_host s_cache (BuildRequestOrinSet s_p1) ''n1''" "\<not> can_host s_cache (BuildRequestOrinSet s_p1) ''n2''"
    by code_simp+
  ultimately show ?thesis
    using Predicate_answer [OF range_order_sorted, of s_cache "[1, 0]" "[''n1'', ''n2'']" s_p1] by auto
qed

text \<open>
  C22: A pod whose annotation names a policy the table does not hold, "spread" among them,
  crashes the filter as soon as one of the nodes is in the cache.
\<close>

theorem Predicate_unknown_policy_panics:
  assumes "mset ord = mset [0..<length nodes]" "policy_of pod \<noteq> AllocatorPolicyBinPack"
    "n \<in> set nodes" "Cache_GetNode c n \<noteq> None"
  shows "Predicate rng ord c nodes pod = Panic"
proof -
  obtain i where "i < length nodes" "nodes ! i = n" using assms(3) by (auto simp: in_set_conv_nth)
  then have "check_nodes (check_node rng c (fmlookup AllocatorMap (policy_of pod)) (BuildRequestOrinSet pod) nodes) ord st = Panic"
    for st using assms(4) perm_indices(1) [OF assms(1)]
    by (intro check_nodes_panic [of i]) (auto simp: check_node_def Allocate_unknown_policy [OF assms(2)] Let_def)
  then show ?thesis by (simp add: Predicate_def)
qed

lemma Predicate_unknown_policy_panics_witness:
  "Predicate sorted_range [0] s_cache [''n1'']
     (s_p1\<lparr>pod_Annotations := fmap_of_list [(AnnotationPodBindOrinPolicy, AllocatorPolicySpread)]\<rparr>) = Panic"
proof -
  have "policy_of (s_p1\<lparr>pod_Annotations := fmap_of_list [(AnnotationPodBindOrinPolicy, AllocatorPolicySpread)]\<rparr>) \<noteq>
      AllocatorPolicyBinPack" by code_simp
  then show ?thesis
    using Predicate_unknown_policy_panics [of "[0]" "[''n1'']" _ "''n1''" s_cache] s_cache_node by simp
qed

text \<open>
  C23: The scores do not depend on the order in which the worker pool or the maps deliver their
  elements: each is the normalised score of its node.
\<close>

theorem Priority_answer:
  assumes "mset ord = mset [0..<length nodes]" "policy_of pod = AllocatorPolicyBinPack"
    "range_order rng" "range_order rng'" "node_alloc_ok c"
  shows "Priority rng ord c nodes pod =
     Ret (Normalize 10 (map (node_score rng' c (BuildRequestOrinSet pod)) nodes))"
proof -
  have "node_score rng c req n = node_score rng' c req n" for req n
    using assms(5) binpack.score_order_independent [OF assms(3,4)]
    by (auto simp: node_score_def node_alloc_ok_def fmpred_iff Cache_GetNode_def split: option.split)
  then show ?thesis unfolding Priority_binpack [OF assms(1,2)] by presburger
qed

lemma Priority_answer_witness:
  "Priority (\<lambda>d. rev (sorted_range d)) [1, 0] s_cache [''n1'', ''n2''] s_p1 = Ret [10, 0]"
proof -
  have "node_alloc_ok s_cache" "policy_of s_p1 = AllocatorPolicyBinPack" by code_simp+
  moreover have "mset [1, 0] = mset [0..<length [''n1'', ''n2'']]" by (simp add: upt_rec)
  moreover have "range_order (\<lambda>d :: BoardDetails. rev (sorted_range d))"
    using range_order_sorted by (simp add: range_order_def)
  moreover have "Normalize 10 (map (node_score sorted_range s_cache (BuildRequestOrinSet s_p1)) [''n1'', ''n2'']) = [10, 0]"
    by code_simp
  ultimately show ?thesis
    using Priority_answer [of "[1, 0]" "[''n1'', ''n2'']" s_p1 _ sorted_range s_cache] range_order_sorted by metis
qed

text \<open>
  C33: On scores that are not negative and do not overflow, \<open>Normalize\<close> keeps the order, stays
  between zero and the maximal priority, and gives a best score the maximal priority. The
  lower bound is zero, not the one its callers' comment states.
\<close>

theorem Normalize_scales:
  assumes "\<forall>s \<in> set ss. 0 \<le> s" "\<forall>s \<in> set ss. p * s < 2 ^ 63" "0 \<le> p"
  shows "length (Normalize p ss) = length ss \<and> set (Normalize p ss) \<subseteq> {0..p} \<and>
     ((\<exists>s \<in> set ss. 0 < s) \<longrightarrow> p \<in> set (Normalize p ss)) \<and>
     (\<forall>i < length ss. \<forall>j < length ss. ss ! i \<le> ss ! j \<longrightarrow> Normalize p ss ! i \<le> Normalize p ss ! j)"
proof (intro conjI impI allI)
  let ?m = "max_count ss 0"
  note nth = Normalize_nth [OF assms(1,3,2)]
  have le: "s \<le> ?m" if "s \<in> set ss" for s using that by (rule max_count_ge)
  have bound: "0 \<le> p * s div ?m \<and> p * s div ?m \<le> p" if "s \<in> set ss" for s
  proof (cases "?m = 0")
    case False
    then have m: "0 < ?m" using max_count_ge(2) [of ss] by simp
    have "p * s div ?m \<le> p * ?m div ?m"
      using le [OF that] m assms(3) by (intro zdiv_mono1) (simp_all add: mult_left_mono)
    then show ?thesis using m assms(1,3) that by (simp add: pos_imp_zdiv_nonneg_iff)
  qed (use assms(3) in simp)
  show "set (Normalize p ss) \<subseteq> {0..p}"
    using bound nth by (fastforce simp: in_set_conv_nth)
  show "p \<in> set (Normalize p ss)" if "\<exists>s \<in> set ss. 0 < s"
  proof -
    have m: "0 < ?m" using that le by fastforce
    then obtain i where i: "i < length ss" "ss ! i = ?m" using max_count_mem [of ss] by (auto simp: in_set_conv_nth)
    then have "Normalize p ss ! i = p" using nth [OF i(1)] m by simp
    with i show ?thesis by (auto simp: in_set_conv_nth)
  qed
  show "Normalize p ss ! i \<le> Normalize p ss ! j" if "i < length ss" "j < length ss" "ss ! i \<le> ss ! j" for i j
    using that assms(3) max_count_ge(2) [of ss]
    by (cases "?m = 0") (auto simp: nth intro!: zdiv_mono1 mult_left_mono)
qed simp

lemma Normalize_scales_witness: "10 \<in> set (Normalize 10 [97, 0, 99]) \<and> Normalize 10 [97, 0, 99] ! 0 \<le> Normalize 10 [97, 0, 99] ! 2"
  using Normalize_scales [of "[97, 0, 99]" 10] by (simp add: nth_Cons') 

section \<open>The allocator\<close>

text \<open>
  C24: The bin-packing allocator finds a board exactly when some board has the requested orins
  free. The board it returns has them free, no fitting board has fewer free orins, and the
  score is a hundred less the node's free orins, in whatever order the boards are ranged over.
\<close>

theorem binpack_best_fit:
  assumes "range_order rng" "alloc_ok d"
  shows "(boardID (BinpackAllocate rng d req) \<noteq> BoardIDNotFount \<longleftrightarrow> (\<exists>b. fits_board d req b)) \<and>
     (boardID (BinpackAllocate rng d req) \<noteq> BoardIDNotFount \<longrightarrow>
        fits_board d req (boardID (BinpackAllocate rng d req)) \<and>
        score (BinpackAllocate rng d req) = 100 - free_total d \<and>
        (\<forall>b. fits_board d req b \<longrightarrow> orin_count d (boardID (BinpackAllocate rng d req)) \<le> orin_count d b))"
  using binpack.found_iff [OF assms] binpack.found_fits [OF assms(1)] binpack.found_score [OF assms(1)]
    binpack.found_fullest [OF assms(1)] by blast

lemma binpack_best_fit_witness:
  "fits_board (Total s_ni) {|2|} (boardID (BinpackAllocate sorted_range (Total s_ni) {|2|})) \<and>
   orin_count (Total s_ni) (boardID (BinpackAllocate sorted_range (Total s_ni) {|2|})) \<le> orin_count (Total s_ni) 1"
proof -
  have "alloc_ok (Total s_ni)" "fits_board (Total s_ni) {|2|} 1" by code_simp+
  then show ?thesis using binpack_best_fit [OF range_order_sorted, of "Total s_ni" "{|2|}"] by blast
qed

section \<open>Nodes in the cache\<close>

text \<open>
  C28: A node info built from a node and the pods listed with it, when they fit beside each
  other, accounts for exactly them: after a restart the scheduler sees what it saw before.
\<close>

theorem rebuilt_node_accounts_for_pods:
  assumes "compatible (NewNodeInfo node []) pods"
  shows "node_sound (NewNodeInfo node pods) \<and>
     slots (Requested (NewNodeInfo node pods)) = (\<Union>p \<in> set pods. pod_slots p) \<and>
     slots (Allocatable (NewNodeInfo node pods)) = slots (node_total node) - (\<Union>p \<in> set pods. pod_slots p)"
  using NewNodeInfo_sound [OF assms] slots_NewNodeInfo [OF assms] by blast

lemma rebuilt_node_accounts_for_pods_witness:
  "slots (Requested (NewNodeInfo s_node [s_p2, s_b1])) = (\<Union>p \<in> set [s_p2, s_b1]. pod_slots p)"
proof -
  have "compatible (NewNodeInfo s_node []) [s_p2, s_b1]" by code_simp
  then show ?thesis using rebuilt_node_accounts_for_pods by blast
qed

text \<open>
  \<open>UpdateNode\<close> rebuilds the cached node exactly when the devices of the two node objects
  differ, and the rebuilt node is sound with the new devices.
\<close>

theorem UpdateNode_rebuilds_on_change:
  assumes "compatible (NewNodeInfo old []) pods" "compatible (NewNodeInfo new []) pods"
  shows "Cache_UpdateNode c old new pods =
       (if BoardDetails_Equal (node_total old) (node_total new) then (c, None)
        else (set_node c (node_Name new) (NewNodeInfo new pods), None)) \<and>
     (cache_sound c \<longrightarrow> cache_sound (fst (Cache_UpdateNode c old new pods)))"
  using UpdateNode_result [OF assms] cache_step_sound [OF cache_step.node_updated [OF assms]] by blast

lemma UpdateNode_rebuilds_on_change_witness:
  "cache_sound (fst (Cache_UpdateNode s_cache s_node s_node_lost [s_p1])) \<and>
   Cache_GetNode (fst (Cache_UpdateNode s_cache s_node s_node_lost [s_p1])) ''n1'' = Some (NewNodeInfo s_node_lost [s_p1])"
proof -
  have ok: "compatible (NewNodeInfo s_node []) [s_p1]" "compatible (NewNodeInfo s_node_lost []) [s_p1]"
    by code_simp+
  have "\<not> BoardDetails_Equal (node_total s_node) (node_total s_node_lost)" "node_Name s_node_lost = ''n1''"
    by code_simp+
  then show ?thesis
    using UpdateNode_rebuilds_on_change [OF ok, of s_cache] cache_reachable_sound [OF s_cache_reachable]
    by (auto simp: Cache_GetNode_def)
qed

text \<open>
  C29: When a node loses devices its pods hold, \<open>UpdateNode\<close> leaves it without allocatable
  boards and with all the requests, and no bind can then assume a pod it does not hold.
\<close>

theorem UpdateNode_lost_devices:
  assumes "compatible (NewNodeInfo old []) pods" "\<not> BoardDetails_Equal (node_total old) (node_total new)"
    "\<not> covers (node_total new) (Requested (NewNodeInfo old pods))"
  shows "\<exists>c' ni. Cache_UpdateNode c old new pods = (c', None) \<and> Cache_GetNode c' (node_Name new) = Some ni \<and>
     Allocatable ni = fmempty \<and> Requested ni = Requested (NewNodeInfo old pods) \<and>
     (\<forall>pod b. \<not> has_key (Pods ni) (pod_UID pod) \<longrightarrow> bind_board pod = Some b \<longrightarrow>
        snd (Cache_AssumePod c' pod (node_Name new)) \<noteq> None)"
  using UpdateNode_lost [OF assms] poisoned_assume by blast

lemma UpdateNode_lost_devices_witness:
  "\<exists>c' ni. Cache_UpdateNode s_cache s_node s_node_lost [s_b1] = (c', None) \<and> Cache_GetNode c' ''n1'' = Some ni \<and> Allocatable ni = fmempty"
proof -
  have "compatible (NewNodeInfo s_node []) [s_b1]" "\<not> BoardDetails_Equal (node_total s_node) (node_total s_node_lost)"
    "\<not> covers (node_total s_node_lost) (Requested (NewNodeInfo s_node [s_b1]))" "node_Name s_node_lost = ''n1''" by code_simp+
  then show ?thesis using UpdateNode_lost_devices [of s_node "[s_b1]" s_node_lost s_cache] by auto
qed

section \<open>Topology maps\<close>

text \<open>
  C30: \<open>DifferenceFromSuperset\<close> fails exactly when a board of the subset is missing or one of its
  boards asks for an orin the superset's board lacks, with the board error first. Otherwise its
  result has all boards of the superset and exactly the orins the subset leaves.
\<close>

theorem DifferenceFromSuperset_partitions:
  "case DifferenceFromSuperset d sub of
     Inl BoardNotSuperset \<Rightarrow> \<not> BoardSet sub |\<subseteq>| BoardSet d
   | Inl OrinNotSuperset \<Rightarrow> BoardSet sub |\<subseteq>| BoardSet d \<and> \<not> slots sub \<subseteq> slots d
   | Inr rest \<Rightarrow> BoardSet sub |\<subseteq>| BoardSet d \<and> slots sub \<subseteq> slots d \<and>
              BoardSet rest = BoardSet d \<and> slots rest = slots d - slots sub"
  by (auto simp: DifferenceFromSuperset_eq covers_slots slots_minus simp del: slots_iff)

text \<open>
  C31: Two topologies are \<open>Equal\<close> exactly when they have the same boards and the same orins on
  them; on the topologies the program builds that is equality of the maps.
\<close>

theorem BoardDetails_Equal_exact:
  "(BoardDetails_Equal d e \<longleftrightarrow> BoardSet d = BoardSet e \<and> slots d = slots e) \<and>
   (board_wf d \<and> board_wf e \<longrightarrow> (BoardDetails_Equal d e \<longleftrightarrow> d = e))"
  using board_wf_determined by (auto simp: BoardDetails_Equal_iff simp del: slots_iff)

lemma BoardDetails_Equal_exact_witness:
  "BoardDetails_Equal (node_total s_node) (node_total s_node_lost) \<longleftrightarrow> node_total s_node = node_total s_node_lost"
  using BoardDetails_Equal_exact [of "node_total s_node" "node_total s_node_lost"] node_total_wf by blast

section \<open>The decimal encoding\<close>

text \<open>
  C32: What the plugin encodes the scheduler reads back: parsing the decimal map built from a
  set of orins gives the orins from the start number on, as long as none is more than
  eighteen above it. Orins below the start number are lost without an error.
\<close>

theorem decimal_map_roundtrip:
  assumes "\<forall>n. n |\<in>| S \<longrightarrow> in_int64 (n - start) \<and> n - start \<le> 18"
  shows "snd (Parse (NewDecimalMap (BuildDecimalMap oor S start) start)) = Inr (ffilter (\<lambda>n. start \<le> n) S)"
  by (rule Parse_BuildDecimalMap [OF assms])

lemma decimal_map_roundtrip_witness:
  "snd (Parse (NewDecimalMap (BuildDecimalMap (\<lambda>_. 0) {|0, 1, 3, 19|} 1) 1)) = Inr {|1, 3, 19|}"
proof -
  have "ffilter (\<lambda>n. 1 \<le> n) {|0, 1, 3, 19 :: int|} = {|1, 3, 19|}" by auto
  then show ?thesis using decimal_map_roundtrip [of "{|0, 1, 3, 19|}" 1 "\<lambda>_. 0"] by (simp add: in_int64_def)
qed

text \<open>
  Every value the scheduler accepts is the encoding of what it reads: rebuilding the
  decimal map from the parsed orins gives the value back.
\<close>

theorem decimal_map_reencode:
  assumes "snd (Parse dm) = Inr S"
  shows "BuildDecimalMap oor S (startBit dm) = src dm"
  by (rule BuildDecimalMap_Parse [OF assms])

lemma decimal_map_reencode_witness: "BuildDecimalMap (\<lambda>_. 0) {|1, 2|} 1 = 11"
proof -
  have "snd (Parse (NewDecimalMap 11 1)) = Inr {|1, 2|}" by code_simp
  from decimal_map_reencode [OF this, of "\<lambda>_. 0"] show ?thesis by (simp add: NewDecimalMap_def)
qed

text \<open>
  A value is accepted exactly when it is not negative and each of its decimal digits is zero
  or one.
\<close>

theorem decimal_map_accepts:
  "(\<exists>S. snd (Parse dm) = Inr S) \<longleftrightarrow> 0 \<le> sint (src dm) \<and> binary_digits (nat (sint (src dm)))"
proof (cases "sint (src dm) < 0")
  case True
  then show ?thesis using Parse_negative [of dm] by auto
next
  case False
  then have "sint (src dm) = int (nat (sint (src dm)))" by simp
  from Parse_nat [OF this] False show ?thesis by (auto split: if_splits)
qed

section \<open>The worker pool\<close>

text \<open>
  C35: \<open>Parallelize\<close> with at least one worker gives each piece to exactly one worker: when it
  returns, the pieces processed are the indices, each once, in some order. And it does return:
  a step is possible until then, and every step lowers a measure.
\<close>

theorem Parallelize_processes_each_piece_once:
  assumes "0 < workers" "par_step\<^sup>*\<^sup>* (Parallelize_start workers pieces) s"
  shows "(wait_returns s \<longrightarrow> mset (processed s) = mset [0..<pieces]) \<and>
     (\<not> wait_returns s \<longrightarrow> (\<exists>t. par_step s t)) \<and> (\<forall>t. par_step s t \<longrightarrow> pool_cost t < pool_cost s)"
proof (intro conjI impI allI)
  have inv: "pool_inv workers pieces s" by (rule pool_inv_steps [OF assms(2) pool_inv_start])
  show "mset (processed s) = mset [0..<pieces]" if "wait_returns s"
  proof -
    have "toProcess s = []"
    proof (cases "goroutines s")
      case Nil
      then have "pieces = 0" using inv assms(1) by (auto simp: pool_inv_def split: if_splits)
      then show ?thesis using inv by (simp add: pool_inv_def)
    next
      case (Cons w ws)
      then have "Exited \<in> set (goroutines s)" using that by (auto simp: wait_returns_def)
      then show ?thesis using inv by (simp add: pool_inv_def)
    qed
    then show ?thesis using inv in_flight_exited [OF that] by (simp add: pool_inv_def)
  qed
qed (auto intro: par_step_progress par_step_cost)

lemma Parallelize_processes_each_piece_once_witness:
  "\<exists>s. par_step\<^sup>*\<^sup>* (Parallelize_start 16 3) s \<and> mset (processed s) = {#0, 1, 2#}"
proof -
  obtain s where "par_step\<^sup>*\<^sup>* (Parallelize_start 16 3) s" "wait_returns s" using par_run_returns by blast
  moreover from this have "mset (processed s) = mset [0..<3]"
    using Parallelize_processes_each_piece_once [of 16 3 s] by simp
  ultimately show ?thesis by (intro exI [of _ s]) (simp add: upt_rec)
qed

section \<open>The controller\<close>

text \<open>
  Releasing a pod twice is releasing it once: however often the delete handler sees a pod,
  its orins come back one time.
\<close>

theorem release_is_idempotent:
  "deletePodFromCache (deletePodFromCache s (PodObj pod)) (PodObj pod) = deletePodFromCache s (PodObj pod)"
  by (simp add: deletePodFromCache_def releasePod_def Cache_DeletePod_idem)

text \<open>
  C36: The worker goes on only after an item that failed, which it has put back with a delay; after
  the first item it syncs it returns, whatever the queue still holds.
\<close>

theorem worker_stops_after_success:
  assumes "wq_Get e (podQueue s) = Item key q"
  shows "case syncPod e (s\<lparr>podQueue := q\<rparr>) key of
     (s1, forget, None) \<Rightarrow> forget \<and> runWorker e s = Some (s1\<lparr>podQueue := wq_Done e key (wq_Forget e key q)\<rparr>)
   | (s1, forget, Some err) \<Rightarrow>
       runWorker e s = runWorker e (s1\<lparr>podQueue := wq_Done e key (wq_AddRateLimited e key q)\<rparr>)"
proof -
  obtain s1 forget err where sync: "syncPod e (s\<lparr>podQueue := q\<rparr>) key = (s1, forget, err)" by (metis prod_cases3)
  note item = processNextWorkItem_Item [OF assms]
  show ?thesis
  proof (cases err)
    case None
    moreover have forget using syncPod_success_forgets [of e "s\<lparr>podQueue := q\<rparr>" key] sync None by simp
    ultimately show ?thesis using runWorker_stop [of e s] sync by (simp add: item)
  next
    case (Some x)
    then show ?thesis using runWorker_retry [of e s] sync by (simp add: item)
  qed
qed

lemma worker_stops_after_success_witness:
  "runWorker (s_env [s_b1]) (s_ctl [''d/u1'', ''d/u2'']) =
     Some \<lparr>manager = fst (Cache_AddPod s_cache s_b1), podQueue = [''d/u2''], world = 0\<rparr>"
proof -
  have "wq_Get (s_env [s_b1]) (podQueue (s_ctl [''d/u1'', ''d/u2''])) = Item ''d/u1'' [''d/u2'']" by code_simp
  moreover have "syncPod (s_env [s_b1]) ((s_ctl [''d/u1'', ''d/u2''])\<lparr>podQueue := [''d/u2'']\<rparr>) ''d/u1'' =
      (\<lparr>manager = fst (Cache_AddPod s_cache s_b1), podQueue = [''d/u2''], world = 0\<rparr>, True, None)"
    using s_sync by (simp add: s_ctl_def)
  ultimately show ?thesis
    using worker_stops_after_success [of "s_env [s_b1]" "s_ctl [''d/u1'', ''d/u2'']"] by (simp add: s_env_def)
qed

text \<open>
  The informer handlers are steps of the cache machine: a node added, changed or deleted and
  a pod deleted each perform one step, when the pods listed with the node fit on it and the pod is
  placed as the cache has it; the queue and the world stay as they are.
\<close>

theorem handlers_step_the_cache:
  assumes "listed_fit e (world s) node (node_Name node)" "listed_fit e (world s) old (node_Name node)"
    "placed_as_cached (manager s) pod"
  shows "(\<exists>s'. addNodeToCache e s (NodeObj node) = Ret s' \<and> cache_step (manager s) (manager s') \<and>
            podQueue s' = podQueue s \<and> world s' = world s) \<and>
     (\<exists>s'. updateNodeInCache e s (NodeObj old) (NodeObj node) = Ret s' \<and> cache_step (manager s) (manager s') \<and>
            podQueue s' = podQueue s \<and> world s' = world s) \<and>
     cache_step (manager s) (manager (deleteNodeFromCache s (NodeObj node))) \<and>
     cache_step (manager s) (manager (deletePodFromCache s (PodObj pod)))"
  using addNodeToCache_step [OF assms(1)] updateNodeInCache_step [OF assms(2,1)]
    deleteNodeFromCache_step [of s node] deletePodFromCache_step [OF assms(3)] by blast

lemma handlers_step_the_cache_witness:
  "\<exists>s'. addNodeToCache (s_env [s_b1]) (s_ctl []) (NodeObj s_node) = Ret s' \<and> cache_step s_cache (manager s')"
proof -
  have "listed_fit (s_env [s_b1]) (world (s_ctl [])) s_node (node_Name s_node)" by code_simp
  moreover have "placed_as_cached (manager (s_ctl [])) s_p1"
    using s_cache_node by (simp add: placed_as_cached_def s_ctl_def Cache_GetNode_def same_placement_def s_p1_def s_pod_def s_ni_Pods)
  ultimately show ?thesis
    using handlers_step_the_cache [of "s_env [s_b1]" "s_ctl []" s_node s_node s_p1] by (auto simp: s_ctl_def)
qed

end
