(* ===== verification/Server.thy ===== *)
theory Server
  imports Routes
begin

text \<open>
  The HTTP side of the extender: \<open>DebugLogging\<close>, \<open>AddPredicate\<close>, \<open>AddPrioritize\<close> and
  \<open>AddBind\<close> of \<open>pkg/scheduler/routes/routes.go\<close> and \<open>VersionRoute\<close> and \<open>AddVersion\<close> of
  \<open>cmd/scheduler/scheduler.go\<close>, which put the routes into the router.

  A handle takes the server's state and a request to the new state and the response, or
  panics; \<open>net/http\<close> recovers from the panic of a handle and drops the connection. The state
  \<open>'s\<close> is a parameter here, with \<open>emit\<close> the writer of the log. The router is
  \<open>httprouter\<close>, code outside the repository: \<open>router_contract\<close> is its documented behaviour
  on static paths, which match exactly and of which each can be registered once per method.
\<close>

record request =
  rq_Method :: string
  rq_Path :: string
  rq_Body :: "string option"

type_synonym 's handle = "'s \<Rightarrow> request \<Rightarrow> ('s \<times> string response) outcome"

datatype log_line =
    DebugRequest string "string option"
  | DebugResponse string "string response"

record ('h, 'r) router =
  rt_New :: 'r
  rt_Handle :: "string \<Rightarrow> string \<Rightarrow> 'h \<Rightarrow> 'r \<Rightarrow> 'r outcome"
  rt_Lookup :: "'r \<Rightarrow> string \<Rightarrow> string \<Rightarrow> 'h option"

fun register :: "('h, 'r) router \<Rightarrow> ((string \<times> string) \<times> 'h) list \<Rightarrow> 'r \<Rightarrow> 'r outcome" where
  "register R [] r = Ret r"
| "register R (((m, p), h) # rs) r =
     (case rt_Handle R m p h r of Panic \<Rightarrow> Panic | Ret r' \<Rightarrow> register R rs r')"

definition static_path :: "string \<Rightarrow> bool" where
  "static_path p \<longleftrightarrow> (case p of [] \<Rightarrow> False | c # cs \<Rightarrow> c = CHR ''/'' \<and> CHR '':'' \<notin> set cs \<and> CHR ''*'' \<notin> set cs)"

definition router_contract :: "('h, 'r) router \<Rightarrow> bool" where
  "router_contract R \<longleftrightarrow>
     (\<forall>rs. distinct (map fst rs) \<and> list_all (\<lambda>((m, p), h). static_path p) rs \<longrightarrow>
        (\<exists>r. register R rs (rt_New R) = Ret r \<and> (\<forall>m p. rt_Lookup R r m p = map_of rs (m, p))))"

section \<open>Paths\<close>

definition apiPrefix :: string where "apiPrefix = ''/scheduler''"
definition bindPath :: string where "bindPath = apiPrefix @ ''/bind''"
definition predicatesPrefix :: string where "predicatesPrefix = apiPrefix @ ''/predicates''"
definition prioritiesPrefix :: string where "prioritiesPrefix = apiPrefix @ ''/priorities''"
definition versionPath :: string where "versionPath = ''/version''"

section \<open>Handles\<close>

definition DebugLogging :: "(log_line \<Rightarrow> 's \<Rightarrow> 's) \<Rightarrow> 's handle \<Rightarrow> string \<Rightarrow> 's handle" where
  "DebugLogging emit h path s r =
     (case h (emit (DebugRequest path (rq_Body r)) s) r of
        Panic \<Rightarrow> Panic
      | Ret (s', rsp) \<Rightarrow> Ret (emit (DebugResponse path rsp) s', rsp))"

text \<open>\<open>fmt.Fprint\<close> writes a header of status 200; the content type is sniffed from the text.\<close>

definition VersionRoute :: "string \<Rightarrow> 's handle" where
  "VersionRoute version s r =
     Ret (s, \<lparr>rsp_Status = 200, rsp_ContentType = ''text/plain; charset=utf-8'', rsp_Body = version\<rparr>)"

text \<open>
  The routes of the three handlers read and write the cache and the world of the server's
  state through \<open>get\<close> and \<open>put\<close>. \<open>ord n\<close> is the order in which the worker pool delivers
  \<open>n\<close> pieces.
\<close>

record codec =
  decodeArgs :: "string \<Rightarrow> string + ExtenderArgs"
  decodeBinding :: "string \<Rightarrow> string + ExtenderBindingArgs"
  marshalFilter :: "ExtenderFilterResult \<Rightarrow> string + string"
  marshalPriorities :: "HostPriority list \<Rightarrow> string + string"
  marshalBinding :: "string \<Rightarrow> string + string"

record 'w extension =
  x_codec :: codec
  x_client :: "'w clientset"
  x_retry :: "('w bind_state, manager_error) retry"
  x_rng :: "BoardDetails \<Rightarrow> int list"
  x_ord :: "nat \<Rightarrow> nat list"
  x_errText :: "manager_error \<Rightarrow> string"

definition nodes_of :: "ExtenderArgs \<Rightarrow> string list" where
  "nodes_of args = (case args_NodeNames args of None \<Rightarrow> [] | Some nodes \<Rightarrow> nodes)"

definition predicate_handle :: "'w extension \<Rightarrow> ('s \<Rightarrow> scheduleCache) \<Rightarrow> 's handle" where
  "predicate_handle x get s r =
     (case PredicateRoute (decodeArgs (x_codec x)) (marshalFilter (x_codec x))
             (\<lambda>args. Predicate_Handler (x_rng x) (x_ord x (length (nodes_of args))) (get s) args) (rq_Body r) of
        Panic \<Rightarrow> Panic
      | Ret rsp \<Rightarrow> Ret (s, rsp))"

definition prioritize_handle :: "'w extension \<Rightarrow> ('s \<Rightarrow> scheduleCache) \<Rightarrow> 's handle" where
  "prioritize_handle x get s r =
     (case PrioritizeRoute (decodeArgs (x_codec x)) (marshalPriorities (x_codec x))
             (\<lambda>args. Prioritize_Handler (x_rng x) (x_ord x (length (nodes_of args))) (get s) args) (rq_Body r) of
        Panic \<Rightarrow> Panic
      | Ret rsp \<Rightarrow> Ret (s, rsp))"

definition bind_handle ::
  "'w extension \<Rightarrow> ('s \<Rightarrow> scheduleCache \<times> 'w) \<Rightarrow> (scheduleCache \<times> 'w \<Rightarrow> 's \<Rightarrow> 's) \<Rightarrow> 's handle" where
  "bind_handle x get put s r =
     (case BindRoute (decodeBinding (x_codec x)) (marshalBinding (x_codec x))
             (Bind_Handler (x_errText x) (x_client x) (x_retry x) (x_rng x) (fst (get s)) (snd (get s)))
             (get s) (rq_Body r) of
        Panic \<Rightarrow> Panic
      | Ret (cw, rsp) \<Rightarrow> Ret (put cw s, rsp))"

section \<open>Registration\<close>

definition AddVersion :: "('s handle, 'r) router \<Rightarrow> (log_line \<Rightarrow> 's \<Rightarrow> 's) \<Rightarrow> string \<Rightarrow> 'r \<Rightarrow> 'r outcome" where
  "AddVersion R emit version r =
     rt_Handle R ''GET'' versionPath (DebugLogging emit (VersionRoute version) versionPath) r"

definition AddPredicate :: "('s handle, 'r) router \<Rightarrow> (log_line \<Rightarrow> 's \<Rightarrow> 's) \<Rightarrow> 's handle \<Rightarrow> 'r \<Rightarrow> 'r outcome" where
  "AddPredicate R emit predicate r =
     rt_Handle R ''POST'' predicatesPrefix (DebugLogging emit predicate predicatesPrefix) r"

definition AddPrioritize :: "('s handle, 'r) router \<Rightarrow> (log_line \<Rightarrow> 's \<Rightarrow> 's) \<Rightarrow> 's handle \<Rightarrow> 'r \<Rightarrow> 'r outcome" where
  "AddPrioritize R emit prioritize r =
     rt_Handle R ''POST'' prioritiesPrefix (DebugLogging emit prioritize prioritiesPrefix) r"

definition AddBind :: "('s handle, 'r) router \<Rightarrow> (log_line \<Rightarrow> 's \<Rightarrow> 's) \<Rightarrow> 's handle \<Rightarrow> 'r \<Rightarrow> 'r outcome" where
  "AddBind R emit bind r =
     rt_Handle R ''POST'' bindPath (DebugLogging emit bind bindPath) r"

definition and_then :: "'a outcome \<Rightarrow> ('a \<Rightarrow> 'b outcome) \<Rightarrow> 'b outcome" where
  "and_then a f = (case a of Panic \<Rightarrow> Panic | Ret x \<Rightarrow> f x)"

text \<open>The routes of the extender, as \<open>main\<close> registers them.\<close>

definition build_router ::
  "('s handle, 'r) router \<Rightarrow> (log_line \<Rightarrow> 's \<Rightarrow> 's) \<Rightarrow> string \<Rightarrow> 's handle \<Rightarrow> 's handle \<Rightarrow> 's handle \<Rightarrow> 'r outcome" where
  "build_router R emit version predicate prioritize bind =
     and_then (AddVersion R emit version (rt_New R)) (\<lambda>r1.
     and_then (AddPredicate R emit predicate r1) (\<lambda>r2.
     and_then (AddPrioritize R emit prioritize r2) (\<lambda>r3.
     AddBind R emit bind r3)))"

text \<open>What a request reaches: the handle of its method and path, with the log around it.\<close>

fun dispatch :: "string \<Rightarrow> 's handle \<Rightarrow> 's handle \<Rightarrow> 's handle \<Rightarrow> string \<Rightarrow> string \<Rightarrow> ('s handle) option" where
  "dispatch version predicate prioritize bind m p =
     (if (m, p) = (''GET'', versionPath) then Some (VersionRoute version)
      else if (m, p) = (''POST'', predicatesPrefix) then Some predicate
      else if (m, p) = (''POST'', prioritiesPrefix) then Some prioritize
      else if (m, p) = (''POST'', bindPath) then Some bind
      else None)"

lemmas path_defs = apiPrefix_def bindPath_def predicatesPrefix_def prioritiesPrefix_def versionPath_def

lemma build_router_register:
  "build_router R emit version predicate prioritize bind =
     register R
       [((''GET'', versionPath), DebugLogging emit (VersionRoute version) versionPath),
        ((''POST'', predicatesPrefix), DebugLogging emit predicate predicatesPrefix),
        ((''POST'', prioritiesPrefix), DebugLogging emit prioritize prioritiesPrefix),
        ((''POST'', bindPath), DebugLogging emit bind bindPath)] (rt_New R)"
  by (auto simp: build_router_def and_then_def AddVersion_def AddPredicate_def AddPrioritize_def AddBind_def
      split: outcome.split)

lemma build_router_routes:
  assumes "router_contract R"
  shows "\<exists>r. build_router R emit version predicate prioritize bind = Ret r \<and>
     (\<forall>m p. rt_Lookup R r m p =
        map_option (\<lambda>h. DebugLogging emit h p) (dispatch version predicate prioritize bind m p))"
proof -
  let ?rs = "[((''GET'', versionPath), DebugLogging emit (VersionRoute version) versionPath),
        ((''POST'', predicatesPrefix), DebugLogging emit predicate predicatesPrefix),
        ((''POST'', prioritiesPrefix), DebugLogging emit prioritize prioritiesPrefix),
        ((''POST'', bindPath), DebugLogging emit bind bindPath)]"
  have "distinct (map fst ?rs)" "list_all (\<lambda>((m, p), h). static_path p) ?rs"
    by (simp_all add: path_defs static_path_def)
  then obtain r where "register R ?rs (rt_New R) = Ret r" "\<And>m p. rt_Lookup R r m p = map_of ?rs (m, p)"
    using assms unfolding router_contract_def by (metis (lifting))
  then show ?thesis by (auto simp: build_router_register)
qed

end
