(* ===== verification/ControllerRun.thy ===== *)
theory ControllerRun
  imports ControllerFacts
begin

text \<open>
  \<open>NewController\<close> and \<open>Controller.Run\<close> of \<open>pkg/scheduler/manager/controller.go\<close>: the
  handlers the two informers are given, the two waits for their caches, and the worker
  goroutines.

  \<^item> A set of event handlers is a record of functions on the controller's state.
    \<open>FilteringResourceEventHandler\<close> and \<open>WaitForCacheSync\<close> are code of client-go: the first
    is an argument with its documentation as \<open>filtering_contract\<close>, the second an argument
    that runs the informers (any deliveries) and says whether the cache has synced.
  \<^item> \<open>Run\<close> starts \<open>threadiness\<close> goroutines, each of them \<open>wait.Until(c.runWorker, time.Second,
    stopCh)\<close>: it runs \<open>runWorker\<close>, waits a second, and looks at the stop channel between runs.
    A worker is \<open>Idle\<close> between runs and \<open>Working\<close> inside \<open>runWorker\<close>. One step of a working
    worker is one \<open>processNextWorkItem\<close>, so the workers interleave item by item.
\<close>

section \<open>Informers\<close>

record 's handlers =
  OnAdd :: "obj \<Rightarrow> 's \<Rightarrow> 's outcome"
  OnUpdate :: "obj \<Rightarrow> obj \<Rightarrow> 's \<Rightarrow> 's outcome"
  OnDelete :: "obj \<Rightarrow> 's \<Rightarrow> 's outcome"

type_synonym 's filtering = "(obj \<Rightarrow> bool) \<Rightarrow> 's handlers \<Rightarrow> 's handlers"

definition filtering_contract :: "'s filtering \<Rightarrow> bool" where
  "filtering_contract F \<longleftrightarrow>
     (\<forall>f h.
        (\<forall>new s. OnAdd (F f h) new s = (if f new then OnAdd h new s else Ret s)) \<and>
        (\<forall>old new s. OnUpdate (F f h) old new s =
           (if f new \<and> f old then OnUpdate h old new s
            else if f new then OnAdd h new s
            else if f old then OnDelete h old s
            else Ret s)) \<and>
        (\<forall>old s. OnDelete (F f h) old s = (if f old then OnDelete h old s else Ret s)))"

definition pod_handlers :: "('q, 'w) env \<Rightarrow> ('q, 'w) Controller handlers" where
  "pod_handlers e =
     \<lparr>OnAdd = (\<lambda>new s. Ret (addPodToCache e s new)),
      OnUpdate = (\<lambda>old new s. Ret (updatePodInCache e s old new)),
      OnDelete = (\<lambda>old s. Ret (deletePodFromCache s old))\<rparr>"

definition node_handlers :: "('q, 'w) env \<Rightarrow> ('q, 'w) Controller handlers" where
  "node_handlers e =
     \<lparr>OnAdd = (\<lambda>new s. addNodeToCache e s new),
      OnUpdate = (\<lambda>old new s. updateNodeInCache e s old new),
      OnDelete = (\<lambda>old s. Ret (deleteNodeFromCache s old))\<rparr>"

datatype notification = Added obj | Updated obj obj | Deleted obj

fun notify :: "'s handlers \<Rightarrow> notification \<Rightarrow> 's \<Rightarrow> 's outcome" where
  "notify h (Added new) s = OnAdd h new s"
| "notify h (Updated old new) s = OnUpdate h old new s"
| "notify h (Deleted old) s = OnDelete h old s"

datatype informer_event = PodInformer notification | NodeInformer notification

text \<open>The registrations: the filtered pod handlers and the node handlers.\<close>

fun deliver ::
  "('q, 'w) Controller filtering \<Rightarrow> ('q, 'w) env \<Rightarrow> informer_event \<Rightarrow> ('q, 'w) Controller \<Rightarrow> ('q, 'w) Controller outcome" where
  "deliver F e (PodInformer n) s = notify (F podFilter (pod_handlers e)) n s"
| "deliver F e (NodeInformer n) s = notify (node_handlers e) n s"

definition NewController ::
  "(('q, 'w) Controller \<Rightarrow> ('q, 'w) Controller \<times> bool) \<Rightarrow> (('q, 'w) Controller \<Rightarrow> ('q, 'w) Controller \<times> bool) \<Rightarrow>
   'q \<Rightarrow> 'w \<Rightarrow> scheduleCache \<Rightarrow> ('q, 'w) Controller \<times> string option" where
  "NewController waitNodes waitPods queue w m =
     (let c = \<lparr>manager = m, podQueue = queue, world = w\<rparr>
      in case waitNodes c of
           (c1, False) \<Rightarrow> (c1, Some ''failed to wait for node caches to sync'')
         | (c1, True) \<Rightarrow>
             (case waitPods c1 of
                (c2, False) \<Rightarrow> (c2, Some ''failed to wait for pod caches to sync'')
              | (c2, True) \<Rightarrow> (c2, None)))"

text \<open>
  While \<open>WaitForCacheSync\<close> waits, the reflectors list and watch, so the informers' stores fill and
  the API server moves on (\<open>changed\<close>), and the informers deliver events (\<open>one\<close>).
\<close>

inductive delivered ::
  "('q, 'w) Controller filtering \<Rightarrow> ('q, 'w) env \<Rightarrow> ('q, 'w) Controller \<Rightarrow> ('q, 'w) Controller \<Rightarrow> bool"
  for F e where
  none: "delivered F e s s"
| one: "delivered F e s t \<Longrightarrow> deliver F e ev t = Ret u \<Longrightarrow> delivered F e s u"
| changed: "delivered F e s t \<Longrightarrow> delivered F e s (t\<lparr>world := w\<rparr>)"

lemma delivered_trans: "delivered F e t u \<Longrightarrow> delivered F e s t \<Longrightarrow> delivered F e s u"
  by (induction rule: delivered.induct) (auto intro: delivered.intros)

lemma NewController_delivered:
  assumes "\<And>s. delivered F e s (fst (waitNodes s))" "\<And>s. delivered F e s (fst (waitPods s))"
  shows "delivered F e \<lparr>manager = m, podQueue = q, world = w\<rparr> (fst (NewController waitNodes waitPods q w m))"
proof -
  let ?c = "\<lparr>manager = m, podQueue = q, world = w\<rparr>"
  obtain c1 b1 where n: "waitNodes ?c = (c1, b1)" by fastforce
  obtain c2 b2 where p: "waitPods c1 = (c2, b2)" by fastforce
  have "delivered F e ?c c1" "delivered F e c1 c2"
    using assms(1) [of ?c] assms(2) [of c1] n p by simp_all
  then show ?thesis
    by (cases b1; cases b2) (auto simp: NewController_def Let_def n p intro: delivered_trans)
qed

section \<open>Filtered deliveries\<close>

lemma deliver_pod_simps:
  assumes "filtering_contract F"
  shows "deliver F e (PodInformer (Added new)) s = Ret (if podFilter new then addPodToCache e s new else s)"
    "deliver F e (PodInformer (Updated old new)) s =
       Ret (if podFilter new \<and> podFilter old then updatePodInCache e s old new
            else if podFilter new then addPodToCache e s new
            else if podFilter old then deletePodFromCache s old
            else s)"
    "deliver F e (PodInformer (Deleted old)) s = Ret (if podFilter old then deletePodFromCache s old else s)"
  using assms by (auto simp: filtering_contract_def pod_handlers_def)

lemma deliver_node_simps [simp]:
  "deliver F e (NodeInformer (Added new)) s = addNodeToCache e s new"
  "deliver F e (NodeInformer (Updated old new)) s = updateNodeInCache e s old new"
  "deliver F e (NodeInformer (Deleted old)) s = Ret (deleteNodeFromCache s old)"
  by (simp_all add: node_handlers_def)

lemma pod_handlers_queue:
  "manager (addPodToCache e s obj) = manager s" "world (addPodToCache e s obj) = world s"
  "manager (updatePodInCache e s obj new) = manager s" "world (updatePodInCache e s obj new) = world s"
  "world (deletePodFromCache s obj) = world s"
  by (auto simp: addPodToCache_def updatePodInCache_def deletePodFromCache_def split: obj.split sum.split)

lemma node_handlers_world:
  "addNodeToCache e s obj = Ret t \<Longrightarrow> world t = world s"
  "updateNodeInCache e s obj new = Ret t \<Longrightarrow> world t = world s"
  "world (deleteNodeFromCache s obj) = world s"
  by (auto simp: addNodeToCache_def updateNodeInCache_def deleteNodeFromCache_def Let_def
      split: obj.splits if_splits)

lemma deliver_world:
  assumes "filtering_contract F" "deliver F e ev s = Ret t"
  shows "world t = world s"
proof (cases ev)
  case (PodInformer n)
  with assms show ?thesis
    by (cases n) (auto simp del: deliver.simps simp: deliver_pod_simps pod_handlers_queue split: if_splits)
next
  case (NodeInformer n)
  with assms show ?thesis
    by (cases n) (auto simp del: deliver.simps simp: node_handlers_world)
qed

section \<open>Workers\<close>

datatype worker = Idle | Working | Stopped

record ('q, 'w) running =
  ctl :: "('q, 'w) Controller"
  workers :: "worker list"
  stopCh :: bool
  queueShut :: bool

definition Run :: "nat \<Rightarrow> ('q, 'w) Controller \<Rightarrow> ('q, 'w) running" where
  "Run threadiness c = \<lparr>ctl = c, workers = replicate threadiness Idle, stopCh = False, queueShut = False\<rparr>"

text \<open>
  \<open>Tick i\<close>: the wait of worker \<open>i\<close> is over; \<open>wait.Until\<close> starts \<open>runWorker\<close> unless the stop
  channel is closed, and returns if it is. \<open>WorkItem i\<close>: the worker takes and syncs one item.
  \<open>CloseStop\<close>: somebody closes the stop channel. \<open>RunReturns\<close>: \<open>Run\<close> has received from the closed
  channel and returns, so its deferred \<open>ShutDown\<close> stops the queue; until then the workers take
  items as before. The worker whose \<open>Get\<close> waits has no step.
\<close>

datatype run_event = Tick nat | WorkItem nat | CloseStop | RunReturns

fun worker_next :: "('q \<Rightarrow> 'q) \<Rightarrow> ('q, 'w) env \<Rightarrow> run_event \<Rightarrow> ('q, 'w) running \<Rightarrow> ('q, 'w) running option" where
  "worker_next shutDown e (Tick i) s =
     (if i < length (workers s) \<and> workers s ! i = Idle
      then Some (s\<lparr>workers := (workers s)[i := (if stopCh s then Stopped else Working)]\<rparr>)
      else None)"
| "worker_next shutDown e (WorkItem i) s =
     (if i < length (workers s) \<and> workers s ! i = Working
      then (case processNextWorkItem e (ctl s) of
              None \<Rightarrow> None
            | Some (c, continue) \<Rightarrow>
                Some (s\<lparr>ctl := c, workers := (workers s)[i := (if continue then Working else Idle)]\<rparr>))
      else None)"
| "worker_next shutDown e CloseStop s = (if stopCh s then None else Some (s\<lparr>stopCh := True\<rparr>))"
| "worker_next shutDown e RunReturns s =
     (if stopCh s \<and> \<not> queueShut s
      then Some (s\<lparr>queueShut := True, ctl := (ctl s)\<lparr>podQueue := shutDown (podQueue (ctl s))\<rparr>\<rparr>)
      else None)"

text \<open>What a worker step counts: a run of \<open>runWorker\<close> started, and an item whose \<open>syncPod\<close> returned nil.\<close>

definition starts :: "run_event \<Rightarrow> ('q, 'w) running \<Rightarrow> nat" where
  "starts ev s = (case ev of Tick i \<Rightarrow> if stopCh s then 0 else 1 | _ \<Rightarrow> 0)"

definition synced :: "('q, 'w) env \<Rightarrow> run_event \<Rightarrow> ('q, 'w) running \<Rightarrow> nat" where
  "synced e ev s =
     (case ev of
        WorkItem i \<Rightarrow>
          (case wq_Get e (podQueue (ctl s)) of
             Item key q \<Rightarrow>
               (case syncPod e ((ctl s)\<lparr>podQueue := q\<rparr>) key of (s1, forget, None) \<Rightarrow> 1 | _ \<Rightarrow> 0)
           | _ \<Rightarrow> 0)
      | _ \<Rightarrow> 0)"

definition busy :: "worker list \<Rightarrow> nat" where
  "busy ws = length (filter (\<lambda>w. w = Working) ws)"

lemma busy_update:
  assumes "i < length ws"
  shows "busy (ws[i := w]) + of_bool (ws ! i = Working) = busy ws + of_bool (w = Working)"
  using assms
proof (induction ws arbitrary: i)
  case (Cons x xs)
  show ?case
  proof (cases i)
    case 0
    then show ?thesis by (simp add: busy_def)
  next
    case (Suc j)
    with Cons.prems Cons.IH [of j] show ?thesis by (simp add: busy_def)
  qed
qed simp

lemma worker_next_busy:
  assumes "worker_next sd e ev s = Some t"
  shows "synced e ev s + busy (workers t) \<le> starts ev s + busy (workers s)"
proof (cases ev)
  case (Tick i)
  with assms show ?thesis
    using busy_update [of i "workers s" "if stopCh s then Stopped else Working"]
    by (auto simp: starts_def synced_def split: if_splits)
next
  case (WorkItem i)
  with assms obtain c continue where p: "processNextWorkItem e (ctl s) = Some (c, continue)"
    "i < length (workers s)" "workers s ! i = Working"
    "t = s\<lparr>ctl := c, workers := (workers s)[i := (if continue then Working else Idle)]\<rparr>"
    by (auto split: if_splits option.splits)
  have "synced e ev s \<le> of_bool (\<not> continue)"
  proof (cases "wq_Get e (podQueue (ctl s))")
    case (Item key q)
    then show ?thesis
      using p(1) WorkItem
      by (auto simp: synced_def processNextWorkItem_Item [OF Item] Let_def split: prod.splits option.splits)
  qed (simp_all add: WorkItem synced_def)
  with p show ?thesis
    using WorkItem busy_update [of i "workers s" "if continue then Working else Idle"]
    by (cases continue) (auto simp: starts_def)
qed (use assms in \<open>auto simp: starts_def synced_def split: if_splits\<close>)

lemma worker_next_length: "worker_next sd e ev s = Some t \<Longrightarrow> length (workers t) = length (workers s)"
  by (cases ev) (auto split: if_splits option.splits)

end
