(* ===== verification/Extender.thy ===== *)
theory Extender
  imports Server ControllerRun
begin

text \<open>
  The whole scheduler extender: HTTP requests, informer notifications, worker steps and
  changes of the outside world interleave over one cache, one work queue and one world.

  The manager and the controller share the cache and the API client. An event is one request
  served to its end, one notification delivered, one worker step, or a change of the world
  by somebody else, so steps are atomic here as the cache's lock makes its operations;
  Hazards treats binds that overlap inside one another. A request that panics has no step:
  the panic of a pool goroutine ends the process.
\<close>

record ('q, 'w) extender =
  running :: "('q, 'w) running"
  logged :: "log_line list"

record ('q, 'w) deployment =
  d_extension :: "'w extension"
  d_env :: "('q, 'w) env"
  d_filtering :: "('q, 'w) Controller filtering"
  d_shutDown :: "'q \<Rightarrow> 'q"
  d_version :: string

definition controller :: "('q, 'w) extender \<Rightarrow> ('q, 'w) Controller" where
  "controller s = ctl (running s)"

definition set_controller :: "('q, 'w) Controller \<Rightarrow> ('q, 'w) extender \<Rightarrow> ('q, 'w) extender" where
  "set_controller c s = s\<lparr>running := (running s)\<lparr>ctl := c\<rparr>\<rparr>"

definition log_emit :: "log_line \<Rightarrow> ('q, 'w) extender \<Rightarrow> ('q, 'w) extender" where
  "log_emit l s = s\<lparr>logged := logged s @ [l]\<rparr>"

definition get_cache :: "('q, 'w) extender \<Rightarrow> scheduleCache" where
  "get_cache s = manager (controller s)"

definition get_bind :: "('q, 'w) extender \<Rightarrow> scheduleCache \<times> 'w" where
  "get_bind s = (get_cache s, world (controller s))"

definition put_bind :: "scheduleCache \<times> 'w \<Rightarrow> ('q, 'w) extender \<Rightarrow> ('q, 'w) extender" where
  "put_bind cw s = set_controller ((controller s)\<lparr>manager := fst cw, world := snd cw\<rparr>) s"

definition handle_of :: "('q, 'w) deployment \<Rightarrow> string \<Rightarrow> string \<Rightarrow> (('q, 'w) extender handle) option" where
  "handle_of p m path =
     dispatch (d_version p) (predicate_handle (d_extension p) get_cache) (prioritize_handle (d_extension p) get_cache)
       (bind_handle (d_extension p) get_bind put_bind) m path"

definition serve :: "('q, 'w) deployment \<Rightarrow> ('q, 'w) extender \<Rightarrow> request \<Rightarrow> (('q, 'w) extender \<times> string response) outcome option" where
  "serve p s r =
     map_option (\<lambda>h. DebugLogging log_emit h (rq_Path r) s r) (handle_of p (rq_Method r) (rq_Path r))"

datatype 'w ext_event =
    Request request
  | Informer informer_event
  | Workers run_event
  | Outside 'w

fun ext_next :: "('q, 'w) deployment \<Rightarrow> 'w ext_event \<Rightarrow> ('q, 'w) extender \<Rightarrow> ('q, 'w) extender option" where
  "ext_next p (Request r) s =
     (case serve p s r of
        None \<Rightarrow> Some s
      | Some Panic \<Rightarrow> None
      | Some (Ret (s', rsp)) \<Rightarrow> Some s')"
| "ext_next p (Informer ev) s =
     (case deliver (d_filtering p) (d_env p) ev (controller s) of
        Panic \<Rightarrow> None
      | Ret c \<Rightarrow> Some (set_controller c s))"
| "ext_next p (Workers ev) s =
     map_option (\<lambda>r. s\<lparr>running := r\<rparr>) (worker_next (d_shutDown p) (d_env p) ev (running s))"
| "ext_next p (Outside w) s = Some (set_controller ((controller s)\<lparr>world := w\<rparr>) s)"

fun ext_run :: "('q, 'w) deployment \<Rightarrow> 'w ext_event list \<Rightarrow> ('q, 'w) extender \<Rightarrow> ('q, 'w) extender option" where
  "ext_run p [] s = Some s"
| "ext_run p (ev # evs) s = Option.bind (ext_next p ev s) (ext_run p evs)"

definition ext_start :: "nat \<Rightarrow> 'q \<Rightarrow> 'w \<Rightarrow> ('q, 'w) extender" where
  "ext_start threadness q w =
     \<lparr>running = Run threadness \<lparr>manager = NewScheduleCache, podQueue = q, world = w\<rparr>, logged = []\<rparr>"

section \<open>What the environment owes\<close>

text \<open>
  The discipline of the cache machine, read off the concrete events: pods listed with a node
  fit on it, a pod's copies agree on board and orins, an informed pod fits, and a pod to be
  bound has no board annotation yet and is not already on the node behind the cache's back.
\<close>

definition placed :: "scheduleCache \<Rightarrow> Pod \<Rightarrow> bool" where
  "placed c pod =
     (case Cache_GetNode c (pod_NodeName pod) of None \<Rightarrow> True | Some ni \<Rightarrow> same_placement ni pod)"

definition informed :: "scheduleCache \<Rightarrow> Pod \<Rightarrow> bool" where
  "informed c pod =
     (case Cache_GetNode c (pod_NodeName pod) of
        None \<Rightarrow> True
      | Some ni \<Rightarrow> if has_key (Pods ni) (pod_UID pod) then same_placement ni pod else compatible ni [pod])"

definition assign_ok :: "('q, 'w) env \<Rightarrow> ('q, 'w) Controller \<Rightarrow> Pod \<Rightarrow> bool" where
  "assign_ok e s pod =
     (case Cache_GetNode (manager s) (pod_NodeName pod) of
        Some _ \<Rightarrow> informed (manager s) pod
      | None \<Rightarrow>
          (case cs_GetNode (clientset e) (world s) (pod_NodeName pod) of
             (w', Inl _) \<Rightarrow> True
           | (w', Inr node) \<Rightarrow>
               listed_fit e w' node (node_Name node) \<and>
               informed (fst (Cache_AddNode (manager s) node (fst (getActivePodInNode e w' (node_Name node))))) pod))"

definition sync_ok :: "('q, 'w) env \<Rightarrow> ('q, 'w) Controller \<Rightarrow> string \<Rightarrow> bool" where
  "sync_ok e s key =
     (case SplitMetaNamespaceKey e key of
        Inl _ \<Rightarrow> True
      | Inr (ns, name) \<Rightarrow>
          (case podLister_Get e (world s) ns name of
             Inl _ \<Rightarrow> True
           | Inr pod \<Rightarrow> if IsCompletedPod pod then placed (manager s) pod else assign_ok e s pod))"

fun deleted_ok :: "scheduleCache \<Rightarrow> obj \<Rightarrow> bool" where
  "deleted_ok c (PodObj pod) = placed c pod"
| "deleted_ok c (DeletedFinalStateUnknown (PodObj pod)) = placed c pod"
| "deleted_ok c _ = True"

fun notified_ok :: "('q, 'w) env \<Rightarrow> ('q, 'w) Controller \<Rightarrow> informer_event \<Rightarrow> bool" where
  "notified_ok e s (PodInformer (Deleted obj)) = deleted_ok (manager s) obj"
| "notified_ok e s (PodInformer (Updated old new)) = deleted_ok (manager s) old"
| "notified_ok e s (NodeInformer (Added (NodeObj node))) = listed_fit e (world s) node (node_Name node)"
| "notified_ok e s (NodeInformer (Updated (NodeObj old) (NodeObj new))) =
     (listed_fit e (world s) old (node_Name new) \<and> listed_fit e (world s) new (node_Name new))"
| "notified_ok e s _ = True"

inductive pod_reads :: "'w clientset \<Rightarrow> string \<Rightarrow> string \<Rightarrow> 'w \<Rightarrow> 'w \<Rightarrow> bool" for cs ns name w where
  start: "pod_reads cs ns name w w"
| read: "pod_reads cs ns name w v \<Longrightarrow> cs_GetPod cs v ns name = (v', res) \<Longrightarrow> pod_reads cs ns name w v'"

definition bind_ok :: "'w clientset \<Rightarrow> scheduleCache \<Rightarrow> 'w \<Rightarrow> ExtenderBindingArgs \<Rightarrow> bool" where
  "bind_ok cs c w args \<longleftrightarrow>
     has_key (podMaps c) (ba_PodUID args) \<or>
     not_on_node c (ba_Node args) (ba_PodUID args) \<and>
     (\<forall>v v' pod. pod_reads cs (ba_PodNamespace args) (ba_PodName args) w v \<longrightarrow>
        cs_GetPod cs v (ba_PodNamespace args) (ba_PodName args) = (v', Inr pod) \<longrightarrow>
        fmlookup (pod_Annotations pod) AnnotationPodBindToBoard = None)"

text \<open>The arguments a bind request is decoded to, and the bind it asks for.\<close>

definition bind_request :: "('q, 'w) deployment \<Rightarrow> request \<Rightarrow> ExtenderBindingArgs option" where
  "bind_request p r =
     (if (rq_Method r, rq_Path r) = (''POST'', bindPath)
      then (case rq_Body r of
              None \<Rightarrow> None
            | Some body \<Rightarrow>
                (case decodeBinding (x_codec (d_extension p)) body of Inl _ \<Rightarrow> None | Inr args \<Rightarrow> Some args))
      else None)"

definition asked_bind ::
  "('q, 'w) deployment \<Rightarrow> ('q, 'w) extender \<Rightarrow> ExtenderBindingArgs \<Rightarrow> ((scheduleCache \<times> 'w) \<times> manager_error option) outcome" where
  "asked_bind p s args =
     Bind (x_client (d_extension p)) (x_retry (d_extension p)) (x_rng (d_extension p)) (get_cache s) (world (controller s))
       (ba_Node args) (ba_PodName args) (ba_PodNamespace args) (ba_PodUID args)"

definition request_ok :: "('q, 'w) deployment \<Rightarrow> ('q, 'w) extender \<Rightarrow> request \<Rightarrow> bool" where
  "request_ok p s r =
     (case bind_request p r of
        None \<Rightarrow> True
      | Some args \<Rightarrow> bind_ok (x_client (d_extension p)) (get_cache s) (world (controller s)) args)"

fun ext_ok :: "('q, 'w) deployment \<Rightarrow> ('q, 'w) extender \<Rightarrow> 'w ext_event \<Rightarrow> bool" where
  "ext_ok p s (Request r) = request_ok p s r"
| "ext_ok p s (Informer ev) = notified_ok (d_env p) (controller s) ev"
| "ext_ok p s (Workers (WorkItem i)) =
     (case wq_Get (d_env p) (podQueue (controller s)) of
        Item key q \<Rightarrow> sync_ok (d_env p) ((controller s)\<lparr>podQueue := q\<rparr>) key
      | _ \<Rightarrow> True)"
| "ext_ok p s _ = True"

text \<open>The contracts of the code outside the repository.\<close>

definition deployment_ok :: "('q, 'w) deployment \<Rightarrow> bool" where
  "deployment_ok p \<longleftrightarrow>
     filtering_contract (d_filtering p) \<and> retry_contract (x_retry (d_extension p)) \<and>
     range_order (x_rng (d_extension p))"

inductive ext_reachable :: "('q, 'w) deployment \<Rightarrow> nat \<Rightarrow> ('q, 'w) extender \<Rightarrow> bool" for p n where
  start: "ext_reachable p n (ext_start n q w)"
| step: "ext_reachable p n s \<Longrightarrow> ext_ok p s ev \<Longrightarrow> ext_next p ev s = Some t \<Longrightarrow> ext_reachable p n t"

section \<open>Selectors\<close>

lemma controller_set [simp]: "controller (set_controller c s) = c"
  by (simp add: controller_def set_controller_def)

lemma controller_log [simp]: "controller (log_emit l s) = controller s"
  by (simp add: controller_def log_emit_def)

lemma get_cache_simps [simp]:
  "get_cache (log_emit l s) = get_cache s" "get_cache (set_controller c s) = manager c"
  by (simp_all add: get_cache_def)

lemma get_bind_log [simp]: "get_bind (log_emit l s) = get_bind s"
  by (simp add: get_bind_def)

lemma put_bind_simps [simp]:
  "get_cache (put_bind cw s) = fst cw" "world (controller (put_bind cw s)) = snd cw"
  "podQueue (controller (put_bind cw s)) = podQueue (controller s)"
  by (simp_all add: put_bind_def get_cache_def)

lemma controller_running [simp]: "controller (s\<lparr>running := r\<rparr>) = ctl r"
  by (simp add: controller_def)

lemma ext_run_append: "ext_run p (xs @ ys) s = Option.bind (ext_run p xs s) (ext_run p ys)"
proof (induction xs arbitrary: s)
  case (Cons x xs)
  then show ?case by (cases "ext_next p x s") simp_all
qed simp

end
