(* ===== verification/ExtenderFacts.thy ===== *)
theory ExtenderFacts
  imports Extender
begin

text \<open>
  The extender refines the cache machine: under the environment's discipline every event,
  a whole bind with its retries and roll-back included, is a sequence of cache steps. So
  what holds of every reachable cache holds of the extender's cache at any moment.
\<close>

section \<open>Bind as cache steps\<close>

lemma GetPod_read:
  assumes "GetPodFromApiserver cs w name ns u = (w', res)" "pod_reads cs ns name w0 w"
  shows "pod_reads cs ns name w0 w'"
  using assms
  by (auto simp: GetPodFromApiserver_def split: prod.splits sum.splits if_splits intro: pod_reads.read)

lemma GetPod_origin:
  assumes "GetPodFromApiserver cs w name ns u = (w', Inr pod)" "pod_reads cs ns name w0 w"
  shows "\<exists>v v'. pod_reads cs ns name w0 v \<and> cs_GetPod cs v ns name = (v', Inr pod)"
  using assms
  by (auto simp: GetPodFromApiserver_def split: prod.splits sum.splits if_splits intro: pod_reads.read)

text \<open>Where an attempt may leave the bind: the pod is known, or nothing but reads happened.\<close>

definition bind_progress :: "'w clientset \<Rightarrow> string \<Rightarrow> string \<Rightarrow> uid \<Rightarrow> scheduleCache \<Rightarrow> 'w \<Rightarrow> 'w bind_state \<Rightarrow> bool" where
  "bind_progress cs ns name u c w s \<longleftrightarrow>
     cache_step\<^sup>*\<^sup>* c (fst s) \<and>
     (has_key (podMaps (fst s)) u \<or> fst s = c \<and> pod_reads cs ns name w (fst (snd s)))"

definition bind_done :: "scheduleCache \<Rightarrow> string \<Rightarrow> uid \<Rightarrow> 'w bind_state \<Rightarrow> bool" where
  "bind_done c node u s \<longleftrightarrow> cache_step\<^sup>*\<^sup>* c (fst s) \<and> bound_to c node u (fst s) (snd (snd s))"

lemma bindPod_progress:
  fixes cs :: "'w clientset"
  assumes rng: "range_order rng" and fresh: "fresh_bind c node u"
    and bare: "\<And>v v' pod. pod_reads cs ns name w v \<Longrightarrow> cs_GetPod cs v ns name = (v', Inr pod) \<Longrightarrow>
        fmlookup (pod_Annotations pod) AnnotationPodBindToBoard = None"
    and at: "bind_progress cs ns name u c w s"
    and run: "bindPod cs rng node name ns u s = Ret (s', e)"
  shows "if e = None then bind_done c node u s' else bind_progress cs ns name u c w s'"
proof -
  obtain cc ww np where s: "s = (cc, ww, np)" by (metis prod_cases3)
  obtain c' w' np' where s': "s' = (c', w', np')" by (metis prod_cases3)
  show ?thesis
  proof (cases "has_key (podMaps cc) u")
    case True
    have "c' = cc \<and> e \<noteq> None" by (rule bindPod_known [OF True run [unfolded s s']])
    then show ?thesis using at True by (auto simp: bind_progress_def s s')
  next
    case unknown: False
    with at have c: "cc = c" and reads: "pod_reads cs ns name w ww" by (auto simp: bind_progress_def s)
    have go: "bindPod cs rng node name ns u (c, ww, np) = Ret ((c', w', np'), e)" using run by (simp add: s s' c)
    obtain w1 r where get: "GetPodFromApiserver cs ww name ns u = (w1, r)" by fastforce
    have reads1: "pod_reads cs ns name w w1" by (rule GetPod_read [OF get reads])
    show ?thesis
    proof (cases r)
      case (Inl err)
      then have "c' = c" "w' = w1" "e \<noteq> None" using run get by (auto simp: bindPod_def s s' c)
      then show ?thesis by (auto simp: bind_progress_def s' reads1)
    next
      case (Inr pod)
      have u: "pod_UID pod = u" by (rule GetPod_UID [OF get [unfolded Inr]])
      obtain v v' where "pod_reads cs ns name w v" "cs_GetPod cs v ns name = (v', Inr pod)"
        using GetPod_origin [OF get [unfolded Inr] reads] by blast
      then have noann: "fmlookup (pod_Annotations pod) AnnotationPodBindToBoard = None" by (rule bare)
      show ?thesis
      proof (cases "Cache_GetNode c node")
        case None
        then have "c' = c" "w' = w1" "e \<noteq> None" using go get Inr by (auto simp: bindPod_def)
        then show ?thesis by (auto simp: bind_progress_def s' reads1)
      next
        case (Some ni)
        let ?b = "boardID (BinpackAllocate rng (Allocatable ni) (BuildRequestOrinSet pod))"
        let ?p = "AddPodBindAnnotation pod ?b"
        have pol: "policy_of pod = AllocatorPolicyBinPack"
          using go get Inr Some
          by (auto simp: bindPod_def Let_def Allocate_policy split: if_splits)
        show ?thesis
        proof (cases "?b = BoardIDNotFount")
          case True
          then have "c' = c" "w' = w1" "e \<noteq> None" using go get Inr Some pol
            by (auto simp: bindPod_def Let_def Allocate_policy)
          then show ?thesis by (auto simp: bind_progress_def s' reads1)
        next
          case b: False
          have sound: "cache_sound c" and nk: "\<not> has_key (Pods ni) (pod_UID pod)"
            using fresh Some u by (auto simp: fresh_bind_def not_on_node_def)
          have unk: "\<not> has_key (podMaps c) (pod_UID pod)" using unknown u c by simp
          obtain c1 where asm: "Cache_AssumePod c ?p node = (c1, None)" "cache_sound c1"
            and claim: "claims c node (pod_UID pod) pod ?b c1"
            by (rule AssumePod_claims [OF sound Some nk unk chosen_fits [OF rng refl b]])
          have one: "cache_step c c1"
            using cache_step.pod_assumed [OF _ nk rng refl b, of c node] Some asm(1) by (simp add: Cache_GetNode_def)
          have known: "has_key (podMaps c1) u" using claim u by (simp add: claims_def)
          obtain w2 upd where upd: "cs_UpdatePod cs w1 (pod_Namespace ?p) ?p = (w2, upd)" by fastforce
          show ?thesis
          proof (cases upd)
            case None
            then have "e = None" "c' = c1" "np' = Some ?p"
              using go get Inr Some pol b asm(1) upd by (auto simp: bindPod_def Let_def Allocate_policy)
            then show ?thesis using one asm(2) claim u by (auto simp: bind_done_def bound_to_def s')
          next
            case (Some err)
            then have "e \<noteq> None" "c' = c1"
              using go get Inr \<open>Cache_GetNode c node = Some ni\<close> pol b asm(1) upd ForgetPod_unannotated [OF noann]
              by (auto simp: bindPod_def Let_def Allocate_policy)
            then show ?thesis using one known by (auto simp: bind_progress_def s')
          qed
        qed
      qed
    qed
  qed
qed

lemma attempts_progress:
  fixes cs :: "'w clientset"
  assumes "range_order rng" "fresh_bind c node u"
    and bare: "\<And>v v' pod. pod_reads cs ns name w v \<Longrightarrow> cs_GetPod cs v ns name = (v', Inr pod) \<Longrightarrow>
        fmlookup (pod_Annotations pod) AnnotationPodBindToBoard = None"
    and run: "attempts n (bindPod cs rng node name ns u) (c, w, None) = Ret (s', ok)"
  shows "if ok then bind_done c node u s' else bind_progress cs ns name u c w s'"
proof (rule attempts_rule [where I = "bind_progress cs ns name u c w" and f = "bindPod cs rng node name ns u"])
  show "bind_progress cs ns name u c w (c, w, None)" by (simp add: bind_progress_def pod_reads.start)
  show "attempts n (bindPod cs rng node name ns u) (c, w, None) = Ret (s', ok)" by (rule run)
qed (use bindPod_progress [OF assms(1,2) bare] in \<open>fastforce+\<close>)

lemma Bind_known_node:
  fixes cs :: "'w clientset"
  assumes "Cache_GetNode c node = Some ni" "Bind cs R rng c w node name ns u = Ret ((c', w'), e)"
  obtains c1 w1 np e1 where "R 3 (bindPod cs rng node name ns u) (c, w, None) = Ret ((c1, w1, np), e1)"
    "if e1 = None \<and> e \<noteq> None then \<exists>p. np = Some p \<and> c' = fst (Cache_ForgetPod c1 p node) else c' = c1"
proof -
  from assms obtain c1 w1 np e1 where R: "R 3 (bindPod cs rng node name ns u) (c, w, None) = Ret ((c1, w1, np), e1)"
    by (auto simp: Bind_def split: outcome.splits)
  show ?thesis
    by (rule that [OF R], use assms R in \<open>auto simp: Bind_def Let_def split: option.splits prod.splits\<close>)
qed

lemma bound_same_placement:
  assumes "bound_to c node u c' (Some p)" "Cache_GetNode c' node = Some ni"
  shows "same_placement ni p"
  using assms by (auto simp: bound_to_def claims_def same_placement_def)

lemma Bind_steps:
  fixes cs :: "'w clientset"
  assumes rng: "range_order rng" and retry: "retry_contract R" and sound: "cache_sound c"
    and ok: "bind_ok cs c w args"
    and run: "Bind cs R rng c w (ba_Node args) (ba_PodName args) (ba_PodNamespace args) (ba_PodUID args) = Ret ((c', w'), e)"
  shows "cache_step\<^sup>*\<^sup>* c c'"
proof (cases "has_key (podMaps c) (ba_PodUID args)")
  case True
  then have "c' = c" using Bind_known [OF True retry run] by simp
  then show ?thesis by simp
next
  case False
  with ok sound have fresh: "fresh_bind c (ba_Node args) (ba_PodUID args)"
    by (simp add: bind_ok_def fresh_bind_def)
  have bare: "fmlookup (pod_Annotations pod) AnnotationPodBindToBoard = None"
    if "pod_reads cs (ba_PodNamespace args) (ba_PodName args) w v"
      "cs_GetPod cs v (ba_PodNamespace args) (ba_PodName args) = (v', Inr pod)" for v v' pod
    using ok False that by (auto simp: bind_ok_def)
  show ?thesis
  proof (cases "Cache_GetNode c (ba_Node args)")
    case None
    with run show ?thesis by (simp add: Bind_def)
  next
    case (Some ni)
    from Bind_known_node [OF Some run] obtain c1 w1 np e1 where
      R: "R 3 (bindPod cs rng (ba_Node args) (ba_PodName args) (ba_PodNamespace args) (ba_PodUID args)) (c, w, None)
        = Ret ((c1, w1, np), e1)"
      and c': "if e1 = None \<and> e \<noteq> None then \<exists>p. np = Some p \<and> c' = fst (Cache_ForgetPod c1 p (ba_Node args)) else c' = c1" .
    have att: "if e1 = None then bind_done c (ba_Node args) (ba_PodUID args) (c1, w1, np)
        else bind_progress cs (ba_PodNamespace args) (ba_PodName args) (ba_PodUID args) c w (c1, w1, np)"
      using attempts_progress [OF rng fresh bare retry_Ret [OF retry R]] by simp
    then have steps: "cache_step\<^sup>*\<^sup>* c c1" by (auto simp: bind_done_def bind_progress_def split: if_splits)
    show ?thesis
    proof (cases "e1 = None \<and> e \<noteq> None")
      case True
      with c' att obtain p where p: "c' = fst (Cache_ForgetPod c1 p (ba_Node args))"
        "bound_to c (ba_Node args) (ba_PodUID args) c1 (Some p)" by (auto simp: bind_done_def)
      have "cache_step c1 c'"
        unfolding p(1) by (rule cache_step.pod_forgotten)
          (use bound_same_placement [OF p(2)] in \<open>simp add: Cache_GetNode_def\<close>)
      with steps show ?thesis by simp
    next
      case False
      with c' steps show ?thesis by (simp split: if_splits)
    qed
  qed
qed

section \<open>Controller operations as cache steps\<close>

lemma placed_alt: "placed c pod \<longleftrightarrow> placed_as_cached c pod"
  by (simp add: placed_def placed_as_cached_def Cache_GetNode_def split: option.split)

lemma informed_alt:
  "informed c pod \<longleftrightarrow>
     (\<forall>ni. fmlookup (nodeCache c) (pod_NodeName pod) = Some ni \<longrightarrow>
        (if has_key (Pods ni) (pod_UID pod) then same_placement ni pod else compatible ni [pod]))"
  by (cases "fmlookup (nodeCache c) (pod_NodeName pod)")
    (simp_all add: informed_def Cache_GetNode_def del: compatible.simps)

lemma placed_release: "placed c pod \<Longrightarrow> cache_step c (fst (releasePod c pod))"
  by (auto simp: placed_alt placed_as_cached_def releasePod_def intro: cache_step.pod_released)

lemma informed_add: "informed c pod \<Longrightarrow> cache_step c (fst (Cache_AddPod c pod))"
  unfolding informed_alt by (intro cache_step.pod_informed) blast

lemma deleted_steps: "deleted_ok (manager s) obj \<Longrightarrow> cache_step\<^sup>*\<^sup>* (manager s) (manager (deletePodFromCache s obj))"
  by (cases "(manager s, obj)" rule: deleted_ok.cases)
    (auto simp: deletePodFromCache_def placed_release split: obj.split)

lemma AddPod_absent: "Cache_GetNode c (pod_NodeName pod) = None \<Longrightarrow> fst (Cache_AddPod c pod) = c"
  by (simp add: Cache_AddPod_def Cache_GetNode_def)

lemma assignPod_steps:
  assumes ok: "assign_ok e s pod" and run: "assignPod e s pod = (s', err)"
  shows "cache_step\<^sup>*\<^sup>* (manager s) (manager s')"
proof (cases "fmlookup (pod_Annotations pod) AnnotationPodBindToBoard")
  case None
  with run show ?thesis by (simp add: assignPod_def)
next
  case ann: (Some board)
  show ?thesis
  proof (cases "Cache_GetNode (manager s) (pod_NodeName pod)")
    case (Some ni)
    then have "manager s' = fst (Cache_AddPod (manager s) pod)"
      using run ann by (auto simp: assignPod_def Let_def split: prod.splits)
    moreover have "informed (manager s) pod" using ok Some by (simp add: assign_ok_def)
    ultimately show ?thesis by (simp add: informed_add r_into_rtranclp)
  next
    case None
    obtain w' res where get: "cs_GetNode (clientset e) (world s) (pod_NodeName pod) = (w', res)" by fastforce
    show ?thesis
    proof (cases res)
      case (Inl msg)
      then have "manager s' = manager s"
        using run ann None get AddPod_absent [OF None] by (auto simp: assignPod_def Let_def split: prod.splits)
      then show ?thesis by simp
    next
      case (Inr node)
      let ?c = "fst (Cache_AddNode (manager s) node (fst (getActivePodInNode e w' (node_Name node))))"
      have "manager s' = fst (Cache_AddPod ?c pod)"
        using run ann None get Inr by (auto simp: assignPod_def Let_def split: prod.splits)
      moreover have "listed_fit e w' node (node_Name node)" "informed ?c pod"
        using ok None get Inr by (simp_all add: assign_ok_def)
      ultimately have "cache_step (manager s) ?c" "cache_step ?c (manager s')"
        by (simp_all add: listed_fit_def cache_step.node_added informed_add)
      then show ?thesis by (meson converse_rtranclp_into_rtranclp r_into_rtranclp)
    qed
  qed
qed

lemma syncPod_steps:
  assumes "sync_ok e s key"
  shows "cache_step\<^sup>*\<^sup>* (manager s) (manager (fst (syncPod e s key)))"
proof -
  have assign: "cache_step\<^sup>*\<^sup>* (manager s) (manager s')"
    if "assign_ok e s pod" "assignPod e s pod = (s', err)" for pod s' err
    by (rule assignPod_steps [OF that])
  show ?thesis
    using assms
    by (auto simp: syncPod_def sync_ok_def placed_release split: sum.split lister_error.split prod.split option.split
        dest!: assign intro: r_into_rtranclp)
qed

lemma processNextWorkItem_steps:
  assumes "case wq_Get e (podQueue s) of Item key q \<Rightarrow> sync_ok e (s\<lparr>podQueue := q\<rparr>) key | _ \<Rightarrow> True"
    and "processNextWorkItem e s = Some (t, continue)"
  shows "cache_step\<^sup>*\<^sup>* (manager s) (manager t)"
proof (cases "wq_Get e (podQueue s)")
  case (Item key q)
  then have "manager t = manager (fst (syncPod e (s\<lparr>podQueue := q\<rparr>) key))"
    using assms(2) by (auto simp: processNextWorkItem_Item [OF Item] Let_def split: prod.splits)
  moreover have "sync_ok e (s\<lparr>podQueue := q\<rparr>) key" using assms(1) Item by simp
  ultimately show ?thesis using syncPod_steps [of e "s\<lparr>podQueue := q\<rparr>" key] by simp
qed (use assms(2) in \<open>auto simp: processNextWorkItem_def\<close>)

lemma node_added_steps:
  assumes "addNodeToCache e s obj = Ret t" "notified_ok e s (NodeInformer (Added obj))"
  shows "cache_step\<^sup>*\<^sup>* (manager s) (manager t)"
proof -
  obtain node where "obj = NodeObj node" using assms(1) by (cases obj) (auto simp: addNodeToCache_def)
  with assms show ?thesis
    by (auto simp: addNodeToCache_def Let_def listed_fit_def split: if_splits
        intro!: r_into_rtranclp cache_step.node_deleted cache_step.node_added)
qed

lemma node_updated_steps:
  assumes "updateNodeInCache e s obj new = Ret t" "notified_ok e s (NodeInformer (Updated obj new))"
  shows "cache_step\<^sup>*\<^sup>* (manager s) (manager t)"
proof -
  obtain n m where "obj = NodeObj n" "new = NodeObj m"
    using assms(1) by (cases obj; cases new) (auto simp: updateNodeInCache_def)
  with assms show ?thesis
    by (auto simp: updateNodeInCache_def Let_def listed_fit_def split: if_splits
        intro!: r_into_rtranclp cache_step.node_deleted cache_step.node_updated)
qed

lemma node_deleted_steps: "cache_step\<^sup>*\<^sup>* (manager s) (manager (deleteNodeFromCache s obj))"
  by (auto simp: deleteNodeFromCache_def split: obj.split intro!: r_into_rtranclp cache_step.node_deleted)

lemma deliver_steps:
  assumes "filtering_contract F" "notified_ok e s ev" "deliver F e ev s = Ret t"
  shows "cache_step\<^sup>*\<^sup>* (manager s) (manager t)"
proof (cases ev)
  case (PodInformer n)
  with assms deleted_steps [of s] show ?thesis
    by (cases n) (auto simp del: deliver.simps simp: deliver_pod_simps pod_handlers_queue split: if_splits)
next
  case (NodeInformer n)
  with assms show ?thesis
    by (cases n) (auto simp del: deliver.simps dest: node_added_steps node_updated_steps intro: node_deleted_steps)
qed

section \<open>Every event of the extender\<close>

lemma dispatch_cases:
  assumes "handle_of p m path = Some h"
  obtains "m = ''GET''" "h = VersionRoute (d_version p)"
  | "path \<noteq> bindPath" "h = predicate_handle (d_extension p) get_cache"
  | "path \<noteq> bindPath" "h = prioritize_handle (d_extension p) get_cache"
  | "m = ''POST''" "path = bindPath" "h = bind_handle (d_extension p) get_bind put_bind"
proof -
  have "predicatesPrefix \<noteq> bindPath" "prioritiesPrefix \<noteq> bindPath" by (simp_all add: path_defs)
  with assms that show ?thesis by (auto simp: handle_of_def split: if_splits)
qed

lemma serve_Ret:
  assumes "serve p s r = Some (Ret (t, rsp))"
  obtains h u where "handle_of p (rq_Method r) (rq_Path r) = Some h"
    "h (log_emit (DebugRequest (rq_Path r) (rq_Body r)) s) r = Ret (u, rsp)"
    "t = log_emit (DebugResponse (rq_Path r) rsp) u"
proof -
  from assms obtain h where h: "handle_of p (rq_Method r) (rq_Path r) = Some h"
    "DebugLogging log_emit h (rq_Path r) s r = Ret (t, rsp)" by (auto simp: serve_def)
  then obtain u where "h (log_emit (DebugRequest (rq_Path r) (rq_Body r)) s) r = Ret (u, rsp)"
    "t = log_emit (DebugResponse (rq_Path r) rsp) u"
    by (auto simp: DebugLogging_def split: outcome.splits)
  with h(1) show ?thesis by (rule that)
qed

text \<open>A served request leaves the controller alone or is a bind that returned.\<close>

lemma running_log [simp]: "running (log_emit l s) = running s"
  by (simp add: log_emit_def)

lemma serve_cases:
  fixes s t :: "('q, 'w) extender"
  assumes run: "serve p s r = Some (Ret (t, rsp))"
  obtains (read) "running t = running s" "bind_request p r = None"
  | (bind) args cw e where "bind_request p r = Some args" "asked_bind p s args = Ret (cw, e)"
      "running t = running (put_bind cw s)"
proof -
  let ?s = "log_emit (DebugRequest (rq_Path r) (rq_Body r)) s"
  from run obtain h u where h: "handle_of p (rq_Method r) (rq_Path r) = Some h" "h ?s r = Ret (u, rsp)"
    "running t = running u" by (auto elim: serve_Ret)
  have put: "running (put_bind cw (log_emit l s)) = running (put_bind cw s)" for cw l
    by (simp add: put_bind_def set_controller_def controller_def)
  have same: "running (put_bind (get_bind s) s) = running s"
    by (simp add: put_bind_def get_bind_def get_cache_def set_controller_def controller_def)
  from h(1) show ?thesis
  proof (cases rule: dispatch_cases)
    case 4
    let ?x = "d_extension p"
    from h(2) obtain body cw msg where body: "rq_Body r = Some body"
      and res: "(case decodeBinding (x_codec ?x) body of Inl err \<Rightarrow> Ret (get_bind s, err)
         | Inr args \<Rightarrow> Bind_Handler (x_errText ?x) (x_client ?x) (x_retry ?x) (x_rng ?x) (get_cache s) (world (controller s)) args)
         = Ret (cw, msg)" "u = put_bind cw ?s"
      by (auto simp: 4 bind_handle_def BindRoute_def get_bind_def split: outcome.splits option.splits sum.splits)
    show ?thesis
    proof (cases "decodeBinding (x_codec ?x) body")
      case (Inl err)
      then have "cw = get_bind s" using res by simp
      then show ?thesis using read res(2) h(3) Inl body 4 by (simp add: put same bind_request_def)
    next
      case (Inr args)
      obtain e where "asked_bind p s args = Ret (cw, e)"
        using res(1) Inr by (auto simp: Bind_Handler_def asked_bind_def split: outcome.splits option.splits)
      then show ?thesis using bind res(2) h(3) Inr body 4 by (simp add: put bind_request_def)
    qed
  qed (use read h in \<open>auto simp: VersionRoute_def predicate_handle_def prioritize_handle_def bind_request_def
        split: outcome.splits\<close>)
qed

lemma serve_steps:
  assumes ok: "deployment_ok p" "cache_sound (get_cache s)" "request_ok p s r"
    and run: "serve p s r = Some (Ret (t, rsp))"
  shows "cache_step\<^sup>*\<^sup>* (get_cache s) (get_cache t)"
  using run
proof (cases rule: serve_cases)
  case read
  then show ?thesis by (simp add: get_cache_def controller_def)
next
  case (bind args cw e)
  have "cache_step\<^sup>*\<^sup>* (get_cache s) (fst cw)"
    using Bind_steps [OF _ _ ok(2)] ok(1,3) bind(1,2)
    by (cases cw) (auto simp: deployment_ok_def request_ok_def asked_bind_def)
  moreover have "get_cache t = get_cache (put_bind cw s)"
    using bind(3) by (simp only: get_cache_def controller_def)
  ultimately show ?thesis by simp
qed

lemma ext_next_steps:
  assumes "deployment_ok p" "cache_sound (get_cache s)" "ext_ok p s ev" "ext_next p ev s = Some t"
  shows "cache_step\<^sup>*\<^sup>* (get_cache s) (get_cache t)"
proof (cases ev)
  case (Request r)
  with assms show ?thesis
    by (cases "serve p s r") (auto intro: serve_steps split: outcome.splits)
next
  case (Informer iev)
  with assms obtain c where "deliver (d_filtering p) (d_env p) iev (controller s) = Ret c" "t = set_controller c s"
    by (auto split: outcome.splits)
  with Informer assms(1,3) show ?thesis
    by (auto simp: deployment_ok_def get_cache_def intro: deliver_steps)
next
  case (Workers wev)
  then show ?thesis
  proof (cases wev)
    case (WorkItem i)
    with Workers assms(4) obtain c continue where
      "processNextWorkItem (d_env p) (ctl (running s)) = Some (c, continue)" "controller t = c"
      by (auto split: if_splits option.splits)
    with Workers WorkItem assms(3) processNextWorkItem_steps [of "d_env p" "controller s" c continue] show ?thesis
      by (simp add: get_cache_def controller_def)
  qed (use Workers assms(4) in \<open>auto simp: get_cache_def controller_def split: if_splits\<close>)
next
  case (Outside w)
  with assms show ?thesis by (auto simp: get_cache_def)
qed

lemma cache_reachable_steps: "cache_step\<^sup>*\<^sup>* c d \<Longrightarrow> cache_reachable c \<Longrightarrow> cache_reachable d"
  by (induction rule: rtranclp_induct) (auto intro: cache_reachable.step)

lemma ext_reachable_cache:
  assumes "deployment_ok p" "ext_reachable p n s"
  shows "cache_reachable (get_cache s)"
  using assms(2)
proof induction
  case (start q w)
  then show ?case
    by (simp add: ext_start_def get_cache_def controller_def Run_def cache_reachable.start)
next
  case (step s ev t)
  then show ?case
    using ext_next_steps [OF assms(1) cache_reachable_sound] cache_reachable_steps by blast
qed

end
