(* ===== verification/ExtenderRuns.thy ===== *)
theory ExtenderRuns
  imports ExtenderFacts
begin

text \<open>
  Properties of runs of the extender that need no discipline of the environment: how many
  items the workers sync for the times they wake up, and how often a pod is bound.
\<close>

section \<open>Counting along a run\<close>

fun run_sum :: "('q, 'w) deployment \<Rightarrow> ('w ext_event \<Rightarrow> ('q, 'w) extender \<Rightarrow> nat) \<Rightarrow>
    'w ext_event list \<Rightarrow> ('q, 'w) extender \<Rightarrow> nat" where
  "run_sum p f [] s = 0"
| "run_sum p f (ev # evs) s =
     f ev s + (case ext_next p ev s of None \<Rightarrow> 0 | Some t \<Rightarrow> run_sum p f evs t)"

definition ev_starts :: "'w ext_event \<Rightarrow> ('q, 'w) extender \<Rightarrow> nat" where
  "ev_starts ev s = (case ev of Workers wev \<Rightarrow> starts wev (running s) | _ \<Rightarrow> 0)"

definition ev_synced :: "('q, 'w) deployment \<Rightarrow> 'w ext_event \<Rightarrow> ('q, 'w) extender \<Rightarrow> nat" where
  "ev_synced p ev s = (case ev of Workers wev \<Rightarrow> synced (d_env p) wev (running s) | _ \<Rightarrow> 0)"

lemma serve_workers:
  assumes "serve p s r = Some (Ret (t, rsp))"
  shows "workers (running t) = workers (running s)"
  using assms by (cases rule: serve_cases) (simp_all add: put_bind_def set_controller_def)

lemma ext_next_busy:
  assumes "ext_next p ev s = Some t"
  shows "ev_synced p ev s + busy (workers (running t)) \<le> ev_starts ev s + busy (workers (running s))"
proof (cases ev)
  case (Request r)
  with assms show ?thesis
    by (cases "serve p s r") (auto simp: ev_synced_def ev_starts_def dest: serve_workers split: outcome.splits)
next
  case (Informer iev)
  with assms show ?thesis
    by (auto simp: ev_synced_def ev_starts_def set_controller_def split: outcome.splits)
next
  case (Workers wev)
  with assms worker_next_busy [of "d_shutDown p" "d_env p" wev "running s"] show ?thesis
    by (auto simp: ev_synced_def ev_starts_def)
next
  case (Outside w)
  with assms show ?thesis by (auto simp: ev_synced_def ev_starts_def set_controller_def)
qed

lemma run_busy:
  "ext_run p evs s = Some t \<Longrightarrow>
   run_sum p (ev_synced p) evs s + busy (workers (running t)) \<le> run_sum p ev_starts evs s + busy (workers (running s))"
proof (induction evs arbitrary: s)
  case (Cons ev evs)
  then obtain u where u: "ext_next p ev s = Some u" "ext_run p evs u = Some t"
    by (auto simp: bind_eq_Some_conv)
  with Cons.IH [OF u(2)] ext_next_busy [OF u(1)] show ?case by simp
qed simp

lemma busy_start [simp]: "busy (workers (running (ext_start n q w))) = 0"
  by (simp add: ext_start_def Run_def busy_def)

section \<open>Known pods along a run\<close>

lemma attempts_keep_known:
  fixes cs :: "'w clientset"
  assumes "has_key (podMaps c) v"
    and "attempts n (bindPod cs rng node name ns u) (c, w, np) = Ret (s', ok)"
  shows "has_key (podMaps (fst s')) v"
proof -
  have keep: "has_key (podMaps (fst t)) v"
    if "has_key (podMaps (fst s)) v" "bindPod cs rng node name ns u s = Ret (t, e)"
    for s t :: "'w bind_state" and e
  proof -
    obtain cc ww pp where s: "s = (cc, ww, pp)" by (metis prod_cases3)
    obtain ct wt pt where t: "t = (ct, wt, pt)" by (metis prod_cases3)
    have run: "bindPod cs rng node name ns u (cc, ww, pp) = Ret ((ct, wt, pt), e)" using that(2) by (simp add: s t)
    have known: "has_key (podMaps cc) v" using that(1) by (simp add: s)
    from run have "has_key (podMaps ct) v"
    proof (cases rule: bindPod_cases)
      case unchanged
      with known show ?thesis by simp
    next
      case (refused err ni pod b c1)
      then show ?thesis using AssumePod_podMaps [OF known, of "AddPodBindAnnotation pod b" node] by simp
    next
      case (assumed ni pod b)
      then show ?thesis using AssumePod_podMaps [OF known, of "AddPodBindAnnotation pod b" node] by simp
    next
      case (undone err ni pod b c1)
      then show ?thesis using AssumePod_podMaps [OF known, of "AddPodBindAnnotation pod b" node] by simp
    qed
    then show ?thesis by (simp add: t)
  qed
  have "if ok then has_key (podMaps (fst s')) v else has_key (podMaps (fst s')) v"
    by (rule attempts_rule [where f = "bindPod cs rng node name ns u" and s = "(c, w, np)" and n = n
          and I = "\<lambda>s. has_key (podMaps (fst s)) v"])
      (use keep assms in \<open>auto\<close>)
  then show ?thesis by simp
qed

lemma Bind_cache:
  fixes cs :: "'w clientset"
  assumes "Bind cs R rng c w node name ns u = Ret ((c', w'), e)"
  shows "c' = c \<and> e \<noteq> None \<or>
     (\<exists>c1 w1 np e1. R 3 (bindPod cs rng node name ns u) (c, w, None) = Ret ((c1, w1, np), e1) \<and>
        podMaps c' = podMaps c1 \<and> (e = None \<longrightarrow> e1 = None))"
proof (cases "Cache_GetNode c node")
  case None
  with assms show ?thesis by (auto simp: Bind_def)
next
  case (Some ni)
  with assms show ?thesis
    by (auto simp: Bind_def Let_def split: outcome.splits option.splits prod.splits)
qed

lemma Bind_keeps_known:
  fixes cs :: "'w clientset"
  assumes "retry_contract R" "has_key (podMaps c) v" "Bind cs R rng c w node name ns u = Ret ((c', w'), e)"
  shows "has_key (podMaps c') v"
  using Bind_cache [OF assms(3)] attempts_keep_known [OF assms(2) retry_Ret [OF assms(1)]] assms(2)
  by fastforce

lemma attempts_success_known:
  fixes cs :: "'w clientset"
  assumes "attempts n (bindPod cs rng node name ns u) s = Ret (s', True)"
  shows "has_key (podMaps (fst s')) u"
proof -
  have success: "has_key (podMaps (fst t)) u"
    if run: "bindPod cs rng node name ns u s = Ret (t, None)" for s t :: "'w bind_state"
  proof -
    obtain cc ww pp where s: "s = (cc, ww, pp)" by (metis prod_cases3)
    obtain ct wt pt where t: "t = (ct, wt, pt)" by (metis prod_cases3)
    from run [unfolded s t] show ?thesis
    proof (cases rule: bindPod_cases)
      case (assumed ni pod b)
      then show ?thesis using AssumePod_success_known [of cc "AddPodBindAnnotation pod b" node] by (simp add: t)
    qed simp_all
  qed
  have "if True then has_key (podMaps (fst s')) u else True"
    by (rule attempts_rule [where f = "bindPod cs rng node name ns u" and s = s and n = n and I = "\<lambda>_. True"])
      (use assms success in \<open>auto\<close>)
  then show ?thesis by simp
qed

lemma Bind_success_known:
  fixes cs :: "'w clientset"
  assumes "retry_contract R" "Bind cs R rng c w node name ns u = Ret ((c', w'), None)"
  shows "has_key (podMaps c') u"
  using Bind_cache [OF assms(2)] attempts_success_known retry_Ret [OF assms(1)] by fastforce

section \<open>Binding once\<close>

text \<open>The pod a request binds: the UID of a bind request that is answered without an error.\<close>

definition bound_uid :: "('q, 'w) deployment \<Rightarrow> ('q, 'w) extender \<Rightarrow> request \<Rightarrow> uid option" where
  "bound_uid p s r =
     (case bind_request p r of
        None \<Rightarrow> None
      | Some args \<Rightarrow> (case asked_bind p s args of Ret (_, None) \<Rightarrow> Some (ba_PodUID args) | _ \<Rightarrow> None))"

definition ev_binds :: "('q, 'w) deployment \<Rightarrow> uid \<Rightarrow> 'w ext_event \<Rightarrow> ('q, 'w) extender \<Rightarrow> nat" where
  "ev_binds p u ev s = (case ev of Request r \<Rightarrow> of_bool (bound_uid p s r = Some u) | _ \<Rightarrow> 0)"

text \<open>
  The events that can release a pod: a notification that deletes it or takes it out of the
  filter, and a worker that syncs it when it has completed.
\<close>

fun obj_uid :: "obj \<Rightarrow> uid option" where
  "obj_uid (PodObj pod) = Some (pod_UID pod)"
| "obj_uid (DeletedFinalStateUnknown obj) = obj_uid obj"
| "obj_uid _ = None"

definition sync_releases :: "('q, 'w) env \<Rightarrow> uid \<Rightarrow> ('q, 'w) Controller \<Rightarrow> string \<Rightarrow> bool" where
  "sync_releases e u s key =
     (case SplitMetaNamespaceKey e key of
        Inl _ \<Rightarrow> False
      | Inr (ns, name) \<Rightarrow>
          (case podLister_Get e (world s) ns name of
             Inl _ \<Rightarrow> False
           | Inr pod \<Rightarrow> IsCompletedPod pod \<and> pod_UID pod = u))"

fun releases :: "('q, 'w) deployment \<Rightarrow> uid \<Rightarrow> ('q, 'w) extender \<Rightarrow> 'w ext_event \<Rightarrow> bool" where
  "releases p u s (Informer (PodInformer (Deleted obj))) = (obj_uid obj = Some u)"
| "releases p u s (Informer (PodInformer (Updated old new))) = (\<not> podFilter new \<and> obj_uid old = Some u)"
| "releases p u s (Workers (WorkItem i)) =
     (case wq_Get (d_env p) (podQueue (controller s)) of
        Item key q \<Rightarrow> sync_releases (d_env p) u (controller s) key
      | _ \<Rightarrow> False)"
| "releases p u s _ = False"

fun unreleased :: "('q, 'w) deployment \<Rightarrow> uid \<Rightarrow> 'w ext_event list \<Rightarrow> ('q, 'w) extender \<Rightarrow> bool" where
  "unreleased p u [] s = True"
| "unreleased p u (ev # evs) s =
     (\<not> releases p u s ev \<and> (case ext_next p ev s of None \<Rightarrow> True | Some t \<Rightarrow> unreleased p u evs t))"

definition knows :: "('q, 'w) extender \<Rightarrow> uid \<Rightarrow> bool" where
  "knows s u \<longleftrightarrow> has_key (podMaps (get_cache s)) u"

lemma AddPod_keeps: "has_key (podMaps c) u \<Longrightarrow> has_key (podMaps (fst (Cache_AddPod c pod))) u"
  by (auto simp: Cache_AddPod_def split: option.split prod.split)

lemma DeletePod_keeps:
  "pod_UID pod \<noteq> u \<Longrightarrow> has_key (podMaps c) u \<Longrightarrow> has_key (podMaps (fst (Cache_DeletePod c pod))) u"
  by (auto simp: Cache_DeletePod_def Let_def split: option.split prod.split)

lemma node_ops_podMaps [simp]:
  "podMaps (fst (Cache_AddNode c node pods)) = podMaps c"
  "podMaps (fst (Cache_DeleteNode c node)) = podMaps c"
  "podMaps (fst (Cache_UpdateNode c old node pods)) = podMaps c"
  by (simp_all add: Cache_AddNode_def Cache_DeleteNode_def Cache_UpdateNode_def Let_def)

lemma assignPod_podMaps:
  "\<exists>c. podMaps c = podMaps (manager s) \<and>
     (manager (fst (assignPod e s pod)) = c \<or> manager (fst (assignPod e s pod)) = fst (Cache_AddPod c pod))"
proof (cases "fmlookup (pod_Annotations pod) AnnotationPodBindToBoard")
  case None
  then show ?thesis by (auto simp: assignPod_def)
next
  case ann: (Some board)
  let ?new = "\<lambda>w' node. fst (Cache_AddNode (manager s) node (fst (getActivePodInNode e w' (node_Name node))))"
  obtain w' res where get: "cs_GetNode (clientset e) (world s) (pod_NodeName pod) = (w', res)" by fastforce
  have "manager (fst (assignPod e s pod)) = fst (Cache_AddPod (manager s) pod) \<or>
      (\<exists>node. manager (fst (assignPod e s pod)) = fst (Cache_AddPod (?new w' node) pod))"
    using ann get by (cases res) (auto simp: assignPod_def Let_def case_prod_unfold split: option.split)
  then show ?thesis by (metis node_ops_podMaps(1))
qed

lemma assignPod_keeps:
  assumes "has_key (podMaps (manager s)) u"
  shows "has_key (podMaps (manager (fst (assignPod e s pod)))) u"
  using assignPod_podMaps [of s e pod] AddPod_keeps assms by fastforce

lemma syncPod_keeps:
  assumes "has_key (podMaps (manager s)) u" "\<not> sync_releases e u s key"
  shows "has_key (podMaps (manager (fst (syncPod e s key)))) u"
  using assms assignPod_keeps [OF assms(1), of e]
  by (auto simp: syncPod_def sync_releases_def releasePod_def DeletePod_keeps
      split: sum.split lister_error.split prod.split option.split) (metis fst_conv)+

lemma sync_releases_queue [simp]: "sync_releases e u (s\<lparr>podQueue := q\<rparr>) key = sync_releases e u s key"
  by (simp add: sync_releases_def split: sum.split)

lemma processNextWorkItem_keeps:
  assumes known: "has_key (podMaps (manager s)) u" and run: "processNextWorkItem e s = Some (t, continue)"
    and "case wq_Get e (podQueue s) of Item key q \<Rightarrow> \<not> sync_releases e u s key | _ \<Rightarrow> True"
  shows "has_key (podMaps (manager t)) u"
proof (cases "wq_Get e (podQueue s)")
  case (Item key q)
  then have "manager t = manager (fst (syncPod e (s\<lparr>podQueue := q\<rparr>) key))"
    using run by (auto simp: processNextWorkItem_Item [OF Item] Let_def split: prod.splits)
  moreover have "\<not> sync_releases e u (s\<lparr>podQueue := q\<rparr>) key" using assms(3) Item by simp
  ultimately show ?thesis using syncPod_keeps [of "s\<lparr>podQueue := q\<rparr>" u e key] known by simp
qed (use known run in \<open>auto simp: processNextWorkItem_def\<close>)

lemma deletePodFromCache_keeps:
  assumes "has_key (podMaps (manager s)) u" "obj_uid obj \<noteq> Some u"
  shows "has_key (podMaps (manager (deletePodFromCache s obj))) u"
  using assms
  by (auto simp: deletePodFromCache_def releasePod_def DeletePod_keeps split: obj.split)

lemma deliver_keeps:
  assumes "filtering_contract F" "deliver F e ev s = Ret t" "has_key (podMaps (manager s)) u"
    and "\<And>obj. ev = PodInformer (Deleted obj) \<Longrightarrow> obj_uid obj \<noteq> Some u"
    and "\<And>old new. ev = PodInformer (Updated old new) \<Longrightarrow> podFilter new \<or> obj_uid old \<noteq> Some u"
  shows "has_key (podMaps (manager t)) u"
proof (cases ev)
  case (PodInformer n)
  with assms deletePodFromCache_keeps [OF assms(3)] show ?thesis
    by (cases n) (auto simp del: deliver.simps simp: deliver_pod_simps pod_handlers_queue split: if_splits)
next
  case (NodeInformer n)
  have "podMaps (manager t) = podMaps (manager s)"
    using assms(2) NodeInformer
    by (cases n) (auto simp del: deliver.simps simp: addNodeToCache_def updateNodeInCache_def deleteNodeFromCache_def Let_def
        split: obj.splits if_splits)
  with assms(3) show ?thesis by simp
qed

lemma running_knows: "running t = running u \<Longrightarrow> knows t v = knows u v"
  by (simp add: knows_def get_cache_def controller_def)

lemma ext_next_keeps:
  assumes "deployment_ok p" "ext_next p ev s = Some t" "knows s u" "\<not> releases p u s ev"
  shows "knows t u"
proof (cases ev)
  case (Request r)
  show ?thesis
  proof (cases "serve p s r")
    case None
    with assms Request show ?thesis by simp
  next
    case (Some out)
    with assms(2) Request obtain rsp where "serve p s r = Some (Ret (t, rsp))" by (cases out) auto
    then show ?thesis
    proof (cases rule: serve_cases)
      case read
      then show ?thesis using running_knows assms(3) by blast
    next
      case (bind args cw e)
      have "has_key (podMaps (fst cw)) u"
        using Bind_keeps_known bind(2) assms(1,3)
        by (cases cw) (auto simp: deployment_ok_def asked_bind_def knows_def)
      then show ?thesis using running_knows [OF bind(3)] by (simp add: knows_def)
    qed
  qed
next
  case (Informer iev)
  with assms(2) obtain c where c: "deliver (d_filtering p) (d_env p) iev (controller s) = Ret c" "t = set_controller c s"
    by (auto split: outcome.splits)
  have "has_key (podMaps (manager c)) u"
    by (rule deliver_keeps [OF _ c(1)]) (use assms Informer in \<open>auto simp: deployment_ok_def knows_def get_cache_def\<close>)
  then show ?thesis by (simp add: c(2) knows_def)
next
  case (Workers wev)
  then show ?thesis
  proof (cases wev)
    case (WorkItem i)
    with Workers assms(2) obtain c continue where
      c: "processNextWorkItem (d_env p) (controller s) = Some (c, continue)" "controller t = c"
      by (auto simp: controller_def split: if_splits option.splits)
    have "has_key (podMaps (manager c)) u"
      by (rule processNextWorkItem_keeps [OF _ c(1)])
        (use Workers WorkItem assms(3,4) in \<open>auto simp: knows_def get_cache_def split: got.splits\<close>)
    then show ?thesis by (simp add: c(2) knows_def get_cache_def)
  qed (use Workers assms(2,3) in \<open>auto simp: knows_def get_cache_def controller_def split: if_splits\<close>)
next
  case (Outside w)
  with assms show ?thesis by (auto simp: knows_def get_cache_def)
qed

lemma bound_then_known:
  assumes "deployment_ok p" "ext_next p (Request r) s = Some t" "bound_uid p s r = Some u"
  shows "knows t u"
proof -
  from assms(3) obtain args cw where b: "bind_request p r = Some args" "asked_bind p s args = Ret (cw, None)"
    "ba_PodUID args = u"
    by (auto simp: bound_uid_def split: option.splits outcome.splits)
  have known: "has_key (podMaps (fst cw)) u"
    using Bind_success_known b(2,3) assms(1) by (cases cw) (auto simp: deployment_ok_def asked_bind_def)
  have route: "handle_of p (rq_Method r) (rq_Path r) \<noteq> None"
    using b(1) by (auto simp: bind_request_def handle_of_def path_defs split: if_splits)
  then obtain rsp where "serve p s r = Some (Ret (t, rsp))"
    using assms(2) by (cases "serve p s r") (auto simp: serve_def split: outcome.splits)
  then show ?thesis
  proof (cases rule: serve_cases)
    case read
    with b(1) show ?thesis by simp
  next
    case (bind args' cw' e)
    with b known running_knows [OF bind(3)] show ?thesis by (simp add: knows_def)
  qed
qed

lemma known_not_bound:
  assumes "deployment_ok p" "knows s u"
  shows "bound_uid p s r \<noteq> Some u"
proof
  assume "bound_uid p s r = Some u"
  then obtain args cw where "asked_bind p s args = Ret (cw, None)" "ba_PodUID args = u"
    by (auto simp: bound_uid_def split: option.splits outcome.splits)
  with Bind_known assms show False
    by (cases cw) (force simp: deployment_ok_def asked_bind_def knows_def)
qed

lemma binds_known:
  assumes "deployment_ok p"
  shows "knows s u \<Longrightarrow> unreleased p u evs s \<Longrightarrow> run_sum p (ev_binds p u) evs s = 0"
proof (induction evs arbitrary: s)
  case (Cons ev evs)
  have "ev_binds p u ev s = 0"
    using known_not_bound [OF assms Cons.prems(1)] by (simp add: ev_binds_def split: ext_event.split)
  moreover have "run_sum p (ev_binds p u) evs t = 0" if "ext_next p ev s = Some t" for t
    using Cons.IH [of t] Cons.prems ext_next_keeps [OF assms that Cons.prems(1)] that by simp
  ultimately show ?case by (simp split: option.split)
qed simp

lemma binds_at_most_once:
  assumes "deployment_ok p"
  shows "unreleased p u evs s \<Longrightarrow> run_sum p (ev_binds p u) evs s \<le> 1"
proof (induction evs arbitrary: s)
  case (Cons ev evs)
  show ?case
  proof (cases "ext_next p ev s")
    case None
    then show ?thesis by (simp add: ev_binds_def split: ext_event.split)
  next
    case (Some t)
    with Cons.prems have un: "unreleased p u evs t" by simp
    show ?thesis
    proof (cases "ev_binds p u ev s = 0")
      case True
      with Some Cons.IH [OF un] show ?thesis by simp
    next
      case False
      then obtain r where "ev = Request r" "bound_uid p s r = Some u" "ev_binds p u ev s = 1"
        by (auto simp: ev_binds_def split: ext_event.splits if_splits)
      with Some bound_then_known [OF assms] have "knows t u" by blast
      with binds_known [OF assms _ un] Some \<open>ev_binds p u ev s = 1\<close> show ?thesis by simp
    qed
  qed
qed simp

section \<open>A pod the cache learns late\<close>

text \<open>
  A pod that was already running when the extender started reaches the cache through the
  work queue. If its orins were given to another pod meanwhile, the sync still succeeds.
\<close>

definition late_pod :: "('q, 'w) deployment \<Rightarrow> ('q, 'w) extender \<Rightarrow> Pod \<Rightarrow> bool" where
  "late_pod p s q \<longleftrightarrow>
     (case wq_Get (d_env p) (podQueue (controller s)) of
        Item key rest \<Rightarrow>
          (case SplitMetaNamespaceKey (d_env p) key of
             Inl _ \<Rightarrow> False
           | Inr (ns, name) \<Rightarrow> podLister_Get (d_env p) (world (controller s)) ns name = Inr q)
      | _ \<Rightarrow> False) \<and>
     \<not> IsCompletedPod q \<and> pod_NodeName q \<noteq> [] \<and> \<not> knows s (pod_UID q)"

lemma addPod_on_held:
  assumes sound: "node_sound ni" and fresh: "\<not> has_key (Pods ni) (pod_UID q)" and b: "bind_board q = Some b"
    and fits: "fits_board (Total ni) (BuildRequestOrinSet q) b"
  shows "\<exists>ni'. NodeInfo_addPod ni q = (ni', None) \<and> Pods ni' = fmupd (pod_UID q) q (Pods ni)"
proof -
  have "covers (Total ni) (requested_after ni q b)"
    using sound fits
    by (auto simp: node_sound_def ni_inv_iff covers_slots slots_requested_after BoardSet_requested_after fits_board_slots
        simp del: slots_iff)
  then show ?thesis by (simp add: addPod_fresh [OF b fresh] addPod_request_eq)
qed

lemma late_sync:
  assumes late: "late_pod p s q" and sound: "cache_sound (get_cache s)"
    and w: "i < length (workers (running s))" "workers (running s) ! i = Working"
    and ni: "Cache_GetNode (get_cache s) (pod_NodeName q) = Some ni" "\<not> has_key (Pods ni) (pod_UID q)"
    and b: "bind_board q = Some b" "fits_board (Total ni) (BuildRequestOrinSet q) b"
  shows "\<exists>t ni'. ext_next p (Workers (WorkItem i)) s = Some t \<and> ev_synced p (Workers (WorkItem i)) s = 1 \<and>
     Cache_GetNode (get_cache t) (pod_NodeName q) = Some ni' \<and> Pods ni' = fmupd (pod_UID q) q (Pods ni)"
proof -
  let ?e = "d_env p" and ?c = "controller s"
  obtain key rest ns name where k: "wq_Get ?e (podQueue ?c) = Item key rest"
    "SplitMetaNamespaceKey ?e key = Inr (ns, name)" "podLister_Get ?e (world ?c) ns name = Inr q"
    using late by (auto simp: late_pod_def split: got.splits sum.splits)
  have q: "\<not> IsCompletedPod q" "pod_NodeName q \<noteq> []" "\<not> has_key (podMaps (manager ?c)) (pod_UID q)"
    using late by (auto simp: late_pod_def knows_def get_cache_def)
  obtain board where ann: "fmlookup (pod_Annotations q) AnnotationPodBindToBoard = Some board"
    using b(1) by (auto simp: bind_board_Some)
  have "node_sound ni" using cache_soundD [OF sound] ni(1) by (simp add: Cache_GetNode_def)
  from addPod_on_held [OF this ni(2) b] obtain ni' where
    ni': "NodeInfo_addPod ni q = (ni', None)" "Pods ni' = fmupd (pod_UID q) q (Pods ni)" by blast
  have node: "Cache_GetNode (manager ?c) (pod_NodeName q) = Some ni" using ni(1) by (simp add: get_cache_def)
  let ?m = "(set_node (manager ?c) (pod_NodeName q) ni')\<lparr>podMaps := fmupd (pod_UID q) q (podMaps (manager ?c))\<rparr>"
  have "Cache_AddPod (manager ?c) q = (?m, None)"
    using q ann node ni'(1) by (simp add: Cache_AddPod_def Cache_GetNode_def)
  then have "syncPod ?e (?c\<lparr>podQueue := rest\<rparr>) key = (?c\<lparr>podQueue := rest, manager := ?m\<rparr>, True, None)"
    using k(2,3) q ann node by (simp add: syncPod_def assignPod_def Let_def)
  note sync = this
  then have run: "processNextWorkItem ?e ?c =
      Some (?c\<lparr>podQueue := wq_Done ?e key (wq_Forget ?e key rest), manager := ?m\<rparr>, False)"
    by (simp add: processNextWorkItem_Item [OF k(1)])
  then show ?thesis
    using w ni'(2) k(1) sync
    by (auto simp: controller_def get_cache_def ev_synced_def synced_def Cache_GetNode_def)
qed

end
