(* ===== verification/ClusterSample.thy ===== *)
theory ClusterSample
  imports Samples ExtenderRuns
begin

text \<open>
  A small cluster for the witnesses of the extender's properties: the world holds the pods
  the lister shows and the pods the API server has; the codec of a bind request is a line of
  four fields; the node is the one of Samples.
\<close>

type_synonym cluster = "Pod list \<times> Pod list"

definition k_find :: "string \<Rightarrow> string \<Rightarrow> Pod list \<Rightarrow> Pod option" where
  "k_find ns n = find (\<lambda>p. pod_Namespace p = ns \<and> pod_Name p = n)"

definition k_put :: "Pod \<Rightarrow> Pod list \<Rightarrow> Pod list" where
  "k_put p = map (\<lambda>q. if pod_UID q = pod_UID p then p else q)"

definition k_client :: "cluster clientset" where
  "k_client =
     \<lparr>cs_GetPod = \<lambda>w ns n. (w, case k_find ns n (snd w) of None \<Rightarrow> Inl ''not found'' | Some p \<Rightarrow> Inr p),
      cs_UpdatePod = \<lambda>w ns p. ((fst w, k_put p (snd w)), None),
      cs_BindPod = \<lambda>w ns n u node. ((fst w, map (\<lambda>q. if pod_UID q = u then q\<lparr>pod_NodeName := node\<rparr> else q) (snd w)), None),
      cs_GetNode = \<lambda>w n. (w, Inr s_node)\<rparr>"

definition k_env :: "(string list, cluster) env" where
  "k_env =
     \<lparr>wq_Get = \<lambda>q. case q of [] \<Rightarrow> got.Blocked | k # ks \<Rightarrow> Item k ks,
      wq_Add = \<lambda>k q. if k \<in> set q then q else q @ [k], wq_Done = \<lambda>_ q. q, wq_Forget = \<lambda>_ q. q,
      wq_AddRateLimited = \<lambda>k q. q @ [k],
      KeyFunc = \<lambda>p. Inr (pod_Namespace p @ ''/'' @ pod_Name p),
      SplitMetaNamespaceKey = \<lambda>k. (case SplitChar k CHR ''/'' of [ns, n] \<Rightarrow> Inr (ns, n) | _ \<Rightarrow> Inl k),
      podLister_Get = \<lambda>w ns n. (case k_find ns n (fst w) of None \<Rightarrow> Inl IsNotFound | Some p \<Rightarrow> Inr p),
      podLister_List = \<lambda>w. Inr (fst w),
      clientset = k_client\<rparr>"

definition k_codec :: codec where
  "k_codec =
     \<lparr>decodeArgs = (\<lambda>t. Inl t),
      decodeBinding = (\<lambda>t. case SplitChar t CHR '','' of
          [n, ns, u, node] \<Rightarrow> Inr \<lparr>ba_PodName = n, ba_PodNamespace = ns, ba_PodUID = u, ba_Node = node\<rparr>
        | _ \<Rightarrow> Inl ''bad request''),
      marshalFilter = (\<lambda>r. Inr (fr_Error r)), marshalPriorities = (\<lambda>_. Inr []), marshalBinding = Inr\<rparr>"

definition k_filtering :: "'s filtering" where
  "k_filtering f h =
     \<lparr>OnAdd = \<lambda>new s. if f new then OnAdd h new s else Ret s,
      OnUpdate = \<lambda>old new s. if f new \<and> f old then OnUpdate h old new s
        else if f new then OnAdd h new s else if f old then OnDelete h old s else Ret s,
      OnDelete = \<lambda>old s. if f old then OnDelete h old s else Ret s\<rparr>"

definition k_deploy :: "(string list, cluster) deployment" where
  "k_deploy =
     \<lparr>d_extension = \<lparr>x_codec = k_codec, x_client = k_client, x_retry = s_retry, x_rng = sorted_range,
        x_ord = (\<lambda>n. [0..<n]), x_errText = (\<lambda>_. ''error'')\<rparr>,
      d_env = k_env, d_filtering = k_filtering, d_shutDown = (\<lambda>q. q), d_version = ''v1''\<rparr>"

lemma k_deploy_ok: "deployment_ok k_deploy"
  by (simp add: deployment_ok_def k_deploy_def s_retry_contract range_order_sorted filtering_contract_def k_filtering_def)

text \<open>A pod with the extension's resources: one running on board 1, one to be scheduled.\<close>

definition k_pod :: "uid \<Rightarrow> string \<Rightarrow> Pod" where
  "k_pod u node = \<lparr>pod_Name = u, pod_Namespace = ''d'', pod_UID = u, pod_ResourceVersion = ''1'',
     pod_Annotations = fmempty, pod_Labels = fmempty, pod_NodeName = node,
     pod_Containers = [\<lparr>c_Name = ''c'', c_Limits =
        fmap_of_list [(ExtendResouceTypeBoard, 1), (ExtendResouceTypeOrinPrefix @ ''1'', 1)]\<rparr>],
     pod_Phase = PodRunning, pod_DeletionTimestamp = None\<rparr>"

definition k_old :: Pod where "k_old = AddPodBindAnnotation (k_pod ''u1'' ''n1'') 1"
definition k_new :: Pod where "k_new = k_pod ''u3'' []"

definition k_bind :: request where
  "k_bind = \<lparr>rq_Method = ''POST'', rq_Path = bindPath, rq_Body = Some ''u3,d,u3,n1''\<rparr>"

text \<open>
  A restart: the node is delivered before the pods are listed, the running pod is queued, a
  new pod is bound, and only then does a worker wake up.
\<close>

definition k_restart :: "cluster ext_event list" where
  "k_restart =
     [Informer (NodeInformer (Added (NodeObj s_node))),
      Outside ([k_old], [k_old, k_new]),
      Informer (PodInformer (Added (PodObj k_old))),
      Request k_bind,
      Workers (Tick 0)]"

definition k_start :: "(string list, cluster) extender" where
  "k_start = ext_start 4 [] ([], [k_old, k_new])"

definition k_before :: "(string list, cluster) extender" where
  "k_before = the (ext_run k_deploy k_restart k_start)"

lemma k_run: "ext_run k_deploy k_restart k_start = Some k_before"
proof -
  have "ext_run k_deploy k_restart k_start \<noteq> None" by code_simp
  then show ?thesis by (auto simp: k_before_def)
qed

section \<open>The cluster keeps the environment's discipline\<close>

lemma k_reads: "pod_reads k_client ns name w v \<Longrightarrow> v = w"
  by (induction rule: pod_reads.induct) (simp_all add: k_client_def)

definition k_bind_ok :: "scheduleCache \<Rightarrow> cluster \<Rightarrow> ExtenderBindingArgs \<Rightarrow> bool" where
  "k_bind_ok c w args \<longleftrightarrow>
     (case Cache_GetNode c (ba_Node args) of None \<Rightarrow> True | Some ni \<Rightarrow> \<not> has_key (Pods ni) (ba_PodUID args)) \<and>
     (case k_find (ba_PodNamespace args) (ba_PodName args) (snd w) of
        None \<Rightarrow> True
      | Some pod \<Rightarrow> \<not> has_key (pod_Annotations pod) AnnotationPodBindToBoard)"

fun k_ok :: "(string list, cluster) extender \<Rightarrow> cluster ext_event \<Rightarrow> bool" where
  "k_ok s (Request r) =
     (case bind_request k_deploy r of None \<Rightarrow> True | Some args \<Rightarrow> k_bind_ok (get_cache s) (world (controller s)) args)"
| "k_ok s (Informer ev) = notified_ok k_env (controller s) ev"
| "k_ok s (Workers (Tick i)) = True"
| "k_ok s (Workers _) = False"
| "k_ok s (Outside w) = True"

fun k_ok_run :: "cluster ext_event list \<Rightarrow> (string list, cluster) extender \<Rightarrow> bool" where
  "k_ok_run [] s = True"
| "k_ok_run (ev # evs) s =
     (k_ok s ev \<and> (case ext_next k_deploy ev s of None \<Rightarrow> True | Some t \<Rightarrow> k_ok_run evs t))"

lemma k_bind_ok_bind_ok: "k_bind_ok c w args \<Longrightarrow> bind_ok k_client c w args"
  by (auto simp: bind_ok_def k_bind_ok_def not_on_node_def k_client_def has_key_def
      dest!: k_reads [unfolded k_client_def] split: option.splits)

lemma k_ok_ext_ok:
  assumes "k_ok s ev"
  shows "ext_ok k_deploy s ev"
proof (cases ev)
  case (Request r)
  then show ?thesis
    using assms k_bind_ok_bind_ok by (auto simp: request_ok_def k_deploy_def split: option.splits)
next
  case (Workers wev)
  then show ?thesis using assms by (cases wev) simp_all
qed (use assms in \<open>simp_all add: k_deploy_def\<close>)

lemma k_reach:
  "k_ok_run evs s \<Longrightarrow> ext_reachable k_deploy n s \<Longrightarrow> ext_run k_deploy evs s = Some t \<Longrightarrow> ext_reachable k_deploy n t"
proof (induction evs arbitrary: s)
  case (Cons ev evs)
  then obtain s1 where "ext_next k_deploy ev s = Some s1" by (cases "ext_next k_deploy ev s") simp_all
  with Cons show ?case by (auto intro: ext_reachable.step k_ok_ext_ok)
qed simp

lemma k_before_reachable: "ext_reachable k_deploy 4 k_before"
proof -
  have "k_ok_run k_restart k_start" by code_simp
  then show ?thesis
    using k_reach [OF _ _ k_run] ext_reachable.start [of k_deploy 4 "[]" "([], [k_old, k_new])"]
    by (simp add: k_start_def)
qed

section \<open>After the restart\<close>

text \<open>The worker is about to sync the running pod, whose orin the new pod holds.\<close>

definition k_late :: "(string list, cluster) extender \<Rightarrow> bool" where
  "k_late s \<longleftrightarrow> late_pod k_deploy s k_old \<and> workers (running s) \<noteq> [] \<and> workers (running s) ! 0 = Working \<and>
     (case Cache_GetNode (get_cache s) ''n1'' of
        None \<Rightarrow> False
      | Some ni \<Rightarrow> \<not> has_key (Pods ni) ''u1'' \<and> fits_board (Total ni) {|1|} 1 \<and>
          (case fmlookup (Pods ni) ''u3'' of
             None \<Rightarrow> False
           | Some r \<Rightarrow> bind_board r = Some 1 \<and> BuildRequestOrinSet r = {|1|}))"

lemma k_before_late: "k_late k_before"
  by code_simp

lemma k_old_facts: "bind_board k_old = Some 1" "BuildRequestOrinSet k_old = {|1|}" "pod_UID k_old = ''u1''"
  "pod_NodeName k_old = ''n1''"
  by code_simp+

end
