(* ===== verification/Clients.thy ===== *)
theory Clients
  imports K8sObjects
begin

text \<open>
  \<open>BuildClientSet\<close>, which both commands have: from the configuration inside the cluster or from
  a file to a typed client. What client-go does with a configuration is a field of \<open>kube\<close>.
  \<open>klog.Fatal\<close> ends the process with a message: the result \<open>Fatal\<close>.
\<close>

datatype 'a started = Fatal string | Go 'a

record ('cfg, 'cs) kube =
  InClusterConfig :: "string + 'cfg"
  BuildConfigFromFlags :: "string \<Rightarrow> string \<Rightarrow> string + 'cfg"
  NewForConfig :: "'cfg \<Rightarrow> string + 'cs"

definition new_clientset :: "('cfg, 'cs) kube \<Rightarrow> 'cfg \<Rightarrow> (string + 'cs) started" where
  "new_clientset k restconfig =
     (case NewForConfig k restconfig of
        Inl err \<Rightarrow> Fatal (''Failed to init clientset due to '' @ err)
      | Inr cs \<Rightarrow> Go (Inr cs))"

text \<open>The one of \<open>cmd/scheduler/scheduler.go\<close>.\<close>

definition BuildClientSet :: "('cfg, 'cs) kube \<Rightarrow> string \<Rightarrow> (string + 'cs) started" where
  "BuildClientSet k kubeconfigPath =
     (if kubeconfigPath = []
      then (case InClusterConfig k of Inl err \<Rightarrow> Go (Inl err) | Inr restconfig \<Rightarrow> new_clientset k restconfig)
      else (case BuildConfigFromFlags k [] kubeconfigPath of
              Inl err \<Rightarrow> Go (Inl err)
            | Inr restconfig \<Rightarrow> new_clientset k restconfig))"

text \<open>The one of \<open>cmd/deviceplugin/deviceplugin.go\<close>.\<close>

definition Plugin_BuildClientSet :: "('cfg, 'cs) kube \<Rightarrow> string \<Rightarrow> (string + 'cs) started" where
  "Plugin_BuildClientSet k kubeconfigPath =
     (case (if kubeconfigPath = [] then InClusterConfig k else BuildConfigFromFlags k [] kubeconfigPath) of
        Inl err \<Rightarrow> Go (Inl err)
      | Inr restconfig \<Rightarrow>
          (case NewForConfig k restconfig of
             Inl err \<Rightarrow> Fatal (''Failed to init clientset due to '' @ err)
           | Inr cs \<Rightarrow> Go (Inr cs)))"

lemma BuildClientSet_same: "Plugin_BuildClientSet = BuildClientSet"
  by (intro ext) (simp add: Plugin_BuildClientSet_def BuildClientSet_def new_clientset_def split: sum.split)

end
