(* ===== verification/Startup.thy ===== *)
theory Startup
  imports ExtenderRuns Clients
begin

text \<open>
  \<open>cmd/scheduler/scheduler.go\<close>: how the extender comes up. The command line parser, the
  client configuration, the router, the two cache waits and \<open>ListenAndServe\<close> are code
  outside the repository and fields of \<open>platform\<close>. \<open>klog.Fatal\<close> ends the process with a message;
  \<open>ListenAndServe\<close> either fails with an error or serves for ever.
\<close>

record flags =
  kubeconfig :: string
  port :: int
  threadness :: int

text \<open>The variables after \<open>InitFlag\<close>: their defaults, which \<open>flag.Parse\<close> then overwrites.\<close>

definition InitFlag :: flags where
  "InitFlag = \<lparr>kubeconfig = [], port = 80, threadness = 4\<rparr>"

section \<open>Signals\<close>

datatype signal = Interrupt | SIGTERM | SIGQUIT | OtherSignal nat

definition shutdownSignals :: "signal list" where
  "shutdownSignals = [Interrupt, SIGTERM]"

text \<open>
  The goroutine of \<open>SetupSignalHandler\<close>: the first shut-down signal closes the stop channel,
  the second ends the process with code 1. The call itself closes \<open>onlyOneSignalHandler\<close>, so a
  second call panics.
\<close>

datatype handler = Listening | StopClosed | Exited nat

definition SetupSignalHandler :: "bool \<Rightarrow> (bool \<times> handler) outcome" where
  "SetupSignalHandler onlyOneClosed = (if onlyOneClosed then Panic else Ret (True, Listening))"

fun on_signal :: "signal \<Rightarrow> handler \<Rightarrow> handler" where
  "on_signal sig Listening = (if sig \<in> set shutdownSignals then StopClosed else Listening)"
| "on_signal sig StopClosed = (if sig \<in> set shutdownSignals then Exited 1 else StopClosed)"
| "on_signal sig (Exited code) = Exited code"

section \<open>main\<close>

record ('cfg, 'q, 'w, 'r) platform =
  parse_flags :: "flags \<Rightarrow> flags"
  kube_config :: "('cfg, 'w clientset) kube"
  http_router :: "(('q, 'w) extender handle, 'r) router"
  deploy :: "'w clientset \<Rightarrow> ('q, 'w) deployment"
  wait_nodes :: "('q, 'w) Controller \<Rightarrow> ('q, 'w) Controller \<times> bool"
  wait_pods :: "('q, 'w) Controller \<Rightarrow> ('q, 'w) Controller \<times> bool"
  ListenAndServe :: "int \<Rightarrow> string option"

datatype ('s, 'r) main_result = MainFatal string | MainPanic | Serving 'r 's

definition extender_router ::
  "(('q, 'w) extender handle, 'r) router \<Rightarrow> ('q, 'w) deployment \<Rightarrow> 'r outcome" where
  "extender_router R p =
     build_router R log_emit (d_version p)
       (predicate_handle (d_extension p) get_cache) (prioritize_handle (d_extension p) get_cache)
       (bind_handle (d_extension p) get_bind put_bind)"

definition scheduler_main ::
  "('cfg, 'q, 'w, 'r) platform \<Rightarrow> 'q \<Rightarrow> 'w \<Rightarrow> (('q, 'w) extender, 'r) main_result" where
  "scheduler_main pf queue w =
     (let f = parse_flags pf InitFlag
      in case BuildClientSet (kube_config pf) (kubeconfig f) of
           Fatal msg \<Rightarrow> MainFatal msg
         | Go (Inl err) \<Rightarrow> MainFatal (''failed to init kube client: '' @ err)
         | Go (Inr cs) \<Rightarrow>
             (case extender_router (http_router pf) (deploy pf cs) of
                Panic \<Rightarrow> MainPanic
              | Ret router \<Rightarrow>
                  (case SetupSignalHandler False of
                     Panic \<Rightarrow> MainPanic
                   | Ret _ \<Rightarrow>
                       (case NewController (wait_nodes pf) (wait_pods pf) queue w NewScheduleCache of
                          (c, Some err) \<Rightarrow> MainFatal err
                        | (c, None) \<Rightarrow>
                            (let s = \<lparr>running = Run (nat (threadness f)) c, logged = []\<rparr>
                             in case ListenAndServe pf (port f) of
                                  Some err \<Rightarrow> MainFatal err
                                | None \<Rightarrow> Serving router s)))))"

lemma extender_router_lookup:
  assumes "router_contract R"
  shows "\<exists>r. extender_router R p = Ret r \<and>
     (\<forall>m path. rt_Lookup R r m path = map_option (\<lambda>h. DebugLogging log_emit h path) (handle_of p m path))"
  using build_router_routes [OF assms] by (auto simp: extender_router_def handle_of_def)

text \<open>What a request through the router does is \<open>serve\<close>.\<close>

lemma router_serves:
  assumes "router_contract R" "extender_router R p = Ret r"
  shows "map_option (\<lambda>h. h s req) (rt_Lookup R r (rq_Method req) (rq_Path req)) = serve p s req"
proof -
  have "rt_Lookup R r (rq_Method req) (rq_Path req) =
      map_option (\<lambda>h. DebugLogging log_emit h (rq_Path req)) (handle_of p (rq_Method req) (rq_Path req))"
    using extender_router_lookup [OF assms(1), of p] assms(2) by auto
  then show ?thesis by (simp add: serve_def option.map_comp comp_def)
qed

lemma scheduler_main_cases:
  assumes "router_contract (http_router pf)"
  shows "scheduler_main pf queue w =
     (let f = parse_flags pf InitFlag
      in case BuildClientSet (kube_config pf) (kubeconfig f) of
           Fatal msg \<Rightarrow> MainFatal msg
         | Go (Inl err) \<Rightarrow> MainFatal (''failed to init kube client: '' @ err)
         | Go (Inr cs) \<Rightarrow>
             (case NewController (wait_nodes pf) (wait_pods pf) queue w NewScheduleCache of
                (c, Some err) \<Rightarrow> MainFatal err
              | (c, None) \<Rightarrow>
                  (case ListenAndServe pf (port f) of
                     Some err \<Rightarrow> MainFatal err
                   | None \<Rightarrow>
                       (case extender_router (http_router pf) (deploy pf cs) of
                          Panic \<Rightarrow> MainPanic
                        | Ret r \<Rightarrow> Serving r \<lparr>running = Run (nat (threadness f)) c, logged = []\<rparr>))))"
proof -
  have "extender_router (http_router pf) (deploy pf cs) \<noteq> Panic" for cs
    using extender_router_lookup [OF assms, of "deploy pf cs"] by auto
  then show ?thesis
    by (auto simp: scheduler_main_def Let_def SetupSignalHandler_def
        split: started.split sum.split outcome.split prod.split option.split)
qed

text \<open>
  What happens while the caches sync are events of the machine: notifications and changes of
  the world, before any worker or request.
\<close>

definition warm_up :: "'w ext_event \<Rightarrow> bool" where
  "warm_up ev \<longleftrightarrow> (case ev of Informer _ \<Rightarrow> True | Outside _ \<Rightarrow> True | _ \<Rightarrow> False)"

lemma warm_up_simps [simp]: "warm_up (Informer iev)" "warm_up (Outside w)"
  by (simp_all add: warm_up_def)

lemma set_controller_twice [simp]: "set_controller c (set_controller d s) = set_controller c s"
  by (simp add: set_controller_def)

lemma delivered_run:
  assumes "delivered (d_filtering p) (d_env p) a b"
  shows "\<exists>evs. list_all warm_up evs \<and> ext_run p evs (set_controller a s) = Some (set_controller b s)"
  using assms
proof induction
  case (none s0)
  show ?case by (rule exI [of _ "[]"]) simp
next
  case (one a t ev u)
  then obtain evs where evs: "list_all warm_up evs" "ext_run p evs (set_controller a s) = Some (set_controller t s)" by blast
  have "ext_run p (evs @ [Informer ev]) (set_controller a s) = Some (set_controller u s)"
    using one.hyps(2) evs(2) by (simp add: ext_run_append)
  with evs(1) show ?case by (intro exI [of _ "evs @ [Informer ev]"]) simp
next
  case (changed a t w)
  then obtain evs where evs: "list_all warm_up evs" "ext_run p evs (set_controller a s) = Some (set_controller t s)" by blast
  have "ext_run p (evs @ [Outside w]) (set_controller a s) = Some (set_controller (t\<lparr>world := w\<rparr>) s)"
    using evs(2) by (simp add: ext_run_append)
  with evs(1) show ?case by (intro exI [of _ "evs @ [Outside w]"]) simp
qed

section \<open>Shutting down\<close>

text \<open>
  What the signal changes: the stop channel is closed, later the queue is shut down and the
  workers end. The server is not told, so a request is answered as before.
\<close>

definition stopped :: "('q, 'w) extender \<Rightarrow> ('q, 'w) extender" where
  "stopped s = s\<lparr>running := (running s)\<lparr>stopCh := True\<rparr>\<rparr>"

lemma CloseStop_stopped: "\<not> stopCh (running s) \<Longrightarrow> ext_next p (Workers CloseStop) s = Some (stopped s)"
  by (simp add: stopped_def)

lemma stopped_simps [simp]:
  "get_cache (stopped s) = get_cache s" "get_bind (stopped s) = get_bind s"
  "world (controller (stopped s)) = world (controller s)"
  "log_emit l (stopped s) = stopped (log_emit l s)"
  "put_bind cw (stopped s) = stopped (put_bind cw s)"
  by (simp_all add: stopped_def get_cache_def get_bind_def controller_def log_emit_def put_bind_def set_controller_def)

lemma handle_stopped:
  assumes "handle_of p m path = Some h"
  shows "h (stopped s) r =
     (case h s r of Panic \<Rightarrow> Panic | Ret (t, rsp) \<Rightarrow> Ret (stopped t, rsp))"
  using assms
proof (cases rule: dispatch_cases)
  case 1
  then show ?thesis by (simp add: VersionRoute_def)
next
  case 2
  then show ?thesis by (simp add: predicate_handle_def split: outcome.split)
next
  case 3
  then show ?thesis by (simp add: prioritize_handle_def split: outcome.split)
next
  case 4
  then show ?thesis by (auto simp: bind_handle_def split: outcome.split)
qed

lemma serve_stopped:
  "serve p (stopped s) r =
     (case serve p s r of
        None \<Rightarrow> None
      | Some Panic \<Rightarrow> Some Panic
      | Some (Ret (t, rsp)) \<Rightarrow> Some (Ret (stopped t, rsp)))"
proof (cases "handle_of p (rq_Method r) (rq_Path r)")
  case None
  then show ?thesis by (simp add: serve_def)
next
  case (Some h)
  then show ?thesis
    by (auto simp: serve_def DebugLogging_def handle_stopped [OF Some] split: outcome.split)
qed

end
