(* ===== verification/PluginServer.thy ===== *)
theory PluginServer
  imports Plugin PluginRun
begin

text \<open>
  \<open>Serve\<close>, \<open>Wait\<close>, \<open>Register\<close>, \<open>NewFSWatcher\<close> and \<open>Run\<close> of \<open>pkg/device/plugin/plugin.go\<close>
  over the operating system, and the start of every server by \<open>OrinDevicePlugin.Run\<close> of
  \<open>orin.go\<close>. The system calls, gRPC and fsnotify are fields of \<open>system\<close> over a world \<open>'o\<close>, the
  kubelet's constants among them.

  Here the channels are real: \<open>Run\<close> makes a new \<open>stoChan\<close> in each round and closing a channel
  twice panics. The two goroutines each \<open>Serve\<close> leaves behind take their own steps, at any time
  between those of \<open>Run\<close>: one is in gRPC's \<open>Serve\<close> until it returns and panics on an error, the
  other waits for the channel, stops the server gracefully and closes the listener. A panic in
  either, or in \<open>Run\<close>, ends the process. PluginRun's machine, which only counts, is an
  abstraction of this one, in which the goroutines' steps are not seen.
\<close>

record RegisterRequest =
  rr_Version :: string
  rr_Endpoint :: string
  rr_ResourceName :: string
  rr_PreStartRequired :: bool

record fs_notification =
  ev_Name :: string
  ev_Create :: bool

record ('o, 'conn) system =
  DevicePluginPath :: string
  KubeletSocket :: string
  ApiVersion :: string
  os_Remove :: "'o \<Rightarrow> string \<Rightarrow> 'o"
  net_Listen :: "'o \<Rightarrow> string \<Rightarrow> 'o \<times> (string + nat)"
  grpc_Dial :: "'o \<Rightarrow> string \<Rightarrow> nat \<Rightarrow> 'o \<times> (string + 'conn)"
  conn_Close :: "'o \<Rightarrow> 'conn \<Rightarrow> 'o \<times> string option"
  rpc_Register :: "'o \<Rightarrow> 'conn \<Rightarrow> RegisterRequest \<Rightarrow> 'o \<times> string option"
  NewWatcher :: "'o \<Rightarrow> 'o \<times> (string + nat)"
  watcher_Add :: "'o \<Rightarrow> nat \<Rightarrow> string \<Rightarrow> 'o \<times> string option"
  watcher_Close :: "'o \<Rightarrow> nat \<Rightarrow> 'o"

section \<open>The calls of one round\<close>

definition socket_path :: "('o, 'conn) system \<Rightarrow> DevicePluginServer \<Rightarrow> string" where
  "socket_path sys p = PathJoin [DevicePluginPath sys, Endpoint p]"

text \<open>
  A server with its listener, the channel it was given, whether gRPC's \<open>Serve\<close> has returned, and
  how far the goroutine that stops it is: before \<open>GracefulStop\<close>, in it (the listener accepts
  nothing any more, pending calls end), or done, with the listener closed.
\<close>

datatype stopper = AwaitStop | Stopping | ListenerClosed

record server =
  sv_listener :: nat
  sv_chan :: nat
  sv_exited :: bool
  sv_stopper :: stopper

definition Serve :: "('o, 'conn) system \<Rightarrow> DevicePluginServer \<Rightarrow> nat \<Rightarrow> 'o \<Rightarrow> ('o \<times> server) outcome" where
  "Serve sys p stop w =
     (let w1 = os_Remove sys w (socket_path sys p)
      in case net_Listen sys w1 (socket_path sys p) of
           (w2, Inl err) \<Rightarrow> Panic
         | (w2, Inr listener) \<Rightarrow>
             Ret (w2, \<lparr>sv_listener = listener, sv_chan = stop, sv_exited = False, sv_stopper = AwaitStop\<rparr>))"

text \<open>
  The first goroutine: gRPC's \<open>Serve\<close> returns with or without an error. That it returns without
  one only after \<open>GracefulStop\<close> is gRPC's documented behaviour.
\<close>

definition serve_goroutine :: "string option \<Rightarrow> server \<Rightarrow> server outcome option" where
  "serve_goroutine answer v =
     (if sv_exited v \<or> answer = None \<and> sv_stopper v = AwaitStop then None
      else Some (case answer of Some err \<Rightarrow> Panic | None \<Rightarrow> Ret (v\<lparr>sv_exited := True\<rparr>)))"

text \<open>The second: \<open><-stop\<close> and the call of \<open>GracefulStop\<close>, then its return and \<open>listener.Close()\<close>.\<close>

definition stop_goroutine :: "nat list \<Rightarrow> server \<Rightarrow> server option" where
  "stop_goroutine closed_chans v =
     (case sv_stopper v of
        AwaitStop \<Rightarrow> if sv_chan v \<in> set closed_chans then Some (v\<lparr>sv_stopper := Stopping\<rparr>) else None
      | Stopping \<Rightarrow> Some (v\<lparr>sv_stopper := ListenerClosed\<rparr>)
      | ListenerClosed \<Rightarrow> None)"

text \<open>The time to dial: five seconds here, one for the kubelet.\<close>

definition Wait :: "('o, 'conn) system \<Rightarrow> DevicePluginServer \<Rightarrow> 'o \<Rightarrow> 'o \<times> string option" where
  "Wait sys p w =
     (case grpc_Dial sys w (socket_path sys p) 5 of
        (w1, Inl err) \<Rightarrow> (w1, Some err)
      | (w1, Inr conn) \<Rightarrow> conn_Close sys w1 conn)"

definition register_request :: "('o, 'conn) system \<Rightarrow> DevicePluginServer \<Rightarrow> RegisterRequest" where
  "register_request sys p =
     \<lparr>rr_Version = ApiVersion sys, rr_Endpoint = Endpoint p, rr_ResourceName = ps_ResourceName p, rr_PreStartRequired = True\<rparr>"

definition Register :: "('o, 'conn) system \<Rightarrow> DevicePluginServer \<Rightarrow> 'o \<Rightarrow> 'o \<times> string option" where
  "Register sys p w =
     (case grpc_Dial sys w (KubeletSocket sys) 1 of
        (w1, Inl err) \<Rightarrow> (w1, Some err)
      | (w1, Inr conn) \<Rightarrow>
          (case rpc_Register sys w1 conn (register_request sys p) of
             (w2, err) \<Rightarrow> (fst (conn_Close sys w2 conn), err)))"

fun add_files :: "('o, 'conn) system \<Rightarrow> nat \<Rightarrow> string list \<Rightarrow> 'o \<Rightarrow> 'o \<times> string option" where
  "add_files sys watcher [] w = (w, None)"
| "add_files sys watcher (f # fs) w =
     (case watcher_Add sys w watcher f of
        (w1, Some err) \<Rightarrow> (watcher_Close sys w1 watcher, Some err)
      | (w1, None) \<Rightarrow> add_files sys watcher fs w1)"

definition NewFSWatcher :: "('o, 'conn) system \<Rightarrow> string list \<Rightarrow> 'o \<Rightarrow> 'o \<times> (string + nat)" where
  "NewFSWatcher sys files w =
     (case NewWatcher sys w of
        (w1, Inl err) \<Rightarrow> (w1, Inl err)
      | (w1, Inr watcher) \<Rightarrow>
          (case add_files sys watcher files w1 of
             (w2, Some err) \<Rightarrow> (w2, Inl err)
           | (w2, None) \<Rightarrow> (w2, Inr watcher)))"

section \<open>Run\<close>

text \<open>
  A channel is a number; \<open>chan\<close> is the one \<open>stoChan\<close> holds, \<open>closed\<close> the closed ones, \<open>served\<close>
  the servers, the last first, and \<open>crashed\<close> says that a goroutine of one of them panicked.
\<close>

record 'o loop =
  sys_world :: 'o
  at :: location
  pending :: "string option"
  chan :: nat
  closed :: "nat list"
  served :: "server list"
  stop_closed :: bool
  crashed :: bool

datatype 'o run_started = RunFatal string | Looping "'o loop"

definition Run_start :: "('o, 'conn) system \<Rightarrow> 'o \<Rightarrow> 'o run_started" where
  "Run_start sys w =
     (case NewFSWatcher sys [DevicePluginPath sys] w of
        (w1, Inl err) \<Rightarrow> RunFatal (''create fswatch failed: '' @ err)
      | (w1, Inr watcher) \<Rightarrow>
          Looping \<lparr>sys_world = w1, at = Restart, pending = None, chan = 0, closed = [], served = [],
            stop_closed = False, crashed = False\<rparr>)"

definition close_chan :: "'o loop \<Rightarrow> 'o loop" where
  "close_chan s = (if chan s \<in> set (closed s) then s\<lparr>at := Panicked\<rparr> else s\<lparr>closed := chan s # closed s\<rparr>)"

text \<open>What the scheduler of the goroutines and of the select and the outside choose.\<close>

datatype choice =
    Proceed | TakeError | TakeEvent fs_notification | TakeStop | StopLoop
  | ServeReturns nat "string option" | StopRuns nat

fun loop_act :: "('o, 'conn) system \<Rightarrow> DevicePluginServer \<Rightarrow> choice \<Rightarrow> 'o loop \<Rightarrow> 'o loop option" where
  "loop_act sys p Proceed s =
     (case at s of
        Restart \<Rightarrow>
          (let s1 = close_chan s
           in Some (if at s1 = Panicked then s1 else s1\<lparr>chan := Suc (chan s1), at := Serving\<rparr>))
      | Serving \<Rightarrow>
          (case Serve sys p (chan s) (sys_world s) of
             Panic \<Rightarrow> Some (s\<lparr>at := Panicked\<rparr>)
           | Ret (w, v) \<Rightarrow> Some (s\<lparr>sys_world := w, served := v # served s, at := Waiting\<rparr>))
      | Waiting \<Rightarrow>
          (case Wait sys p (sys_world s) of
             (w, Some err) \<Rightarrow> Some (s\<lparr>sys_world := w, at := Restart\<rparr>)
           | (w, None) \<Rightarrow> Some (s\<lparr>sys_world := w, at := Registering\<rparr>))
      | Registering \<Rightarrow>
          (case Register sys p (sys_world s) of
             (w, Some err) \<Rightarrow>
               Some (if pending s = None then s\<lparr>sys_world := w, pending := Some err, at := Selecting\<rparr>
                     else s\<lparr>sys_world := w, at := Blocked\<rparr>)
           | (w, None) \<Rightarrow> Some (s\<lparr>sys_world := w, at := Selecting\<rparr>))
      | _ \<Rightarrow> None)"
| "loop_act sys p TakeError s =
     (if at s = Selecting \<and> pending s \<noteq> None then Some (s\<lparr>pending := None, at := Restart\<rparr>) else None)"
| "loop_act sys p (TakeEvent ev) s =
     (if at s = Selecting
      then Some (if ev_Name ev = KubeletSocket sys \<and> ev_Create ev then s\<lparr>at := Restart\<rparr> else s)
      else None)"
| "loop_act sys p TakeStop s =
     (if at s = Selecting \<and> stop_closed s
      then (let s1 = close_chan s in Some (if at s1 = Panicked then s1 else s1\<lparr>at := Returned\<rparr>))
      else None)"
| "loop_act sys p StopLoop s = (if stop_closed s then None else Some (s\<lparr>stop_closed := True\<rparr>))"
| "loop_act sys p (ServeReturns i answer) s =
     (if i < length (served s)
      then (case serve_goroutine answer (served s ! i) of
              None \<Rightarrow> None
            | Some Panic \<Rightarrow> Some (s\<lparr>crashed := True\<rparr>)
            | Some (Ret v) \<Rightarrow> Some (s\<lparr>served := (served s)[i := v]\<rparr>))
      else None)"
| "loop_act sys p (StopRuns i) s =
     (if i < length (served s)
      then map_option (\<lambda>v. s\<lparr>served := (served s)[i := v]\<rparr>) (stop_goroutine (closed s) (served s ! i))
      else None)"

definition dead :: "'o loop \<Rightarrow> bool" where
  "dead s \<longleftrightarrow> crashed s \<or> at s = Panicked"

definition loop_next :: "('o, 'conn) system \<Rightarrow> DevicePluginServer \<Rightarrow> choice \<Rightarrow> 'o loop \<Rightarrow> 'o loop option" where
  "loop_next sys p ch s = (if dead s then None else loop_act sys p ch s)"

fun loop_run :: "('o, 'conn) system \<Rightarrow> DevicePluginServer \<Rightarrow> choice list \<Rightarrow> 'o loop \<Rightarrow> 'o loop option" where
  "loop_run sys p [] s = Some s"
| "loop_run sys p (c # cs) s = Option.bind (loop_next sys p c s) (loop_run sys p cs)"

inductive loop_reachable :: "('o, 'conn) system \<Rightarrow> DevicePluginServer \<Rightarrow> 'o loop \<Rightarrow> bool" for sys p where
  start: "Run_start sys w = Looping s \<Longrightarrow> loop_reachable sys p s"
| step: "loop_reachable sys p s \<Longrightarrow> loop_next sys p ch s = Some t \<Longrightarrow> loop_reachable sys p t"
| outside: "loop_reachable sys p s \<Longrightarrow> loop_reachable sys p (s\<lparr>sys_world := w\<rparr>)"

lemma loop_run_append: "loop_run sys p (cs @ ds) s = Option.bind (loop_run sys p cs s) (loop_run sys p ds)"
proof (induction cs arbitrary: s)
  case (Cons c cs)
  then show ?case by (cases "loop_next sys p c s") simp_all
qed simp

lemma loop_run_reachable: "loop_reachable sys p s \<Longrightarrow> loop_run sys p cs s = Some t \<Longrightarrow> loop_reachable sys p t"
  by (induction cs arbitrary: s) (auto simp: bind_eq_Some_conv intro: loop_reachable.step)

text \<open>The servers whose channel is not closed, and those that accept connections.\<close>

definition up :: "'o loop \<Rightarrow> server list" where
  "up s = filter (\<lambda>v. sv_chan v \<notin> set (closed s)) (served s)"

definition accepting :: "'o loop \<Rightarrow> server list" where
  "accepting s = filter (\<lambda>v. sv_stopper v = AwaitStop) (served s)"

section \<open>Refinement of the counting machine\<close>

definition loop_abs :: "'o loop \<Rightarrow> run_state" where
  "loop_abs s = \<lparr>loc = at s, errChan = pending s, stoOpen = (chan s \<notin> set (closed s)), live = length (up s),
     stopClosed = stop_closed s\<rparr>"

definition server_inv :: "nat \<Rightarrow> nat list \<Rightarrow> server \<Rightarrow> bool" where
  "server_inv c closed_chans v \<longleftrightarrow>
     sv_chan v \<le> c \<and> (sv_stopper v \<noteq> AwaitStop \<longrightarrow> sv_chan v \<in> set closed_chans) \<and>
     (sv_exited v \<longrightarrow> sv_stopper v \<noteq> AwaitStop)"

definition loop_inv :: "'o loop \<Rightarrow> bool" where
  "loop_inv s \<longleftrightarrow> (\<forall>c < chan s. c \<in> set (closed s)) \<and> (\<forall>c \<in> set (closed s). c \<le> chan s) \<and>
     list_all (server_inv (chan s) (closed s)) (served s) \<and> (at s \<noteq> Returned \<longrightarrow> chan s \<notin> set (closed s))"

lemma server_inv_mono: "server_inv c cs v \<Longrightarrow> c \<le> d \<Longrightarrow> set cs \<subseteq> set ds \<Longrightarrow> server_inv d ds v"
  by (auto simp: server_inv_def)

lemma servers_inv_mono:
  "list_all (server_inv c cs) vs \<Longrightarrow> c \<le> d \<Longrightarrow> set cs \<subseteq> set ds \<Longrightarrow> list_all (server_inv d ds) vs"
  by (auto simp: list_all_iff intro: server_inv_mono)

lemma up_none:
  assumes "loop_inv s" "chan s \<in> set (closed s)"
  shows "up s = []"
proof -
  have "sv_chan v \<in> set (closed s)" if "v \<in> set (served s)" for v
    using assms that by (cases "sv_chan v = chan s") (auto simp: loop_inv_def list_all_iff server_inv_def)
  then show ?thesis by (auto simp: up_def filter_empty_conv)
qed

lemma up_close:
  assumes "loop_inv s"
  shows "up (s\<lparr>closed := chan s # closed s\<rparr>) = []"
proof -
  have "loop_inv (s\<lparr>closed := chan s # closed s, at := Returned\<rparr>)"
    using assms by (auto simp: loop_inv_def intro: servers_inv_mono)
  from up_none [OF this] show ?thesis by (simp add: up_def)
qed

lemma loop_abs_simps [simp]:
  "loc (loop_abs s) = at s" "errChan (loop_abs s) = pending s" "stoOpen (loop_abs s) \<longleftrightarrow> chan s \<notin> set (closed s)"
  "stopClosed (loop_abs s) = stop_closed s"
  by (simp_all add: loop_abs_def)

text \<open>
  The event of the counting machine that a choice is, given what the calls answer; none for the
  steps of the goroutines.
\<close>

definition loop_event :: "('o, 'conn) system \<Rightarrow> DevicePluginServer \<Rightarrow> choice \<Rightarrow> 'o loop \<Rightarrow> event option" where
  "loop_event sys p ch s =
     (case ch of
        Proceed \<Rightarrow>
          Some (case at s of
             Restart \<Rightarrow> Slept
           | Serving \<Rightarrow> (case Serve sys p (chan s) (sys_world s) of Panic \<Rightarrow> ListenFails | Ret _ \<Rightarrow> ListenOk)
           | Waiting \<Rightarrow> (case snd (Wait sys p (sys_world s)) of None \<Rightarrow> WaitOk | Some err \<Rightarrow> WaitFails err)
           | _ \<Rightarrow> (case snd (Register sys p (sys_world s)) of None \<Rightarrow> RegisterOk | Some err \<Rightarrow> RegisterFails err))
      | TakeError \<Rightarrow> Some ReceiveErr
      | TakeEvent ev \<Rightarrow> Some (FsEvent (ev_Name ev = KubeletSocket sys \<and> ev_Create ev))
      | TakeStop \<Rightarrow> Some StopReceived
      | StopLoop \<Rightarrow> Some CloseStop
      | _ \<Rightarrow> None)"

lemma loop_next_act: "loop_next sys p ch s = Some t \<Longrightarrow> loop_act sys p ch s = Some t"
  by (simp add: loop_next_def split: if_splits)

lemma Serve_server:
  "Serve sys p stop w = Ret (w', v) \<Longrightarrow> sv_chan v = stop \<and> \<not> sv_exited v \<and> sv_stopper v = AwaitStop"
  by (auto simp: Serve_def Let_def split: prod.splits sum.splits)

lemma serve_goroutine_Ret:
  "serve_goroutine answer v = Some (Ret v') \<Longrightarrow> sv_chan v' = sv_chan v \<and> (server_inv c cs v \<longrightarrow> server_inv c cs v')"
  by (auto simp: serve_goroutine_def server_inv_def split: if_splits option.splits)

lemma stop_goroutine_Some:
  "stop_goroutine cs v = Some v' \<Longrightarrow> sv_chan v' = sv_chan v \<and> (server_inv c cs v \<longrightarrow> server_inv c cs v')"
  by (auto simp: stop_goroutine_def server_inv_def split: if_splits stopper.splits)

lemma list_all_update: "list_all P xs \<Longrightarrow> P y \<Longrightarrow> list_all P (xs[i := y])"
  by (auto simp: list_all_iff dest: set_update_subset_insert [THEN subsetD])

lemma loop_inv_next:
  assumes inv: "loop_inv s" and run: "loop_next sys p ch s = Some t"
  shows "loop_inv t"
proof -
  note act = loop_next_act [OF run]
  have servers: "list_all (server_inv (chan s) (closed s)) (served s)" using inv by (simp add: loop_inv_def)
  then have nth: "server_inv (chan s) (closed s) (served s ! i)" if "i < length (served s)" for i
    using that by (simp add: list_all_length)
  have fresh: "Suc (chan s) \<notin> set (closed s)" using inv by (auto simp: loop_inv_def)
  show ?thesis
  proof (cases ch)
    case Proceed
    have new: "server_inv (chan s) (closed s) v" if "Serve sys p (chan s) w = Ret (w', v)" for w w' v
      using Serve_server [OF that] by (simp add: server_inv_def)
    show ?thesis
    proof (cases "at s")
      case Restart
      with inv act Proceed fresh show ?thesis
        by (auto simp: loop_inv_def close_chan_def Let_def less_Suc_eq le_Suc_eq intro: servers_inv_mono)
    qed (use inv act Proceed new in \<open>auto simp: loop_inv_def split: outcome.splits prod.splits option.splits if_splits\<close>)
  next
    case TakeStop
    with inv act show ?thesis
      by (auto simp: loop_inv_def close_chan_def Let_def intro: servers_inv_mono split: if_splits)
  next
    case (ServeReturns i answer)
    with inv act nth [of i] servers show ?thesis
      by (auto simp: loop_inv_def intro!: list_all_update dest: serve_goroutine_Ret [of _ _ _ "chan s" "closed s"]
          split: if_splits option.splits outcome.splits)
  next
    case (StopRuns i)
    with inv act nth [of i] servers show ?thesis
      by (auto simp: loop_inv_def intro!: list_all_update dest: stop_goroutine_Some [of _ _ _ "chan s"] split: if_splits)
  qed (use inv act in \<open>auto simp: loop_inv_def split: if_splits\<close>)
qed

lemma filter_length_chans: "length (filter (\<lambda>v. P (sv_chan v)) vs) = length (filter P (map sv_chan vs))"
  by (induction vs) auto

lemma up_crashed [simp]: "up (s\<lparr>crashed := b\<rparr>) = up s"
  by (simp add: up_def)

lemma up_update:
  assumes "sv_chan v' = sv_chan (served s ! i)" "i < length (served s)"
  shows "length (up (s\<lparr>served := (served s)[i := v']\<rparr>)) = length (up s)"
proof -
  have "map sv_chan ((served s)[i := v']) = map sv_chan (served s)"
    using assms by (metis list_update_id map_update)
  then show ?thesis by (simp add: up_def filter_length_chans [where P = "\<lambda>c. c \<notin> set (closed s)"])
qed

lemma loop_refines:
  assumes "loop_inv s" and run: "loop_next sys p ch s = Some t" and ev: "loop_event sys p ch s = Some e"
  shows "run_next e (loop_abs s) = Some (loop_abs t)"
proof (cases ch)
  case Proceed
  note act = loop_next_act [OF run]
  show ?thesis
  proof (cases "at s")
    case Restart
    have "Suc (chan s) \<notin> set (closed s)" using assms(1) by (auto simp: loop_inv_def)
    then show ?thesis
      using assms(1) ev act Proceed Restart up_close [OF assms(1)]
      by (auto simp: loop_event_def loop_abs_def close_chan_def Let_def up_def)
  next
    case Serving
    then show ?thesis
      using assms(1) ev act Proceed
      by (auto simp: loop_event_def loop_abs_def up_def loop_inv_def dest: Serve_server split: outcome.splits)
  qed (use ev act Proceed in \<open>auto simp: loop_event_def loop_abs_def up_def split: prod.splits option.splits\<close>)
next
  case TakeStop
  then show ?thesis
    using assms(1) ev loop_next_act [OF run] up_close [OF assms(1)]
    by (auto simp: loop_event_def loop_abs_def close_chan_def Let_def up_def split: if_splits)
qed (use ev loop_next_act [OF run] in \<open>auto simp: loop_event_def loop_abs_def up_def split: if_splits\<close>)

text \<open>The goroutines' steps are not seen by the counting machine.\<close>

lemma goroutine_stutters:
  assumes "loop_next sys p ch s = Some t" "loop_event sys p ch s = None"
  shows "loop_abs t = loop_abs s"
proof (cases ch)
  case (ServeReturns i answer)
  with loop_next_act [OF assms(1)] show ?thesis
    by (auto simp: loop_abs_def up_update dest: serve_goroutine_Ret split: if_splits option.splits outcome.splits)
next
  case (StopRuns i)
  with loop_next_act [OF assms(1)] show ?thesis
    by (auto simp: loop_abs_def up_update dest: stop_goroutine_Some split: if_splits)
qed (use assms(2) in \<open>auto simp: loop_event_def\<close>)

lemma Run_start_inv: "Run_start sys w = Looping s \<Longrightarrow> loop_inv s \<and> loop_abs s = run_init"
  by (auto simp: Run_start_def loop_inv_def loop_abs_def run_init_def up_def split: prod.splits sum.splits)

lemma loop_reachable_abs:
  "loop_reachable sys p s \<Longrightarrow> loop_inv s \<and> run_reachable (loop_abs s)"
proof (induction rule: loop_reachable.induct)
  case (start w s)
  with Run_start_inv [OF start] show ?case by (simp add: run_reachable.init)
next
  case (step s ch t)
  then have "run_reachable (loop_abs t)"
    using loop_refines [of s sys p ch t] goroutine_stutters [of sys p ch s t]
    by (cases "loop_event sys p ch s") (auto intro: run_reachable.more run_step.step)
  with step loop_inv_next show ?case by blast
next
  case (outside s w)
  then show ?case by (simp add: loop_inv_def loop_abs_def up_def)
qed

text \<open>What the process dies of.\<close>

lemma dead_cause:
  assumes inv: "loop_inv s" and run: "loop_next sys p ch s = Some t" and dead: "dead t"
  shows "at s = Serving \<and> Serve sys p (chan s) (sys_world s) = Panic \<or> (\<exists>i err. ch = ServeReturns i (Some err))"
proof -
  have alive: "\<not> crashed s" "at s \<noteq> Panicked" using run by (auto simp: loop_next_def dead_def split: if_splits)
  have open_chan: "at s \<noteq> Returned \<Longrightarrow> chan s \<notin> set (closed s)" using inv by (simp add: loop_inv_def)
  show ?thesis
    using loop_next_act [OF run] dead alive open_chan
    by (cases ch) (auto simp: dead_def close_chan_def Let_def serve_goroutine_def
        split: location.splits outcome.splits prod.splits option.splits if_splits)
qed

section \<open>Servers told to stop do stop\<close>

definition stopped_if_told :: "nat list \<Rightarrow> server \<Rightarrow> server" where
  "stopped_if_told closed_chans v =
     (if sv_stopper v = AwaitStop \<and> sv_chan v \<in> set closed_chans then v\<lparr>sv_stopper := Stopping\<rparr> else v)"

lemma stoppers_run:
  assumes "\<not> dead s"
  shows "n \<le> length (served s) \<Longrightarrow>
     \<exists>is. loop_run sys p (map StopRuns is) s =
       Some (s\<lparr>served := map (stopped_if_told (closed s)) (take n (served s)) @ drop n (served s)\<rparr>)"
proof (induction n)
  case 0
  have "loop_run sys p (map StopRuns []) s = Some (s\<lparr>served := served s\<rparr>)" by simp
  then show ?case by (metis take_0 drop_0 list.map(1) append_Nil)
next
  case (Suc n)
  let ?f = "stopped_if_told (closed s)"
  let ?vs = "\<lambda>n. map ?f (take n (served s)) @ drop n (served s)"
  obtain "is" where IH: "loop_run sys p (map StopRuns is) s = Some (s\<lparr>served := ?vs n\<rparr>)" using Suc by auto
  let ?v = "served s ! n"
  have n: "n < length (served s)" using Suc.prems by simp
  then have nth: "?vs n ! n = ?v" by (simp add: nth_append)
  have upd: "(?vs n)[n := ?f ?v] = ?vs (Suc n)"
    using n by (simp add: list_update_append take_Suc_conv_app_nth Cons_nth_drop_Suc [symmetric])
  have alive: "\<not> dead (s\<lparr>served := ?vs n\<rparr>)" using assms by (simp add: dead_def)
  show ?case
  proof (cases "?f ?v = ?v")
    case True
    then have "?vs n = ?vs (Suc n)" using upd nth by (metis list_update_id)
    with IH show ?thesis by auto
  next
    case False
    then have "stop_goroutine (closed s) ?v = Some (?f ?v)"
      by (auto simp: stopped_if_told_def stop_goroutine_def split: if_splits)
    then have "loop_next sys p (StopRuns n) (s\<lparr>served := ?vs n\<rparr>) = Some (s\<lparr>served := ?vs (Suc n)\<rparr>)"
      using alive n nth upd by (simp add: loop_next_def)
    with IH have "loop_run sys p (map StopRuns (is @ [n])) s = Some (s\<lparr>served := ?vs (Suc n)\<rparr>)"
      by (simp add: loop_run_append)
    then show ?thesis by blast
  qed
qed

lemma accepting_stopped:
  assumes "list_all (server_inv c cs) vs"
  shows "filter (\<lambda>v. sv_stopper v = AwaitStop) (map (stopped_if_told cs) vs) = filter (\<lambda>v. sv_chan v \<notin> set cs) vs"
  using assms by (induction vs) (auto simp: stopped_if_told_def server_inv_def)

lemma stoppers_settle:
  assumes "loop_inv s" "\<not> dead s"
  shows "\<exists>is t. loop_run sys p (map StopRuns is) s = Some t \<and> at t = at s \<and> accepting t = up s \<and> up t = up s"
proof -
  let ?vs = "map (stopped_if_told (closed s)) (served s)"
  obtain "is" where run: "loop_run sys p (map StopRuns is) s = Some (s\<lparr>served := ?vs\<rparr>)"
    using stoppers_run [OF assms(2), of "length (served s)" sys p] by auto
  have "accepting (s\<lparr>served := ?vs\<rparr>) = up s"
    using accepting_stopped assms(1) by (auto simp: accepting_def up_def loop_inv_def)
  moreover have "filter (\<lambda>v. sv_chan v \<notin> set cs) (map (stopped_if_told cs) vs) = filter (\<lambda>v. sv_chan v \<notin> set cs) vs" for cs vs
    by (induction vs) (auto simp: stopped_if_told_def)
  then have "up (s\<lparr>served := ?vs\<rparr>) = up s" by (simp add: up_def)
  ultimately show ?thesis using run by (metis loop.select_convs(2) loop.update_convs(6) loop.surjective)
qed

text \<open>The current server is not told to stop and runs.\<close>

lemma up_runs: "loop_inv s \<Longrightarrow> v \<in> set (up s) \<Longrightarrow> sv_stopper v = AwaitStop \<and> \<not> sv_exited v"
  by (auto simp: loop_inv_def up_def list_all_iff server_inv_def)

section \<open>Every server\<close>

text \<open>
  \<open>OrinDevicePlugin.Run\<close> starts one loop per server in a goroutine of its own, all with the
  same stop channel. A loop whose watcher cannot be made ends the process.
\<close>

fun start_all :: "('o, 'conn) system \<Rightarrow> DevicePluginServer list \<Rightarrow> 'o \<Rightarrow> string + (DevicePluginServer \<times> 'o loop) list" where
  "start_all sys [] w = Inr []"
| "start_all sys (p # ps) w =
     (case Run_start sys w of
        RunFatal msg \<Rightarrow> Inl msg
      | Looping s \<Rightarrow>
          (case start_all sys ps (sys_world s) of Inl msg \<Rightarrow> Inl msg | Inr ls \<Rightarrow> Inr ((p, s) # ls)))"

definition OrinDevicePlugin_Run ::
  "('o, 'conn) system \<Rightarrow> ((string, DevicePluginServer) fmap \<Rightarrow> string list) \<Rightarrow> (string, DevicePluginServer) fmap \<Rightarrow>
   'o \<Rightarrow> string + (DevicePluginServer \<times> 'o loop) list" where
  "OrinDevicePlugin_Run sys rng odp w = start_all sys (map (\<lambda>k. the (fmlookup odp k)) (rng odp)) w"

lemma start_all_loops:
  "start_all sys ps w = Inr ls \<Longrightarrow> map fst ls = ps \<and> (\<forall>(p, s) \<in> set ls. loop_reachable sys p s)"
proof (induction ps arbitrary: w ls)
  case (Cons p ps)
  then obtain s rest where "Run_start sys w = Looping s" "start_all sys ps (sys_world s) = Inr rest" "ls = (p, s) # rest"
    by (auto split: run_started.splits sum.splits)
  with Cons.IH [of "sys_world s" rest] show ?case by (auto intro: loop_reachable.start)
qed simp

end
