(* ===== verification/Sitter.thy ===== *)
theory Sitter
  imports K8sObjects
begin

text \<open>
  \<open>PodSitter\<close> of \<open>pkg/device/kubeapis/sitter.go\<close>: the pods of the plugin's own node, read from
  an informer that lists with a field selector, and pods and nodes read from the API server.

  The informer factory and the selector syntax are code outside the repository: a factory is
  an argument from the list options' tweak to an informer, and \<open>factory_contract\<close> says that an
  informer holds only objects its options select.
\<close>

record ListOptions =
  FieldSelector :: string

record 'w pod_informer =
  inf_Start :: "'w \<Rightarrow> 'w"
  inf_Get :: "'w \<Rightarrow> string \<Rightarrow> string \<Rightarrow> string + Pod"
  inf_HasSynced :: "'w \<Rightarrow> bool"

type_synonym 'w factory = "'w clientset \<Rightarrow> (ListOptions \<Rightarrow> ListOptions) \<Rightarrow> 'w pod_informer"

record 'w PodSitter =
  st_client :: "'w clientset"
  informersFactory :: "'w pod_informer"
  podLister :: "'w \<Rightarrow> string \<Rightarrow> string \<Rightarrow> string + Pod"
  podInformer :: "('w \<Rightarrow> bool) option"

definition Sitter_Start :: "'w PodSitter \<Rightarrow> 'w \<Rightarrow> 'w" where
  "Sitter_Start p w = inf_Start (informersFactory p) w"

definition GetPod :: "'w PodSitter \<Rightarrow> 'w \<Rightarrow> string \<Rightarrow> string \<Rightarrow> string + Pod" where
  "GetPod p w namespace name = podLister p w namespace name"

definition GetPodFromApiServer :: "'w PodSitter \<Rightarrow> 'w \<Rightarrow> string \<Rightarrow> string \<Rightarrow> 'w \<times> (string + Pod)" where
  "GetPodFromApiServer p w namespace name = cs_GetPod (st_client p) w namespace name"

definition GetNodeFromApiServer :: "'w PodSitter \<Rightarrow> 'w \<Rightarrow> string \<Rightarrow> 'w \<times> (string + Node)" where
  "GetNodeFromApiServer p w name = cs_GetNode (st_client p) w name"

definition HasSynced :: "'w PodSitter \<Rightarrow> 'w \<Rightarrow> bool" where
  "HasSynced p w = (case podInformer p of None \<Rightarrow> False | Some synced \<Rightarrow> synced w)"

definition nodeNameFilter :: "(string \<Rightarrow> string \<Rightarrow> string) \<Rightarrow> string \<Rightarrow> ListOptions \<Rightarrow> ListOptions" where
  "nodeNameFilter OneTermEqualSelector nodeName options =
     options\<lparr>FieldSelector := OneTermEqualSelector ''spec.nodeName'' nodeName\<rparr>"

definition NewSitter ::
  "'w factory \<Rightarrow> (string \<Rightarrow> string \<Rightarrow> string) \<Rightarrow> 'w clientset \<Rightarrow> string \<Rightarrow> 'w PodSitter" where
  "NewSitter factory OneTermEqualSelector client nodeName =
     (let f = factory client (nodeNameFilter OneTermEqualSelector nodeName)
      in \<lparr>st_client = client, informersFactory = f, podLister = inf_Get f, podInformer = Some (inf_HasSynced f)\<rparr>)"

definition factory_contract :: "'w factory \<Rightarrow> (string \<Rightarrow> string \<Rightarrow> string) \<Rightarrow> bool" where
  "factory_contract factory OneTermEqualSelector \<longleftrightarrow>
     (\<exists>selects :: string \<Rightarrow> Pod \<Rightarrow> bool.
        (\<forall>client tweak w ns name pod.
           inf_Get (factory client tweak) w ns name = Inr pod \<longrightarrow>
           selects (FieldSelector (tweak \<lparr>FieldSelector = []\<rparr>)) pod \<and> pod_Namespace pod = ns \<and> pod_Name pod = name) \<and>
        (\<forall>nodeName pod. selects (OneTermEqualSelector ''spec.nodeName'' nodeName) pod \<longleftrightarrow> pod_NodeName pod = nodeName))"

lemma sitter_own_pods:
  assumes "factory_contract factory sel" "GetPod (NewSitter factory sel client nodeName) w ns name = Inr pod"
  shows "pod_NodeName pod = nodeName \<and> pod_Namespace pod = ns \<and> pod_Name pod = name"
proof -
  obtain selects where sel: "\<And>client tweak w ns name pod. inf_Get (factory client tweak) w ns name = Inr pod \<Longrightarrow>
        selects (FieldSelector (tweak \<lparr>FieldSelector = []\<rparr>)) pod \<and> pod_Namespace pod = ns \<and> pod_Name pod = name"
    "\<And>nodeName pod. selects (sel ''spec.nodeName'' nodeName) pod \<longleftrightarrow> pod_NodeName pod = nodeName"
    using assms(1) unfolding factory_contract_def by blast
  have "inf_Get (factory client (nodeNameFilter sel nodeName)) w ns name = Inr pod"
    using assms(2) by (simp add: GetPod_def NewSitter_def Let_def)
  from sel(1) [OF this] sel(2) show ?thesis by (simp add: nodeNameFilter_def)
qed

end
