(* ===== verification/PluginMain.thy ===== *)
theory PluginMain
  imports PluginServer Sitter Clients PluginFacts
begin

text \<open>
  \<open>cmd/deviceplugin/deviceplugin.go\<close>: the start of the device plugin. The process ends with a
  message at the first thing that fails; a pod informer that never syncs makes it wait for
  ever; otherwise it runs one loop per orin class until a signal. \<open>node_platform\<close> holds what is
  outside the repository; \<open>wait_synced\<close> is \<open>WaitForCacheSync\<close> on a channel nobody closes, \<open>None\<close>
  when the condition never holds.
\<close>

record plugin_flags =
  pf_nodeName :: string
  pf_kubeconfig :: string
  pf_provider :: string
  pf_providerConfig :: string

definition Plugin_InitFlag :: plugin_flags where
  "Plugin_InitFlag = \<lparr>pf_nodeName = [], pf_kubeconfig = [], pf_provider = ''file'', pf_providerConfig = []\<rparr>"

datatype exit_signal = ExitTERM | ExitQUIT | ExitOther nat

text \<open>\<open>ExitSignal\<close>: the position of the first signal that ends the wait of \<open>main\<close>.\<close>

definition ExitSignal :: "exit_signal list \<Rightarrow> exit_signal option" where
  "ExitSignal sigs = find (\<lambda>s. s = ExitTERM \<or> s = ExitQUIT) sigs"

record ('cfg, 'w, 'cl, 'conn) node_platform =
  np_parse :: "plugin_flags \<Rightarrow> plugin_flags"
  np_kube :: "('cfg, 'w clientset) kube"
  np_factory :: "'w factory"
  np_selector :: "string \<Rightarrow> string \<Rightarrow> string"
  wait_synced :: "'w \<Rightarrow> ('w \<Rightarrow> bool) \<Rightarrow> ('w \<times> bool) option"
  np_readFile :: "string \<Rightarrow> string + string"
  np_unmarshal :: "string \<Rightarrow> string + OrinFileDevice"
  np_env :: "'w PodSitter \<Rightarrow> ('w, 'cl) plugin_env"
  np_uns :: "int fset \<Rightarrow> int list"
  np_system :: "('w, 'conn) system"
  np_servers :: "(string, DevicePluginServer) fmap \<Rightarrow> string list"
  np_error :: "plugin_error \<Rightarrow> string"

fun Create :: "(string \<Rightarrow> string + string) \<Rightarrow> (string \<Rightarrow> string + OrinFileDevice) \<Rightarrow> ProviderFactory \<Rightarrow> string \<Rightarrow>
    string + FileDeviceProvider" where
  "Create readFile unmarshal OrinFileDeviceFactory config = NewFileDeviceProvider readFile unmarshal config"

datatype ('w, 'cl) plugin_main =
    PluginFatal string
  | WaitingForSync
  | Plugging "'cl OrinDeviceConfig" "(DevicePluginServer \<times> 'w loop) list"

definition deviceplugin_main :: "('cfg, 'w, 'cl, 'conn) node_platform \<Rightarrow> 'w \<Rightarrow> ('w, 'cl) plugin_main" where
  "deviceplugin_main pf w =
     (let f = np_parse pf Plugin_InitFlag
      in case Plugin_BuildClientSet (np_kube pf) (pf_kubeconfig f) of
           Fatal msg \<Rightarrow> PluginFatal msg
         | Go (Inl err) \<Rightarrow> PluginFatal err
         | Go (Inr clientSet) \<Rightarrow>
             (let sitter = NewSitter (np_factory pf) (np_selector pf) clientSet (pf_nodeName f)
              in case wait_synced pf (Sitter_Start sitter w) (HasSynced sitter) of
                   None \<Rightarrow> WaitingForSync
                 | Some (w1, False) \<Rightarrow> PluginFatal ''failed to wait for caches to sync''
                 | Some (w1, True) \<Rightarrow>
                     (case fmlookup ProviderMap (pf_provider f) of
                        None \<Rightarrow> PluginFatal ''invalid device provider''
                      | Some providerfactory \<Rightarrow>
                          (case Create (np_readFile pf) (np_unmarshal pf) providerfactory (pf_providerConfig f) of
                             Inl err \<Rightarrow> PluginFatal ''failed to create device provider''
                           | Inr p \<Rightarrow>
                               (let odc = \<lparr>DeviceLocator = fmempty, cfg_DeviceProvider = file_methods p,
                                           NodeName = pf_nodeName f\<rparr>
                                in case NewOrinDevicePlugin (np_env pf sitter) (np_uns pf) w1 odc of
                                     ((w2, c), Inl err) \<Rightarrow> PluginFatal (np_error pf err)
                                   | ((w2, c), Inr plug) \<Rightarrow>
                                       (case OrinDevicePlugin_Run (np_system pf) (np_servers pf) plug w2 of
                                          Inl msg \<Rightarrow> PluginFatal msg
                                        | Inr loops \<Rightarrow> Plugging c loops))))))"

lemma ProviderMap_lookup: "fmlookup ProviderMap name = (if name = ''file'' then Some OrinFileDeviceFactory else None)"
  by (simp add: ProviderMap_def FileDeviceProviderName_def)

text \<open>A plugin that runs went through every step.\<close>

lemma Plugging_steps:
  assumes "deviceplugin_main pf w = Plugging c loops"
  obtains f cs w1 w2 p plug where "f = np_parse pf Plugin_InitFlag" "pf_provider f = ''file''"
    "NewFileDeviceProvider (np_readFile pf) (np_unmarshal pf) (pf_providerConfig f) = Inr p"
    "NewOrinDevicePlugin (np_env pf (NewSitter (np_factory pf) (np_selector pf) cs (pf_nodeName f))) (np_uns pf) w1
       \<lparr>DeviceLocator = fmempty, cfg_DeviceProvider = file_methods p, NodeName = pf_nodeName f\<rparr> = ((w2, c), Inr plug)"
    "OrinDevicePlugin_Run (np_system pf) (np_servers pf) plug w2 = Inr loops"
  using assms
  by (auto simp: deviceplugin_main_def Let_def ProviderMap_lookup
      split: started.splits sum.splits option.splits prod.splits bool.splits if_splits)

end
