(* ===== verification/NodeHeap.thy ===== *)
theory NodeHeap
  imports NodeInvariant
begin

text \<open>
  The node account of \<open>cache.go\<close> and \<open>mazuinfo.go\<close> on the heap. A Go map is a reference, and
  the code shares and mutates them: \<open>Allocatable\<close> starts as the very map \<open>Total\<close> is,
  \<open>DifferenceFromSuperset\<close> puts inner maps of its receiver into its result, \<open>od.Add\<close> in
  \<open>addPod\<close> writes into the inner map \<open>Requested\<close> already holds, and \<open>Allocatable.Add\<close> in
  \<open>deletePod\<close> writes into an inner map in place.

  The heap has the inner maps (\<open>OrinDetails\<close>) and the outer ones (\<open>BoardDetails\<close>, from board id
  to the reference of an inner map); a reference is a number below \<open>next_ref\<close>. \<open>board_at\<close> reads
  an outer map as the value NodeInfos works with. The theory proves that the value model is
  right: on a node whose sharing is harmless (\<open>sharing_ok\<close>) every method does on the heap what
  its value version does, and keeps the sharing harmless.
\<close>

type_synonym ref = nat

record heap =
  orins :: "ref \<Rightarrow> OrinDetails"
  boards :: "ref \<Rightarrow> (int, ref) fmap"
  next_ref :: ref

definition board_at :: "heap \<Rightarrow> ref \<Rightarrow> BoardDetails" where
  "board_at h d = fmmap (orins h) (boards h d)"

section \<open>The maps\<close>

definition heap_NewOrinDetails :: "heap \<Rightarrow> heap \<times> ref" where
  "heap_NewOrinDetails h = (h\<lparr>orins := (orins h)(next_ref h := fmempty), next_ref := Suc (next_ref h)\<rparr>, next_ref h)"

definition heap_NewBoardDetails :: "heap \<Rightarrow> heap \<times> ref" where
  "heap_NewBoardDetails h = (h\<lparr>boards := (boards h)(next_ref h := fmempty), next_ref := Suc (next_ref h)\<rparr>, next_ref h)"

definition heap_orin_Add :: "ref \<Rightarrow> int \<Rightarrow> int \<Rightarrow> heap \<Rightarrow> heap" where
  "heap_orin_Add d bid orinID h = h\<lparr>orins := (orins h)(d := OrinDetails_Add (orins h d) bid orinID)\<rparr>"

definition heap_AddAll :: "ref \<Rightarrow> int \<Rightarrow> int fset \<Rightarrow> heap \<Rightarrow> heap" where
  "heap_AddAll d bid os h = fold (\<lambda>o' h. heap_orin_Add d bid o' h) (sorted_list_of_fset os) h"

text \<open>The loop of \<open>Add\<close> copies the entries of \<open>od\<close> into the map that is there.\<close>

definition heap_board_Add :: "ref \<Rightarrow> int \<Rightarrow> ref \<Rightarrow> heap \<Rightarrow> heap" where
  "heap_board_Add d bid od h =
     (case fmlookup (boards h d) bid of
        None \<Rightarrow> h\<lparr>boards := (boards h)(d := fmupd bid od (boards h d))\<rparr>
      | Some md \<Rightarrow> h\<lparr>orins := (orins h)(md := orins h md ++\<^sub>f orins h od)\<rparr>)"

fun heap_diff_boards :: "ref \<Rightarrow> ref \<Rightarrow> int list \<Rightarrow> ref \<Rightarrow> heap \<Rightarrow> heap \<times> topo_error option" where
  "heap_diff_boards source sub [] md h = (h, None)"
| "heap_diff_boards source sub (subMID # rest) md h =
     (let srcOSet = OrinSet (board_orins (board_at h source) subMID);
          subOSet = OrinSet (board_orins (board_at h sub) subMID)
      in if \<not> subOSet |\<subseteq>| srcOSet then (h, Some OrinNotSuperset)
         else (case heap_NewOrinDetails h of
                 (h1, newOd) \<Rightarrow>
                   heap_diff_boards source sub rest md
                     (heap_board_Add md subMID newOd (heap_AddAll newOd subMID (srcOSet |-| subOSet) h1))))"

definition heap_Difference :: "ref \<Rightarrow> ref \<Rightarrow> heap \<Rightarrow> heap \<times> (topo_error + ref)" where
  "heap_Difference source sub h =
     (let srcMSet = fmdom (boards h source); subMSet = fmdom (boards h sub)
      in if \<not> subMSet |\<subseteq>| srcMSet then (h, Inl BoardNotSuperset)
         else (case heap_NewBoardDetails h of
                 (h1, md) \<Rightarrow>
                   (case heap_diff_boards source sub (sorted_range (boards h sub)) md
                           (fold (\<lambda>m h. heap_board_Add md m (the (fmlookup (boards h source) m)) h)
                              (sorted_list_of_fset (srcMSet |-| subMSet)) h1) of
                      (h2, Some e) \<Rightarrow> (h2, Inl e)
                    | (h2, None) \<Rightarrow> (h2, Inr md))))"

section \<open>The node\<close>

record HeapNode =
  hn_Node :: Node
  hn_Pods :: "(uid, Pod) fmap"
  hn_Allocatable :: ref
  hn_Requested :: ref
  hn_Total :: ref

definition heap_deletePod :: "HeapNode \<Rightarrow> Pod \<Rightarrow> heap \<Rightarrow> heap \<times> HeapNode \<times> cache_error option" where
  "heap_deletePod n pod h =
     (case fmlookup (pod_Annotations pod) AnnotationPodBindToBoard of
        None \<Rightarrow> (h, n, None)
      | Some bindBoardIDStr \<Rightarrow>
          if \<not> has_key (hn_Pods n) (pod_UID pod)
          then (h, n, Some (NodeNotContainPod (node_Name (hn_Node n)) (pod_Name pod) (pod_UID pod)))
          else (case ParseInt bindBoardIDStr of
                  None \<Rightarrow> (h, n, None)
                | Some b \<Rightarrow>
                    (case heap_NewOrinDetails h of
                       (h1, need) \<Rightarrow>
                         (case heap_NewBoardDetails (heap_AddAll need b (BuildRequestOrinSet pod) h1) of
                            (h2, needBoards) \<Rightarrow>
                              (case heap_Difference (hn_Requested n) needBoards (heap_board_Add needBoards b need h2) of
                                 (h3, Inl e) \<Rightarrow> (h3, n, Some (TopoError e))
                               | (h3, Inr newRequest) \<Rightarrow>
                                   (heap_board_Add (hn_Allocatable n) b need h3,
                                    n\<lparr>hn_Requested := newRequest, hn_Pods := fmdrop (pod_UID pod) (hn_Pods n)\<rparr>, None))))))"

definition heap_addPod_request :: "HeapNode \<Rightarrow> Pod \<Rightarrow> int \<Rightarrow> heap \<Rightarrow> heap \<times> HeapNode \<times> cache_error option" where
  "heap_addPod_request n pod b h =
     (let (h1, od) = (case fmlookup (boards h (hn_Requested n)) b of
                        Some existOd \<Rightarrow> (h, existOd)
                      | None \<Rightarrow> heap_NewOrinDetails h);
          h2 = heap_AddAll od b (BuildRequestOrinSet pod) h1;
          h3 = h2\<lparr>boards := (boards h2)(hn_Requested n := fmupd b od (boards h2 (hn_Requested n)))\<rparr>
      in case heap_Difference (hn_Total n) (hn_Requested n) h3 of
           (h4, Inl e) \<Rightarrow> (h4, n, Some (TopoError e))
         | (h4, Inr newAllocatable) \<Rightarrow>
             (h4, n\<lparr>hn_Allocatable := newAllocatable, hn_Pods := fmupd (pod_UID pod) pod (hn_Pods n)\<rparr>, None))"

definition heap_addPod :: "HeapNode \<Rightarrow> Pod \<Rightarrow> heap \<Rightarrow> heap \<times> HeapNode \<times> cache_error option" where
  "heap_addPod n pod h =
     (case fmlookup (pod_Annotations pod) AnnotationPodBindToBoard of
        None \<Rightarrow> (h, n, None)
      | Some bindBoardIDStr \<Rightarrow>
          (case ParseInt bindBoardIDStr of
             None \<Rightarrow> (h, n, None)
           | Some b \<Rightarrow>
               (case (if has_key (hn_Pods n) (pod_UID pod) then heap_deletePod n pod h else (h, n, None)) of
                  (h1, n1, Some err) \<Rightarrow> (h1, n1, Some err)
                | (h1, n1, None) \<Rightarrow> heap_addPod_request n1 pod b h1)))"

definition heap_add_capacity :: "(string, int64) fmap \<Rightarrow> ref \<Rightarrow> string \<Rightarrow> heap \<Rightarrow> heap" where
  "heap_add_capacity capacity totals rkey h =
     (if HasPrefix rkey ExtendResouceTypeBoardPrefix
      then (case BoardIDFromResourceName rkey of
              None \<Rightarrow> h
            | Some b \<Rightarrow>
                (case snd (Parse (NewDecimalMap (map_get 0 capacity rkey) DefaultOrinStartBit)) of
                   Inl _ \<Rightarrow> h
                 | Inr orinSet \<Rightarrow>
                     (case heap_NewOrinDetails h of
                        (h1, od) \<Rightarrow> heap_board_Add totals b od (heap_AddAll od b orinSet h1))))
      else h)"

fun heap_add_pods :: "HeapNode \<Rightarrow> Pod list \<Rightarrow> heap \<Rightarrow> heap \<times> HeapNode" where
  "heap_add_pods n [] h = (h, n)"
| "heap_add_pods n (p # ps) h = (case heap_addPod n p h of (h1, n1, _) \<Rightarrow> heap_add_pods n1 ps h1)"

definition heap_NewNodeInfo :: "Node \<Rightarrow> Pod list \<Rightarrow> heap \<Rightarrow> heap \<times> HeapNode" where
  "heap_NewNodeInfo node pods h =
     (case heap_NewBoardDetails h of
        (h1, totals) \<Rightarrow>
          (case heap_NewBoardDetails (fold (heap_add_capacity (node_Capacity node) totals) (sorted_range (node_Capacity node)) h1) of
             (h2, requested) \<Rightarrow>
               heap_add_pods \<lparr>hn_Node = node, hn_Pods = fmempty, hn_Allocatable = totals,
                              hn_Requested = requested, hn_Total = totals\<rparr> pods h2))"

section \<open>Reading a node, and harmless sharing\<close>

definition node_at :: "heap \<Rightarrow> HeapNode \<Rightarrow> NodeInfo" where
  "node_at h n =
     \<lparr>ni_Node = hn_Node n, Pods = hn_Pods n, Allocatable = board_at h (hn_Allocatable n),
      Requested = board_at h (hn_Requested n), Total = board_at h (hn_Total n)\<rparr>"

lemma node_at_simps [simp]:
  "ni_Node (node_at h n) = hn_Node n" "Pods (node_at h n) = hn_Pods n"
  "Allocatable (node_at h n) = board_at h (hn_Allocatable n)"
  "Requested (node_at h n) = board_at h (hn_Requested n)" "Total (node_at h n) = board_at h (hn_Total n)"
  by (simp_all add: node_at_def)

definition inner :: "heap \<Rightarrow> ref \<Rightarrow> ref set" where
  "inner h d = {r. \<exists>b. fmlookup (boards h d) b = Some r}"

definition board_ok :: "heap \<Rightarrow> ref \<Rightarrow> bool" where
  "board_ok h d \<longleftrightarrow> d < next_ref h \<and> (\<forall>b r. fmlookup (boards h d) b = Some r \<longrightarrow> r < next_ref h) \<and>
     (\<forall>b c r. fmlookup (boards h d) b = Some r \<longrightarrow> fmlookup (boards h d) c = Some r \<longrightarrow> b = c)"

definition sharing_ok :: "heap \<Rightarrow> HeapNode \<Rightarrow> bool" where
  "sharing_ok h n \<longleftrightarrow>
     board_ok h (hn_Allocatable n) \<and> board_ok h (hn_Requested n) \<and> board_ok h (hn_Total n) \<and>
     hn_Requested n \<noteq> hn_Allocatable n \<and> hn_Requested n \<noteq> hn_Total n \<and>
     inner h (hn_Requested n) \<inter> (inner h (hn_Allocatable n) \<union> inner h (hn_Total n)) = {} \<and>
     (\<forall>u p. fmlookup (hn_Pods n) u = Some p \<longrightarrow>
        hn_Allocatable n \<noteq> hn_Total n \<and>
        (\<exists>b. bind_board p = Some b \<and> b |\<in>| fmdom (boards h (hn_Requested n)) \<and>
           (\<forall>r. fmlookup (boards h (hn_Allocatable n)) b = Some r \<longrightarrow> r \<notin> inner h (hn_Total n))))"

section \<open>Frames\<close>

definition extends :: "heap \<Rightarrow> heap \<Rightarrow> bool" where
  "extends h h' \<longleftrightarrow> next_ref h \<le> next_ref h' \<and>
     (\<forall>r < next_ref h. orins h' r = orins h r \<and> boards h' r = boards h r)"

lemma extends_refl [simp]: "extends h h"
  by (simp add: extends_def)

lemma extends_trans: "extends h h1 \<Longrightarrow> extends h1 h2 \<Longrightarrow> extends h h2"
  by (auto simp: extends_def)

lemma board_at_lookup [simp]: "fmlookup (board_at h d) b = map_option (orins h) (fmlookup (boards h d) b)"
  by (simp add: board_at_def)

lemma BoardSet_board_at [simp]: "BoardSet (board_at h d) = fmdom (boards h d)"
  by (simp add: BoardSet_def board_at_def)

lemma board_atI:
  "(\<And>b. fmlookup e b = map_option (orins h) (fmlookup (boards h d) b)) \<Longrightarrow> board_at h d = e"
  by (rule fmap_ext) simp

lemma innerI: "fmlookup (boards h d) b = Some r \<Longrightarrow> r \<in> inner h d"
  by (auto simp: inner_def)

lemma innerE:
  assumes "r \<in> inner h d"
  obtains b where "fmlookup (boards h d) b = Some r"
  using assms by (auto simp: inner_def)

lemma inner_same: "boards h' d = boards h d \<Longrightarrow> inner h' d = inner h d"
  by (simp add: inner_def)

lemma board_at_same:
  assumes "boards h' d = boards h d" "\<And>b r. fmlookup (boards h d) b = Some r \<Longrightarrow> orins h' r = orins h r"
  shows "board_at h' d = board_at h d"
proof (rule board_atI)
  fix b
  show "fmlookup (board_at h d) b = map_option (orins h') (fmlookup (boards h' d) b)"
    using assms by (cases "fmlookup (boards h d) b") simp_all
qed

lemma board_okD:
  assumes "board_ok h d"
  shows "d < next_ref h" and "fmlookup (boards h d) b = Some r \<Longrightarrow> r < next_ref h"
    and "fmlookup (boards h d) b = Some r \<Longrightarrow> fmlookup (boards h d) c = Some r \<Longrightarrow> b = c"
  using assms unfolding board_ok_def by blast+

lemma board_okI:
  assumes "d < next_ref h" "\<And>b r. fmlookup (boards h d) b = Some r \<Longrightarrow> r < next_ref h"
    "\<And>b c r. fmlookup (boards h d) b = Some r \<Longrightarrow> fmlookup (boards h d) c = Some r \<Longrightarrow> b = c"
  shows "board_ok h d"
  using assms unfolding board_ok_def by blast

lemma extendsD:
  assumes "extends h h'"
  shows "next_ref h \<le> next_ref h'" "r < next_ref h \<Longrightarrow> orins h' r = orins h r" "r < next_ref h \<Longrightarrow> boards h' r = boards h r"
  using assms unfolding extends_def by blast+

lemma board_ok_boards: "board_ok h d \<Longrightarrow> extends h h' \<Longrightarrow> boards h' d = boards h d"
  by (rule extendsD(3)) (auto dest: board_okD(1))

lemma board_at_extends: "board_ok h d \<Longrightarrow> extends h h' \<Longrightarrow> board_at h' d = board_at h d"
  by (rule board_at_same) (blast intro: board_ok_boards extendsD(2) board_okD(2))+

lemma inner_extends: "board_ok h d \<Longrightarrow> extends h h' \<Longrightarrow> inner h' d = inner h d"
  by (rule inner_same) (rule board_ok_boards)

lemma board_ok_extends:
  assumes "board_ok h d" "extends h h'"
  shows "board_ok h' d"
  using board_ok_boards [OF assms] board_okD [OF assms(1)] extendsD(1) [OF assms(2)]
  by (intro board_okI) (auto intro: order.strict_trans2)

lemma fresh_not_inner:
  assumes "board_ok h d" "next_ref h \<le> r"
  shows "r \<notin> inner h d"
  using board_okD(2) [OF assms(1)] assms(2) by (auto elim!: innerE dest: leD)

section \<open>Writes\<close>

lemma heap_AddAll_eq: "heap_AddAll d b S h = h\<lparr>orins := (orins h)(d := AddAll (orins h d) b S)\<rparr>"
proof -
  have "fold (\<lambda>o' h. heap_orin_Add d b o' h) os h =
      h\<lparr>orins := (orins h)(d := fold (\<lambda>o' m. OrinDetails_Add m b o') os (orins h d))\<rparr>" for os
    by (induction os arbitrary: h) (simp_all add: heap_orin_Add_def)
  then show ?thesis by (simp add: heap_AddAll_def AddAll_def)
qed

text \<open>Writing to an inner map changes the one board it is the map of.\<close>

lemma board_at_write:
  assumes "board_ok h d" "fmlookup (boards h d) b = Some r"
  shows "board_at (h\<lparr>orins := (orins h)(r := od)\<rparr>) d = fmupd b od (board_at h d)"
proof (rule board_atI)
  fix c
  show "fmlookup (fmupd b od (board_at h d)) c =
      map_option (orins (h\<lparr>orins := (orins h)(r := od)\<rparr>)) (fmlookup (boards (h\<lparr>orins := (orins h)(r := od)\<rparr>) d) c)"
  proof (cases "fmlookup (boards h d) c = Some r")
    case True
    then have "b = c" by (rule board_okD(3) [OF assms])
    with True show ?thesis by simp
  next
    case False
    then have "b \<noteq> c" using assms(2) by auto
    with False show ?thesis by (cases "fmlookup (boards h d) c") auto
  qed
qed

lemma board_at_write_other:
  assumes "r \<notin> inner h d"
  shows "board_at (h\<lparr>orins := (orins h)(r := od)\<rparr>) d = board_at h d"
  by (rule board_at_same) (use assms in \<open>auto dest: innerI\<close>)

lemma heap_board_Add_new:
  "fmlookup (boards h d) b = None \<Longrightarrow>
   heap_board_Add d b od h = h\<lparr>boards := (boards h)(d := fmupd b od (boards h d))\<rparr>"
  by (simp add: heap_board_Add_def)

lemma heap_board_Add_old:
  "fmlookup (boards h d) b = Some md \<Longrightarrow>
   heap_board_Add d b od h = h\<lparr>orins := (orins h)(md := orins h md ++\<^sub>f orins h od)\<rparr>"
  by (simp add: heap_board_Add_def)

lemma board_at_Add:
  assumes "board_ok h d"
  shows "board_at (heap_board_Add d b od h) d = BoardDetails_Add (board_at h d) b (orins h od)"
proof (cases "fmlookup (boards h d) b")
  case None
  then show ?thesis
    by (intro board_atI) (simp add: heap_board_Add_new BoardDetails_Add_def)
next
  case (Some md)
  then show ?thesis
    by (simp add: heap_board_Add_old board_at_write [OF assms] BoardDetails_Add_def)
qed

section \<open>DifferenceFromSuperset\<close>

lemma copy_fold:
  "distinct ms \<Longrightarrow> source \<noteq> md \<Longrightarrow> \<forall>m \<in> set ms. fmlookup (boards h md) m = None \<Longrightarrow>
   fold (\<lambda>m h. heap_board_Add md m (the (fmlookup (boards h source) m)) h) ms h =
     h\<lparr>boards := (boards h)(md := fold (\<lambda>m X. fmupd m (the (fmlookup (boards h source) m)) X) ms (boards h md))\<rparr>"
proof (induction ms arbitrary: h)
  case (Cons m ms)
  let ?h = "h\<lparr>boards := (boards h)(md := fmupd m (the (fmlookup (boards h source) m)) (boards h md))\<rparr>"
  have "heap_board_Add md m (the (fmlookup (boards h source) m)) h = ?h"
    using Cons.prems(3) by (simp add: heap_board_Add_new)
  moreover have "\<forall>c \<in> set ms. fmlookup (boards ?h md) c = None" using Cons.prems by auto
  ultimately show ?case using Cons.IH [of ?h] Cons.prems by (simp cong: if_cong)
qed simp

text \<open>What the loop over \<open>sub\<close> leaves: new inner maps for its boards, everything else as it was.\<close>

definition grown :: "ref \<Rightarrow> int set \<Rightarrow> heap \<Rightarrow> heap \<Rightarrow> bool" where
  "grown md bs h h' \<longleftrightarrow> next_ref h \<le> next_ref h' \<and> (\<forall>r < next_ref h. orins h' r = orins h r) \<and>
     (\<forall>r < next_ref h. r \<noteq> md \<longrightarrow> boards h' r = boards h r) \<and>
     (\<forall>b r. fmlookup (boards h' md) b = Some r \<longrightarrow>
        fmlookup (boards h md) b = Some r \<or> b \<in> bs \<and> next_ref h \<le> r \<and> r < next_ref h') \<and>
     (\<forall>b. b \<notin> bs \<longrightarrow> fmlookup (boards h' md) b = fmlookup (boards h md) b)"

lemma heap_diff_boards_spec:
  "heap_diff_boards source sub subs md h = (h', e) \<Longrightarrow> distinct subs \<Longrightarrow> board_ok h md \<Longrightarrow> board_ok h source \<Longrightarrow> board_ok h sub \<Longrightarrow>
   md \<noteq> source \<Longrightarrow> md \<noteq> sub \<Longrightarrow> \<forall>b \<in> set subs. fmlookup (boards h md) b = None \<Longrightarrow>
   grown md (set subs) h h' \<and> board_ok h' md \<and>
   diff_boards (board_at h source) (board_at h sub) subs (board_at h md) =
     (case e of None \<Rightarrow> Inr (board_at h' md) | Some err \<Rightarrow> Inl err)"
proof (induction subs arbitrary: h)
  case Nil
  then show ?case by (auto simp: grown_def)
next
  case (Cons b subs)
  let ?source = "OrinSet (board_orins (board_at h source) b)" and ?sub = "OrinSet (board_orins (board_at h sub) b)"
  show ?case
  proof (cases "?sub |\<subseteq>| ?source")
    case False
    with Cons.prems show ?thesis by (auto simp: Let_def grown_def)
  next
    case True
    let ?n = "next_ref h" and ?od = "AddAll fmempty b (?source |-| ?sub)"
    let ?h = "h\<lparr>next_ref := Suc ?n, orins := (orins h)(?n := ?od), boards := (boards h)(md := fmupd b ?n (boards h md))\<rparr>"
    have none: "fmlookup (boards h md) b = None" using Cons.prems by simp
    have mdn: "md \<noteq> ?n" using board_okD(1) [OF Cons.prems(3)] by simp
    have step: "heap_diff_boards source sub (b # subs) md h = heap_diff_boards source sub subs md ?h"
      using True none mdn by (simp add: Let_def heap_NewOrinDetails_def heap_AddAll_eq heap_board_Add_new)
    have old: "fmlookup (boards h d) c = Some r \<Longrightarrow> r \<noteq> ?n \<and> r < Suc ?n" if "board_ok h d" for d c r
      using board_okD(2) [OF that, of c r] by auto
    have same: "board_at ?h d = board_at h d" if "board_ok h d" "d \<noteq> md" for d
      by (rule board_at_same) (use that old [OF that(1)] in auto)
    have md: "board_at ?h md = BoardDetails_Add (board_at h md) b ?od"
    proof (rule board_atI)
      fix c
      show "fmlookup (BoardDetails_Add (board_at h md) b ?od) c = map_option (orins ?h) (fmlookup (boards ?h md) c)"
        using none old [OF Cons.prems(3), of c] by (cases "fmlookup (boards h md) c") (auto simp: BoardDetails_Add_def)
    qed
    have ok: "board_ok ?h md"
    proof (rule board_okI)
      fix c d r
      assume "fmlookup (boards ?h md) c = Some r" "fmlookup (boards ?h md) d = Some r"
      then show "c = d"
        using old [OF Cons.prems(3), of c] old [OF Cons.prems(3), of d] board_okD(3) [OF Cons.prems(3), of c r d]
        by (auto split: if_splits)
    qed (use old [OF Cons.prems(3)] board_okD(1) [OF Cons.prems(3)] in \<open>auto split: if_splits\<close>)
    have oks: "board_ok ?h d" if "board_ok h d" "d \<noteq> md" for d
      by (rule board_okI) (use that old [OF that(1)] board_okD [OF that(1)] in \<open>auto simp: less_Suc_eq\<close>)
    have IH: "grown md (set subs) ?h h' \<and> board_ok h' md \<and>
        diff_boards (board_at ?h source) (board_at ?h sub) subs (board_at ?h md) =
          (case e of None \<Rightarrow> Inr (board_at h' md) | Some err \<Rightarrow> Inl err)"
      by (rule Cons.IH) (use Cons.prems step ok oks in auto)
    have g: "grown md (set subs) ?h h'" using IH by blast
    have nxt: "Suc ?n \<le> next_ref h'" using g by (simp add: grown_def)
    have "grown md (set (b # subs)) h h'"
      unfolding grown_def
    proof (intro conjI allI impI)
      fix c r
      assume "fmlookup (boards h' md) c = Some r"
      then have "fmlookup (boards ?h md) c = Some r \<or> c \<in> set subs \<and> Suc ?n \<le> r \<and> r < next_ref h'"
        using g unfolding grown_def by simp
      then show "fmlookup (boards h md) c = Some r \<or> c \<in> set (b # subs) \<and> ?n \<le> r \<and> r < next_ref h'"
        using nxt by (auto split: if_splits)
    next
      fix c
      assume "c \<notin> set (b # subs)"
      then show "fmlookup (boards h' md) c = fmlookup (boards h md) c"
        using g unfolding grown_def by simp
    qed (use g mdn in \<open>auto simp: grown_def\<close>)
    moreover have "diff_boards (board_at h source) (board_at h sub) (b # subs) (board_at h md) =
        diff_boards (board_at ?h source) (board_at ?h sub) subs (board_at ?h md)"
      using True md same Cons.prems by (simp add: Let_def)
    ultimately show ?thesis using IH by simp
  qed
qed

definition shares_outside :: "heap \<Rightarrow> ref \<Rightarrow> ref \<Rightarrow> heap \<Rightarrow> ref \<Rightarrow> bool" where
  "shares_outside h source sub h' md \<longleftrightarrow> board_ok h' md \<and> next_ref h \<le> md \<and>
     (\<forall>b r. fmlookup (boards h' md) b = Some r \<longrightarrow>
        (if b |\<in>| fmdom (boards h sub) then next_ref h \<le> r else fmlookup (boards h source) b = Some r))"

text \<open>
  \<open>DifferenceFromSuperset\<close> on the heap: the value result, in a new outer map whose inner maps
  are new for the boards of \<open>sub\<close> and the receiver's own for the others; no old map changes.
\<close>

lemma heap_Difference_spec:
  assumes run: "heap_Difference source sub h = (h', res)" and ok: "board_ok h source" "board_ok h sub"
  shows "extends h h' \<and>
     (case res of
        Inl e \<Rightarrow> DifferenceFromSuperset (board_at h source) (board_at h sub) = Inl e
      | Inr md \<Rightarrow> DifferenceFromSuperset (board_at h source) (board_at h sub) = Inr (board_at h' md) \<and>
                  shares_outside h source sub h' md)"
proof (cases "fmdom (boards h sub) |\<subseteq>| fmdom (boards h source)")
  case False
  then have "h' = h" "res = Inl BoardNotSuperset"
    using run by (simp_all add: heap_Difference_def Let_def)
  then show ?thesis using False by (simp add: DifferenceFromSuperset_def Let_def)
next
  case sub: True
  let ?n = "next_ref h" and ?ms = "sorted_list_of_fset (fmdom (boards h source) |-| fmdom (boards h sub))"
  let ?h1 = "h\<lparr>boards := (boards h)(?n := fmempty), next_ref := Suc ?n\<rparr>"
  let ?X = "fold (\<lambda>m X. fmupd m (the (fmlookup (boards h source) m)) X) ?ms fmempty"
  let ?h2 = "?h1\<lparr>boards := (boards ?h1)(?n := ?X)\<rparr>"
  have ne: "source \<noteq> ?n" "sub \<noteq> ?n" using board_okD(1) [OF ok(1)] board_okD(1) [OF ok(2)] by simp_all
  have ms: "set ?ms = fset (fmdom (boards h source) |-| fmdom (boards h sub))" "distinct ?ms"
    by (simp_all add: sorted_list_of_fset.rep_eq)
  have X: "fmlookup ?X c = (if c |\<in>| fmdom (boards h sub) then None else fmlookup (boards h source) c)" for c
    by (cases "fmlookup (boards h source) c") (auto simp: fold_fmupd_lookup ms fmlookup_dom_iff)
  have copy: "fold (\<lambda>m h. heap_board_Add ?n m (the (fmlookup (boards h source) m)) h) ?ms ?h1 = ?h2"
    using ne ms(2) by (subst copy_fold) simp_all
  obtain e where diff: "heap_diff_boards source sub (sorted_range (boards h sub)) ?n ?h2 = (h', e)"
    and res: "res = (case e of None \<Rightarrow> Inr ?n | Some err \<Rightarrow> Inl err)"
    using run sub copy
    by (auto simp: heap_Difference_def Let_def heap_NewBoardDetails_def split: prod.splits option.splits)
  have ext2: "extends h ?h2" by (simp add: extends_def)
  have at2: "board_at ?h2 source = board_at h source" "board_at ?h2 sub = board_at h sub"
    using board_at_extends [OF ok(1) ext2] board_at_extends [OF ok(2) ext2] .
  have ok2: "board_ok ?h2 source" "board_ok ?h2 sub"
    using board_ok_extends [OF ok(1) ext2] board_ok_extends [OF ok(2) ext2] .
  have md: "board_ok ?h2 ?n"
  proof (rule board_okI)
    fix b r assume "fmlookup (boards ?h2 ?n) b = Some r"
    then show "r < next_ref ?h2" using board_okD(2) [OF ok(1), of b r] by (simp add: X split: if_splits)
  next
    fix b c r assume "fmlookup (boards ?h2 ?n) b = Some r" "fmlookup (boards ?h2 ?n) c = Some r"
    then show "b = c" using board_okD(3) [OF ok(1), of b r c] by (simp add: X split: if_splits)
  qed simp
  let ?copied = "fold (\<lambda>m md. BoardDetails_Add md m (board_orins (board_at h source) m)) ?ms NewBoardDetails"
  have copied: "board_at ?h2 ?n = ?copied"
  proof (rule board_atI)
    fix c
    have "fmlookup ?copied c = (if c \<in> set ?ms then Some (board_orins (board_at h source) c) else None)"
      using ms(2) by (simp add: copy_boards_lookup BoardSet_def)
    then show "fmlookup ?copied c = map_option (orins ?h2) (fmlookup (boards ?h2 ?n) c)"
      by (cases "fmlookup (boards h source) c") (auto simp: X ms map_get_def fmlookup_dom_iff)
  qed
  have range: "sorted_range (board_at h sub) = sorted_range (boards h sub)" "distinct (sorted_range (boards h sub))"
    by (simp_all add: sorted_range_def board_at_def sorted_list_of_fset.rep_eq)
  have absent: "\<forall>b \<in> set (sorted_range (boards h sub)). fmlookup (boards ?h2 ?n) b = None"
    by (simp add: X set_sorted_range)
  have spec: "grown ?n (set (sorted_range (boards h sub))) ?h2 h'" "board_ok h' ?n"
    "diff_boards (board_at h source) (board_at h sub) (sorted_range (boards h sub)) ?copied =
       (case e of None \<Rightarrow> Inr (board_at h' ?n) | Some err \<Rightarrow> Inl err)"
    using heap_diff_boards_spec [OF diff range(2) md ok2 ne(1) [symmetric] ne(2) [symmetric] absent] at2 copied by simp_all
  have ext: "extends h h'"
    using spec(1) by (auto simp: grown_def extends_def)
  have functional: "DifferenceFromSuperset (board_at h source) (board_at h sub) =
      (case e of None \<Rightarrow> Inr (board_at h' ?n) | Some err \<Rightarrow> Inl err)"
    using sub spec(3) by (simp add: DifferenceFromSuperset_def Let_def range(1))
  have "shares_outside h source sub h' ?n"
    unfolding shares_outside_def
  proof (intro conjI allI impI)
    fix b r
    assume "fmlookup (boards h' ?n) b = Some r"
    then have "fmlookup (boards ?h2 ?n) b = Some r \<or> b \<in> set (sorted_range (boards h sub)) \<and> Suc ?n \<le> r"
      using spec(1) unfolding grown_def by auto
    moreover have "fmlookup (boards ?h2 ?n) b = fmlookup ?X b" by simp
    ultimately show "if b |\<in>| fmdom (boards h sub) then ?n \<le> r else fmlookup (boards h source) b = Some r"
      unfolding X by (auto simp: set_sorted_range split: if_splits)
  qed (use spec(2) in simp_all)
  with ext functional res show ?thesis by (cases e) simp_all
qed

section \<open>Nodes\<close>

lemma sharing_okD:
  assumes "sharing_ok h n"
  shows "board_ok h (hn_Allocatable n)" "board_ok h (hn_Requested n)" "board_ok h (hn_Total n)"
    "hn_Requested n \<noteq> hn_Allocatable n" "hn_Requested n \<noteq> hn_Total n"
    "inner h (hn_Requested n) \<inter> (inner h (hn_Allocatable n) \<union> inner h (hn_Total n)) = {}"
  using assms by (simp_all add: sharing_ok_def)

lemma sharing_ok_pod:
  assumes "sharing_ok h n" "fmlookup (hn_Pods n) u = Some p"
  obtains b where "hn_Allocatable n \<noteq> hn_Total n" "bind_board p = Some b"
    "b |\<in>| fmdom (boards h (hn_Requested n))"
    "\<And>r. fmlookup (boards h (hn_Allocatable n)) b = Some r \<Longrightarrow> r \<notin> inner h (hn_Total n)"
  using assms unfolding sharing_ok_def by blast

lemma node_at_extends: "sharing_ok h n \<Longrightarrow> extends h h' \<Longrightarrow> node_at h' n = node_at h n"
  by (simp add: node_at_def sharing_okD board_at_extends [of h _ h'])

lemma sharing_ok_extends:
  assumes "sharing_ok h n" "extends h h'"
  shows "sharing_ok h' n"
proof -
  note ok = sharing_okD [OF assms(1)]
  note same = board_ok_boards [OF ok(1) assms(2)] board_ok_boards [OF ok(2) assms(2)] board_ok_boards [OF ok(3) assms(2)]
  note inn = inner_extends [OF ok(1) assms(2)] inner_extends [OF ok(2) assms(2)] inner_extends [OF ok(3) assms(2)]
  note oks = board_ok_extends [OF ok(1) assms(2)] board_ok_extends [OF ok(2) assms(2)] board_ok_extends [OF ok(3) assms(2)]
  show ?thesis using assms(1) oks unfolding sharing_ok_def same inn by blast
qed

text \<open>A new outer map with one new inner map, as \<open>deletePod\<close> builds it.\<close>

definition with_release :: "heap \<Rightarrow> int \<Rightarrow> int fset \<Rightarrow> heap" where
  "with_release h b S =
     h\<lparr>orins := (orins h)(next_ref h := AddAll fmempty b S),
       boards := (boards h)(Suc (next_ref h) := fmupd b (next_ref h) fmempty),
       next_ref := Suc (Suc (next_ref h))\<rparr>"

lemma with_release_facts:
  "extends h (with_release h b S)" "board_ok (with_release h b S) (Suc (next_ref h))"
  "board_at (with_release h b S) (Suc (next_ref h)) = fmupd b (AddAll fmempty b S) fmempty"
  "fmdom (boards (with_release h b S) (Suc (next_ref h))) = {|b|}"
  "orins (with_release h b S) (next_ref h) = AddAll fmempty b S"
  "next_ref (with_release h b S) = Suc (Suc (next_ref h))"
  by (auto simp: with_release_def extends_def intro!: board_okI board_atI split: if_splits)

lemma heap_deletePod_unfold:
  assumes "bind_board pod = Some b" "has_key (hn_Pods n) (pod_UID pod)"
  shows "heap_deletePod n pod h =
     (case heap_Difference (hn_Requested n) (Suc (next_ref h)) (with_release h b (BuildRequestOrinSet pod)) of
        (h3, Inl e) \<Rightarrow> (h3, n, Some (TopoError e))
      | (h3, Inr newRequest) \<Rightarrow>
          (heap_board_Add (hn_Allocatable n) b (next_ref h) h3,
           n\<lparr>hn_Requested := newRequest, hn_Pods := fmdrop (pod_UID pod) (hn_Pods n)\<rparr>, None))"
proof -
  obtain str where str: "fmlookup (pod_Annotations pod) AnnotationPodBindToBoard = Some str" "ParseInt str = Some b"
    using assms(1) by (auto simp: bind_board_Some)
  obtain h1 h2 where "heap_NewOrinDetails h = (h1, next_ref h)"
    "heap_NewBoardDetails (heap_AddAll (next_ref h) b (BuildRequestOrinSet pod) h1) = (h2, Suc (next_ref h))"
    "heap_board_Add (Suc (next_ref h)) b (next_ref h) h2 = with_release h b (BuildRequestOrinSet pod)"
    by (simp add: heap_NewBoardDetails_def heap_NewOrinDetails_def heap_AddAll_eq heap_board_Add_def with_release_def)
  then show ?thesis
    using assms(2) str by (simp add: heap_deletePod_def)
qed

text \<open>The effect of \<open>Allocatable.Add\<close> when the inner map it may write to is its own.\<close>

lemma heap_board_Add_frame:
  assumes d: "board_ok h d" and e: "board_ok h e" "d \<noteq> e"
    and own: "\<And>r. fmlookup (boards h d) b = Some r \<Longrightarrow> r \<notin> inner h e"
  shows "board_at (heap_board_Add d b od h) e = board_at h e" "boards (heap_board_Add d b od h) e = boards h e"
proof -
  show "board_at (heap_board_Add d b od h) e = board_at h e"
  proof (cases "fmlookup (boards h d) b")
    case None
    then show ?thesis using e(2) by (intro board_at_same) (simp_all add: heap_board_Add_new)
  next
    case (Some r)
    then show ?thesis by (simp add: heap_board_Add_old board_at_write_other own)
  qed
  show "boards (heap_board_Add d b od h) e = boards h e"
    using e(2) by (simp add: heap_board_Add_def split: option.split)
qed

lemma heap_board_Add_boards:
  "boards (heap_board_Add d b od h) d =
     (if fmlookup (boards h d) b = None then fmupd b od (boards h d) else boards h d)"
  "next_ref (heap_board_Add d b od h) = next_ref h"
  by (auto simp: heap_board_Add_def split: option.split)

lemma board_ok_Add:
  assumes "board_ok h d" "od < next_ref h" "od \<notin> inner h d"
  shows "board_ok (heap_board_Add d b od h) d"
proof (rule board_okI)
  fix c r assume "fmlookup (boards (heap_board_Add d b od h) d) c = Some r"
  then show "r < next_ref (heap_board_Add d b od h)"
    using board_okD(2) [OF assms(1), of c r] assms(2) by (auto simp: heap_board_Add_boards split: if_splits)
next
  fix c e r
  assume "fmlookup (boards (heap_board_Add d b od h) d) c = Some r" "fmlookup (boards (heap_board_Add d b od h) d) e = Some r"
  then show "c = e"
    using board_okD(3) [OF assms(1), of c r e] assms(3) by (auto simp: heap_board_Add_boards innerI split: if_splits)
qed (use board_okD(1) [OF assms(1)] in \<open>simp add: heap_board_Add_boards\<close>)

lemma board_ok_same: "board_ok h e \<Longrightarrow> boards h' e = boards h e \<Longrightarrow> next_ref h \<le> next_ref h' \<Longrightarrow> board_ok h' e"
  by (intro board_okI) (auto dest: board_okD)

section \<open>deletePod\<close>

definition consistent :: "HeapNode \<Rightarrow> Pod \<Rightarrow> bool" where
  "consistent n pod \<longleftrightarrow>
     (case fmlookup (hn_Pods n) (pod_UID pod) of None \<Rightarrow> True | Some p \<Rightarrow> bind_board pod = bind_board p)"

lemma shares_outside_inner:
  assumes "shares_outside h source sub h' md" "r \<in> inner h' md"
  shows "next_ref h \<le> r \<or> r \<in> inner h source"
proof -
  from assms(2) obtain b where "fmlookup (boards h' md) b = Some r" by (rule innerE)
  with assms(1) have "if b |\<in>| fmdom (boards h sub) then next_ref h \<le> r else fmlookup (boards h source) b = Some r"
    unfolding shares_outside_def by blast
  then show ?thesis by (auto split: if_splits dest: innerI)
qed

text \<open>A node whose \<open>Requested\<close> is a new map and whose \<open>Allocatable\<close> got the released orins.\<close>

lemma released_node:
  assumes ok: "sharing_ok h n" and ext: "extends h h3" and md: "board_ok h3 md" "next_ref h \<le> md"
    and md_inner: "\<And>r. r \<in> inner h3 md \<Longrightarrow> r \<in> inner h (hn_Requested n) \<or> need < r"
    and dom: "fmdom (boards h3 md) = fmdom (boards h (hn_Requested n))"
    and need: "next_ref h \<le> need" "need < next_ref h3"
    and own: "hn_Allocatable n \<noteq> hn_Total n"
      "\<And>r. fmlookup (boards h (hn_Allocatable n)) b = Some r \<Longrightarrow> r \<notin> inner h (hn_Total n)"
    and h': "h' = heap_board_Add (hn_Allocatable n) b need h3"
    and n': "n' = n\<lparr>hn_Requested := md, hn_Pods := fmdrop u (hn_Pods n)\<rparr>"
  shows "sharing_ok h' n' \<and> board_at h' (hn_Total n) = board_at h (hn_Total n) \<and> board_at h' md = board_at h3 md \<and>
     board_at h' (hn_Allocatable n) = BoardDetails_Add (board_at h (hn_Allocatable n)) b (orins h3 need)"
proof -
  let ?A = "hn_Allocatable n" and ?T = "hn_Total n" and ?R = "hn_Requested n"
  note okD = sharing_okD [OF ok]
  have A: "board_ok h3 ?A" and T: "board_ok h3 ?T" by (simp_all add: board_ok_extends [OF okD(1) ext] board_ok_extends [OF okD(3) ext])
  have bA: "boards h3 ?A = boards h ?A" and bT: "boards h3 ?T = boards h ?T"
    by (simp_all add: board_ok_boards [OF okD(1) ext] board_ok_boards [OF okD(3) ext])
  have iA: "inner h3 ?A = inner h ?A" and iT: "inner h3 ?T = inner h ?T"
    by (simp_all add: inner_extends [OF okD(1) ext] inner_extends [OF okD(3) ext])
  have old: "r < next_ref h" if "r \<in> inner h ?A \<union> inner h ?T \<union> inner h ?R" for r
    using that okD(1-3) board_okD(2) by (auto elim!: innerE)
  have ne: "?A \<noteq> md" "?T \<noteq> md" using board_okD(1) [OF okD(1)] board_okD(1) [OF okD(3)] md(2) by auto
  have need_new: "need \<notin> inner h ?A \<union> inner h ?T" "need \<notin> inner h3 md"
    using old need(1) md_inner [of need] by (auto dest: leD)
  have A_md: "r \<notin> inner h3 md" if "fmlookup (boards h3 ?A) b = Some r" for r
  proof
    assume "r \<in> inner h3 md"
    moreover have rA: "r \<in> inner h ?A" using that by (simp add: bA innerI)
    moreover have "r < need" using old [of r] rA need(1) by auto
    ultimately show False using md_inner [of r] okD(6) by auto
  qed
  have A_T: "r \<notin> inner h3 ?T" if "fmlookup (boards h3 ?A) b = Some r" for r
    using own(2) that by (simp add: bA iT)
  note frT = heap_board_Add_frame [OF A T own(1) A_T, where od = need]
  note frM = heap_board_Add_frame [OF A md(1) ne(1) A_md, where od = need]
  have at: "board_at h' ?A = BoardDetails_Add (board_at h ?A) b (orins h3 need)"
    using board_at_Add [OF A] board_at_extends [OF okD(1) ext] by (simp add: h')
  have atT: "board_at h' ?T = board_at h ?T" "boards h' ?T = boards h ?T"
    using frT board_at_extends [OF okD(3) ext] by (simp_all add: h' bT)
  have atM: "board_at h' md = board_at h3 md" "boards h' md = boards h3 md" using frM by (simp_all add: h')
  have nx: "next_ref h3 \<le> next_ref h'" by (simp add: h' heap_board_Add_boards)
  have okA: "board_ok h' ?A" unfolding h' by (rule board_ok_Add [OF A need(2)]) (use need_new iA in blast)
  have okT: "board_ok h' ?T" by (rule board_ok_same [OF T _ nx]) (simp add: atT bT)
  have okM: "board_ok h' md" by (rule board_ok_same [OF md(1) atM(2) nx])
  have iT': "inner h' ?T = inner h ?T" and iM': "inner h' md = inner h3 md"
    using inner_same atT(2) atM(2) by blast+
  have lookA: "fmlookup (boards h' ?A) c = Some r \<Longrightarrow> fmlookup (boards h ?A) c = Some r \<or> r = need" for c r
    by (auto simp: h' heap_board_Add_boards bA split: if_splits)
  have iA': "inner h' ?A \<subseteq> insert need (inner h ?A)"
    using lookA by (auto elim!: innerE dest: innerI)
  have disj: "inner h' md \<inter> (inner h' ?A \<union> inner h' ?T) = {}"
  proof -
    have "r \<notin> inner h ?A \<union> inner h ?T \<union> {need}" if "r \<in> inner h3 md" for r
      using md_inner [OF that] okD(6) need_new(2) that old [of r] need(1) by auto
    then show ?thesis using iA' unfolding iM' iT' by blast
  qed
  have pods: "?A \<noteq> ?T \<and> (\<exists>b. bind_board p = Some b \<and> b |\<in>| fmdom (boards h' md) \<and>
      (\<forall>r. fmlookup (boards h' ?A) b = Some r \<longrightarrow> r \<notin> inner h' ?T))"
    if "fmlookup (fmdrop u (hn_Pods n)) v = Some p" for v p
  proof -
    have "fmlookup (hn_Pods n) v = Some p" using that by (auto split: if_splits)
    then obtain c where c: "bind_board p = Some c" "c |\<in>| fmdom (boards h ?R)"
      "\<And>r. fmlookup (boards h ?A) c = Some r \<Longrightarrow> r \<notin> inner h ?T"
      using sharing_ok_pod [OF ok] by metis
    have "r \<notin> inner h' ?T" if "fmlookup (boards h' ?A) c = Some r" for r
      using lookA [OF that] c(3) need_new(1) by (auto simp: iT')
    then show ?thesis using c(1,2) own(1) dom atM(2) by auto
  qed
  have "sharing_ok h' n'"
    unfolding sharing_ok_def n' using okA okT okM ne disj pods by auto
  then show ?thesis using at atT(1) atM(1) by simp
qed

lemma bind_board_cases:
  "fmlookup (pod_Annotations pod) AnnotationPodBindToBoard = Some str \<Longrightarrow> bind_board pod = ParseInt str"
  by (simp add: bind_board_def)

lemma heap_deletePod_refines:
  assumes ok: "sharing_ok h n" and cons: "consistent n pod" and run: "heap_deletePod n pod h = (h', n', e)"
  shows "NodeInfo_deletePod (node_at h n) pod = (node_at h' n', e) \<and> sharing_ok h' n' \<and>
     hn_Total n' = hn_Total n \<and> board_at h' (hn_Total n) = board_at h (hn_Total n) \<and> next_ref h \<le> next_ref h' \<and>
     (e = None \<longrightarrow> bind_board pod \<noteq> None \<longrightarrow> \<not> has_key (hn_Pods n') (pod_UID pod))"
proof (cases "bind_board pod")
  case None
  then have "h' = h" "n' = n" "NodeInfo_deletePod (node_at h n) pod = (node_at h n, e)"
    using run by (auto simp: heap_deletePod_def NodeInfo_deletePod_def node_at_def bind_board_cases
        split: option.splits if_splits)
  then show ?thesis using ok None by simp
next
  case b: (Some b)
  then obtain str where str: "fmlookup (pod_Annotations pod) AnnotationPodBindToBoard = Some str"
    by (auto simp: bind_board_Some)
  show ?thesis
  proof (cases "has_key (hn_Pods n) (pod_UID pod)")
    case False
    then have "h' = h" "n' = n" "NodeInfo_deletePod (node_at h n) pod = (node_at h n, e)"
      using run str by (auto simp: heap_deletePod_def NodeInfo_deletePod_def node_at_def)
    moreover have "e \<noteq> None" using run str False by (auto simp: heap_deletePod_def)
    ultimately show ?thesis using ok by auto
  next
    case key: True
    then obtain p where p: "fmlookup (hn_Pods n) (pod_UID pod) = Some p" by (auto simp: has_key_def)
    let ?S = "BuildRequestOrinSet pod" and ?N = "Suc (next_ref h)"
    let ?hw = "with_release h b ?S"
    note w = with_release_facts [of h b ?S]
    obtain h3 res where diff: "heap_Difference (hn_Requested n) ?N ?hw = (h3, res)" by fastforce
    note okD = sharing_okD [OF ok]
    have spec: "extends ?hw h3"
      "case res of Inl err \<Rightarrow> DifferenceFromSuperset (board_at ?hw (hn_Requested n)) (board_at ?hw ?N) = Inl err
       | Inr md \<Rightarrow> DifferenceFromSuperset (board_at ?hw (hn_Requested n)) (board_at ?hw ?N) = Inr (board_at h3 md) \<and>
           shares_outside ?hw (hn_Requested n) ?N h3 md"
      using heap_Difference_spec [OF diff board_ok_extends [OF okD(2) w(1)] w(2)] by simp_all
    have ext: "extends h h3" by (rule extends_trans [OF w(1) spec(1)])
    have args: "board_at ?hw (hn_Requested n) = board_at h (hn_Requested n)" "board_at ?hw ?N = release_of pod b"
      using board_at_extends [OF okD(2) w(1)] w(3) by (simp_all add: release_of_def)
    have unf: "heap_deletePod n pod h =
       (case res of Inl e \<Rightarrow> (h3, n, Some (TopoError e))
        | Inr newRequest \<Rightarrow> (heap_board_Add (hn_Allocatable n) b (next_ref h) h3,
             n\<lparr>hn_Requested := newRequest, hn_Pods := fmdrop (pod_UID pod) (hn_Pods n)\<rparr>, None))"
      using heap_deletePod_unfold [OF b key, of h] diff by simp
    have funct: "NodeInfo_deletePod (node_at h n) pod =
       (case DifferenceFromSuperset (board_at h (hn_Requested n)) (release_of pod b) of
          Inl e \<Rightarrow> (node_at h n, Some (TopoError e))
        | Inr newRequest \<Rightarrow>
            ((node_at h n)\<lparr>Requested := newRequest,
               Allocatable := BoardDetails_Add (board_at h (hn_Allocatable n)) b (AddAll fmempty b ?S),
               Pods := fmdrop (pod_UID pod) (hn_Pods n)\<rparr>, None))"
    proof -
      have "ParseInt str = Some b" using b str by (simp add: bind_board_cases)
      moreover have "BoardDetails_Add NewBoardDetails b (AddAll NewOrinDetails b ?S) = release_of pod b"
        by (simp add: BoardDetails_Add_def release_of_def)
      ultimately show ?thesis using str key by (simp add: NodeInfo_deletePod_def split: sum.split)
    qed
    show ?thesis
    proof (cases res)
      case (Inl err)
      then have "h' = h3" "n' = n" "e = Some (TopoError err)" using run unf by simp_all
      moreover have "NodeInfo_deletePod (node_at h n) pod = (node_at h n, e)"
        using funct spec(2) args Inl calculation(3) by simp
      ultimately show ?thesis
        using node_at_extends [OF ok ext] sharing_ok_extends [OF ok ext] board_at_extends [OF okD(3) ext] extendsD(1) [OF ext]
        by simp
    next
      case (Inr md)
      have e: "e = None" and h': "h' = heap_board_Add (hn_Allocatable n) b (next_ref h) h3"
        and n': "n' = n\<lparr>hn_Requested := md, hn_Pods := fmdrop (pod_UID pod) (hn_Pods n)\<rparr>"
        using run unf Inr by simp_all
      have d: "DifferenceFromSuperset (board_at h (hn_Requested n)) (release_of pod b) = Inr (board_at h3 md)"
        and sh: "shares_outside ?hw (hn_Requested n) ?N h3 md"
        using spec(2) Inr args by simp_all
      have need: "orins h3 (next_ref h) = AddAll fmempty b ?S"
        using extendsD(2) [OF spec(1), of "next_ref h"] w(5,6) by simp
      have md: "board_ok h3 md" "next_ref h \<le> md" using sh w(6) by (simp_all add: shares_outside_def)
      have inn: "r \<in> inner h (hn_Requested n) \<or> next_ref h < r" if "r \<in> inner h3 md" for r
        using shares_outside_inner [OF sh that] unfolding inner_extends [OF okD(2) w(1)] w(6) by linarith
      have dom: "fmdom (boards h3 md) = fmdom (boards h (hn_Requested n))"
      proof -
        have "board_at h3 md = board_minus (board_at h (hn_Requested n)) (release_of pod b)"
          using d by (simp add: DifferenceFromSuperset_Inr_iff)
        then have "BoardSet (board_at h3 md) = BoardSet (board_at h (hn_Requested n))" by simp
        then show ?thesis by simp
      qed
      have lt: "next_ref h < next_ref h3" using extendsD(1) [OF spec(1)] w(6) by simp
      obtain c where c: "hn_Allocatable n \<noteq> hn_Total n" "bind_board p = Some c"
        "\<And>r. fmlookup (boards h (hn_Allocatable n)) c = Some r \<Longrightarrow> r \<notin> inner h (hn_Total n)"
        using sharing_ok_pod [OF ok p] by metis
      have "c = b" using cons p b c(2) by (simp add: consistent_def)
      with c(3) have own: "\<And>r. fmlookup (boards h (hn_Allocatable n)) b = Some r \<Longrightarrow> r \<notin> inner h (hn_Total n)" by simp
      note rel = released_node [OF ok ext md inn dom order.refl lt c(1) own h' n']
      have "node_at h' n' = (node_at h n)\<lparr>Requested := board_at h3 md,
               Allocatable := BoardDetails_Add (board_at h (hn_Allocatable n)) b (AddAll fmempty b ?S),
               Pods := fmdrop (pod_UID pod) (hn_Pods n)\<rparr>"
        using rel by (simp add: node_at_def n' need)
      then have "NodeInfo_deletePod (node_at h n) pod = (node_at h' n', e)"
        unfolding funct d e by simp
      moreover have "next_ref h \<le> next_ref h'" using lt by (simp add: h' heap_board_Add_boards)
      ultimately show ?thesis using rel by (simp add: n')
    qed
  qed
qed

section \<open>addPod\<close>

text \<open>The write of the request into \<open>Requested\<close>, in place when the board is there already.\<close>

definition with_request :: "heap \<Rightarrow> ref \<Rightarrow> int \<Rightarrow> int fset \<Rightarrow> heap" where
  "with_request h d b S =
     (case fmlookup (boards h d) b of
        Some od \<Rightarrow> h\<lparr>orins := (orins h)(od := AddAll (orins h od) b S), boards := (boards h)(d := fmupd b od (boards h d))\<rparr>
      | None \<Rightarrow> h\<lparr>next_ref := Suc (next_ref h), orins := (orins h)(next_ref h := AddAll fmempty b S),
                   boards := (boards h)(d := fmupd b (next_ref h) (boards h d))\<rparr>)"

lemma heap_addPod_request_unfold:
  "heap_addPod_request n pod b h =
     (case heap_Difference (hn_Total n) (hn_Requested n) (with_request h (hn_Requested n) b (BuildRequestOrinSet pod)) of
        (h4, Inl e) \<Rightarrow> (h4, n, Some (TopoError e))
      | (h4, Inr newAllocatable) \<Rightarrow>
          (h4, n\<lparr>hn_Allocatable := newAllocatable, hn_Pods := fmupd (pod_UID pod) pod (hn_Pods n)\<rparr>, None))"
  by (simp add: heap_addPod_request_def with_request_def heap_NewOrinDetails_def heap_AddAll_eq Let_def split: option.split)

lemma with_request_node:
  assumes ok: "sharing_ok h n"
  fixes b S
  defines "h3 \<equiv> with_request h (hn_Requested n) b S"
  shows "board_at h3 (hn_Requested n) = fmupd b (AddAll (board_orins (board_at h (hn_Requested n)) b) b S) (board_at h (hn_Requested n))"
    and "board_at h3 (hn_Allocatable n) = board_at h (hn_Allocatable n)"
    and "board_at h3 (hn_Total n) = board_at h (hn_Total n)"
    and "sharing_ok h3 n" and "next_ref h \<le> next_ref h3"
    and "fmdom (boards h3 (hn_Requested n)) = finsert b (fmdom (boards h (hn_Requested n)))"
proof -
  let ?A = "hn_Allocatable n" and ?T = "hn_Total n" and ?R = "hn_Requested n"
  note okD = sharing_okD [OF ok]
  obtain od where od: "boards h3 = (boards h)(?R := fmupd b od (boards h ?R))"
    "orins h3 = (orins h)(od := AddAll (board_orins (board_at h ?R) b) b S)"
    "next_ref h \<le> next_ref h3" "od < next_ref h3"
    "fmlookup (boards h ?R) b = Some od \<or> fmlookup (boards h ?R) b = None \<and> od = next_ref h"
  proof (cases "fmlookup (boards h ?R) b")
    case None
    with that [of "next_ref h"] show ?thesis by (simp add: h3_def with_request_def map_get_def)
  next
    case (Some r)
    with that [of r] show ?thesis using board_okD(2) [OF okD(2) Some]
      by (simp add: h3_def with_request_def map_get_def)
  qed
  have old: "r < next_ref h" if "fmlookup (boards h d) c = Some r" "d \<in> {?A, ?T, ?R}" for d c r
    using that board_okD(2) [OF okD(1)] board_okD(2) [OF okD(2)] board_okD(2) [OF okD(3)] by auto
  have new: "od \<notin> inner h ?A \<union> inner h ?T"
    using od(5)
  proof
    assume "fmlookup (boards h ?R) b = Some od"
    then have "od \<in> inner h ?R" by (rule innerI)
    then show ?thesis using okD(6) by blast
  next
    assume "fmlookup (boards h ?R) b = None \<and> od = next_ref h"
    then show ?thesis using fresh_not_inner [OF okD(1)] fresh_not_inner [OF okD(3)] by simp
  qed
  have od_R: "c = b" if "fmlookup (boards h ?R) c = Some od" for c
    using od(5) board_okD(3) [OF okD(2) that, of b] old [OF that] by auto
  have bs: "boards h3 ?A = boards h ?A" "boards h3 ?T = boards h ?T" using od(1) okD(4,5) by simp_all
  show "board_at h3 ?A = board_at h ?A" "board_at h3 ?T = board_at h ?T"
    by (rule board_at_same; use bs new od(2) in \<open>auto dest: innerI\<close>)+
  show "board_at h3 ?R = fmupd b (AddAll (board_orins (board_at h ?R) b) b S) (board_at h ?R)"
  proof (rule board_atI)
    fix c
    show "fmlookup (fmupd b (AddAll (board_orins (board_at h ?R) b) b S) (board_at h ?R)) c =
        map_option (orins h3) (fmlookup (boards h3 ?R) c)"
    proof (cases "c = b")
      case True
      then show ?thesis by (simp add: od(1,2))
    next
      case False
      then have "fmlookup (boards h ?R) c \<noteq> Some od" using od_R by blast
      with False show ?thesis by (cases "fmlookup (boards h ?R) c") (auto simp: od(1,2))
    qed
  qed
  have inn: "inner h3 ?A = inner h ?A" "inner h3 ?T = inner h ?T" using inner_same bs by blast+
  have innR: "inner h3 ?R \<subseteq> insert od (inner h ?R)"
    by (auto simp: od(1) elim!: innerE dest: innerI split: if_splits)
  have okA: "board_ok h3 ?A" "board_ok h3 ?T"
    by (rule board_ok_same [OF okD(1) bs(1) od(3)], rule board_ok_same [OF okD(3) bs(2) od(3)])
  have okR: "board_ok h3 ?R"
  proof (rule board_okI)
    show "?R < next_ref h3" using board_okD(1) [OF okD(2)] od(3) by simp
  next
    fix c r assume "fmlookup (boards h3 ?R) c = Some r"
    then show "r < next_ref h3" using old [of ?R c r] od(3,4) by (auto simp: od(1) split: if_splits)
  next
    fix c d r assume "fmlookup (boards h3 ?R) c = Some r" "fmlookup (boards h3 ?R) d = Some r"
    then show "c = d"
      using od_R [of c] od_R [of d] board_okD(3) [OF okD(2), of c r d] by (auto simp: od(1) split: if_splits)
  qed
  have disj: "inner h3 ?R \<inter> (inner h3 ?A \<union> inner h3 ?T) = {}"
    using innR okD(6) new unfolding inn by blast
  show dom: "fmdom (boards h3 ?R) = finsert b (fmdom (boards h ?R))" by (simp add: od(1))
  have pods: "?A \<noteq> ?T \<and> (\<exists>b. bind_board p = Some b \<and> b |\<in>| fmdom (boards h3 ?R) \<and>
      (\<forall>r. fmlookup (boards h3 ?A) b = Some r \<longrightarrow> r \<notin> inner h3 ?T))"
    if "fmlookup (hn_Pods n) u = Some p" for u p
    using sharing_ok_pod [OF ok that] unfolding bs(1) inn(2) dom by (metis finsertI2)
  show "sharing_ok h3 n"
    unfolding sharing_ok_def using okA okR okD(4,5) disj pods by blast
  show "next_ref h \<le> next_ref h3" by (rule od(3))
qed

lemma heap_addPod_request_refines:
  assumes ok: "sharing_ok h n" and b: "bind_board pod = Some b"
    and run: "heap_addPod_request n pod b h = (h', n', e)"
  shows "addPod_request (node_at h n) pod b = (node_at h' n', e) \<and> sharing_ok h' n' \<and>
     hn_Total n' = hn_Total n \<and> board_at h' (hn_Total n) = board_at h (hn_Total n) \<and> next_ref h \<le> next_ref h'"
proof -
  let ?S = "BuildRequestOrinSet pod" and ?R = "hn_Requested n" and ?T = "hn_Total n"
  let ?h3 = "with_request h ?R b ?S"
  note w = with_request_node [OF ok, where b = b and S = ?S]
  note okD = sharing_okD [OF w(4)]
  obtain h4 res where diff: "heap_Difference ?T ?R ?h3 = (h4, res)" by fastforce
  have spec: "extends ?h3 h4"
    "case res of Inl err \<Rightarrow> DifferenceFromSuperset (board_at ?h3 ?T) (board_at ?h3 ?R) = Inl err
     | Inr md \<Rightarrow> DifferenceFromSuperset (board_at ?h3 ?T) (board_at ?h3 ?R) = Inr (board_at h4 md) \<and>
         shares_outside ?h3 ?T ?R h4 md"
    using heap_Difference_spec [OF diff okD(3,2)] by simp_all
  have T: "board_at h4 ?T = board_at h ?T" using board_at_extends [OF okD(3) spec(1)] w(3) by simp
  have nx: "next_ref h \<le> next_ref h4" using extendsD(1) [OF spec(1)] w(5) by simp
  have funct: "addPod_request (node_at h n) pod b =
      (case DifferenceFromSuperset (board_at ?h3 ?T) (board_at ?h3 ?R) of
         Inl err \<Rightarrow> (node_at ?h3 n, Some (TopoError err))
       | Inr newAllocatable \<Rightarrow>
           ((node_at ?h3 n)\<lparr>Allocatable := newAllocatable, Pods := fmupd (pod_UID pod) pod (hn_Pods n)\<rparr>, None))"
  proof -
    have upd: "node_at ?h3 n = (node_at h n)\<lparr>Requested := board_at ?h3 ?R\<rparr>"
      by (simp add: node_at_def w(2,3))
    have "(case fmlookup (board_at h ?R) b of Some existOd \<Rightarrow> existOd | None \<Rightarrow> NewOrinDetails) = board_orins (board_at h ?R) b"
      by (simp add: map_get_def split: option.split)
    then show ?thesis
      by (simp add: addPod_request_def Let_def upd w(1,3) del: fmupd_lookup split: sum.split)
  qed
  show ?thesis
  proof (cases res)
    case (Inl err)
    then have r: "h' = h4" "n' = n" "e = Some (TopoError err)"
      using run diff by (simp_all add: heap_addPod_request_unfold)
    show ?thesis
      using funct spec(2) Inl node_at_extends [OF w(4) spec(1)] sharing_ok_extends [OF w(4) spec(1)] T nx
      by (simp add: r)
  next
    case (Inr md)
    then have r: "h' = h4" "n' = n\<lparr>hn_Allocatable := md, hn_Pods := fmupd (pod_UID pod) pod (hn_Pods n)\<rparr>" "e = None"
      using run diff by (simp_all add: heap_addPod_request_unfold)
    have sh: "shares_outside ?h3 ?T ?R h4 md"
      and d: "DifferenceFromSuperset (board_at ?h3 ?T) (board_at ?h3 ?R) = Inr (board_at h4 md)"
      using spec(2) Inr by simp_all
    have md: "board_ok h4 md" "next_ref ?h3 \<le> md" using sh by (simp_all add: shares_outside_def)
    have R4: "boards h4 ?R = boards ?h3 ?R" "inner h4 ?R = inner ?h3 ?R" "inner h4 ?T = inner ?h3 ?T"
      using board_ok_boards [OF okD(2) spec(1)] inner_extends [OF okD(2) spec(1)] inner_extends [OF okD(3) spec(1)] .
    have ne: "?R \<noteq> md" "?T \<noteq> md" using board_okD(1) [OF okD(2)] board_okD(1) [OF okD(3)] md(2) by auto
    have disj: "inner h4 ?R \<inter> (inner h4 md \<union> inner h4 ?T) = {}"
    proof -
      have "r \<notin> inner ?h3 ?R" if "r \<in> inner h4 md" for r
        using shares_outside_inner [OF sh that] okD(6) fresh_not_inner [OF okD(2), of r] by blast
      then show ?thesis using okD(6) unfolding R4 by blast
    qed
    have own: "r \<notin> inner h4 ?T" if "c |\<in>| fmdom (boards ?h3 ?R)" "fmlookup (boards h4 md) c = Some r" for c r
    proof -
      have "next_ref ?h3 \<le> r" using sh that unfolding shares_outside_def by auto
      then show ?thesis using fresh_not_inner [OF okD(3)] by (simp add: R4)
    qed
    have pods: "md \<noteq> ?T \<and> (\<exists>c. bind_board p = Some c \<and> c |\<in>| fmdom (boards h4 ?R) \<and>
        (\<forall>r. fmlookup (boards h4 md) c = Some r \<longrightarrow> r \<notin> inner h4 ?T))"
      if p: "fmlookup (fmupd (pod_UID pod) pod (hn_Pods n)) u = Some p" for u p
    proof -
      obtain c where "bind_board p = Some c" "c |\<in>| fmdom (boards ?h3 ?R)"
      proof (cases "u = pod_UID pod")
        case True
        then show ?thesis using that [of b] p b w(6) by simp
      next
        case False
        then have "fmlookup (hn_Pods n) u = Some p" using p by simp
        from sharing_ok_pod [OF w(4) this] that show ?thesis by metis
      qed
      then show ?thesis using own ne(2) by (metis R4(1))
    qed
    have "sharing_ok h' n'"
      unfolding sharing_ok_def r
      using md(1) board_ok_extends [OF okD(2) spec(1)] board_ok_extends [OF okD(3) spec(1)] ne(1) okD(5) disj pods by simp
    moreover have "node_at h' n' = (node_at ?h3 n)\<lparr>Allocatable := board_at h4 md, Pods := fmupd (pod_UID pod) pod (hn_Pods n)\<rparr>"
      using board_at_extends [OF okD(2) spec(1)] board_at_extends [OF okD(3) spec(1)] by (simp add: node_at_def r)
    ultimately show ?thesis using funct d T nx by (simp add: r)
  qed
qed

lemma heap_addPod_refines:
  assumes ok: "sharing_ok h n" and cons: "consistent n pod" and run: "heap_addPod n pod h = (h', n', e)"
  shows "NodeInfo_addPod (node_at h n) pod = (node_at h' n', e) \<and> sharing_ok h' n' \<and>
     hn_Total n' = hn_Total n \<and> board_at h' (hn_Total n) = board_at h (hn_Total n) \<and> next_ref h \<le> next_ref h'"
proof (cases "bind_board pod")
  case None
  then have "h' = h" "n' = n" "e = None" "NodeInfo_addPod (node_at h n) pod = (node_at h n, None)"
    using run addPod_ignored [OF None] by (auto simp: heap_addPod_def bind_board_cases split: option.splits)
  with ok show ?thesis by simp
next
  case b: (Some b)
  then obtain str where str: "fmlookup (pod_Annotations pod) AnnotationPodBindToBoard = Some str" "ParseInt str = Some b"
    by (auto simp: bind_board_Some)
  show ?thesis
  proof (cases "has_key (hn_Pods n) (pod_UID pod)")
    case False
    then have "heap_addPod_request n pod b h = (h', n', e)" using run str by (simp add: heap_addPod_def)
    moreover have "NodeInfo_addPod (node_at h n) pod = addPod_request (node_at h n) pod b"
      using addPod_fresh [OF b] False by (simp add: node_at_def)
    ultimately show ?thesis using heap_addPod_request_refines [OF ok b] by simp
  next
    case True
    obtain h1 n1 e1 where del: "heap_deletePod n pod h = (h1, n1, e1)" by (metis prod_cases3)
    note d = heap_deletePod_refines [OF ok cons del]
    have key: "has_key (Pods (node_at h n)) (pod_UID pod)" using True by (simp add: node_at_def)
    show ?thesis
    proof (cases e1)
      case (Some err)
      then have "h' = h1" "n' = n1" "e = Some err" using run str True del by (simp_all add: heap_addPod_def)
      moreover have "NodeInfo_addPod (node_at h n) pod = (node_at h1 n1, Some err)"
        using d Some str key by (simp add: NodeInfo_addPod_def)
      ultimately show ?thesis using d by simp
    next
      case None
      then have "heap_addPod_request n1 pod b h1 = (h', n', e)" using run str True del by (simp add: heap_addPod_def)
      moreover have "NodeInfo_addPod (node_at h n) pod = addPod_request (node_at h1 n1) pod b"
        by (rule addPod_known [OF b key]) (use d None in simp)
      moreover have "sharing_ok h1 n1" using d by blast
      ultimately show ?thesis using heap_addPod_request_refines [of h1 n1 pod b h' n' e] b d by auto
    qed
  qed
qed

end
