(* ===== verification/HeapBuild.thy ===== *)
theory HeapBuild
  imports NodeHeap
begin

text \<open>
  \<open>NewNodeInfo\<close> on the heap: the loop over the node's capacity fills one outer map, which
  \<open>Allocatable\<close> and \<open>Total\<close> both refer to; the loop over the pods then calls \<open>addPod\<close>. The
  node that comes out reads as the value \<open>NewNodeInfo\<close> computes and its sharing is harmless,
  so every later \<open>addPod\<close> and \<open>deletePod\<close> is covered by the refinements of NodeHeap.
  The last section shows why they ask for a pod whose board annotation is the one it was added
  with: without it a release writes through \<open>Allocatable\<close> into \<open>Total\<close>.
\<close>

section \<open>The loop over the capacity\<close>

lemma heap_add_capacity_eq:
  "heap_add_capacity cap t k h =
     (case board_of_key cap k of
        None \<Rightarrow> h
      | Some (b, S) \<Rightarrow>
          heap_board_Add t b (next_ref h)
            (h\<lparr>next_ref := Suc (next_ref h), orins := (orins h)(next_ref h := AddAll fmempty b S)\<rparr>))"
  by (simp add: heap_add_capacity_def board_of_key_def decode_from_def heap_NewOrinDetails_def heap_AddAll_eq
      split: option.split sum.split)

lemma heap_add_capacity_refines:
  assumes t: "board_ok h t"
  shows "board_ok (heap_add_capacity cap t k h) t \<and>
     board_at (heap_add_capacity cap t k h) t = add_capacity cap k (board_at h t)"
proof (cases "board_of_key cap k")
  case None
  with t show ?thesis by (simp add: heap_add_capacity_eq add_capacity_alt)
next
  case (Some bS)
  obtain b S where bS: "bS = (b, S)" by fastforce
  let ?h = "h\<lparr>next_ref := Suc (next_ref h), orins := (orins h)(next_ref h := AddAll fmempty b S)\<rparr>"
  have ext: "extends h ?h" by (simp add: extends_def)
  have ok: "board_ok ?h t" by (rule board_ok_extends [OF t ext])
  have new: "next_ref h \<notin> inner ?h t"
    using fresh_not_inner [OF t] inner_extends [OF t ext] by simp
  show ?thesis
    using Some bS board_ok_Add [OF ok _ new, of b] board_at_Add [OF ok, of b] board_at_extends [OF t ext]
    by (simp add: heap_add_capacity_eq add_capacity_alt)
qed

lemma heap_capacity_fold_refines:
  "board_ok h t \<Longrightarrow>
   board_ok (fold (heap_add_capacity cap t) ks h) t \<and>
   board_at (fold (heap_add_capacity cap t) ks h) t = fold (add_capacity cap) ks (board_at h t)"
proof (induction ks arbitrary: h)
  case (Cons k ks)
  note step = heap_add_capacity_refines [OF Cons.prems, of cap k]
  show ?case using Cons.IH [of "heap_add_capacity cap t k h"] step by simp
qed simp

section \<open>The loop over the pods\<close>

text \<open>Copies of one pod in the list carry the same board annotation.\<close>

definition one_board_each :: "Pod list \<Rightarrow> bool" where
  "one_board_each pods \<longleftrightarrow>
     (\<forall>p \<in> set pods. \<forall>q \<in> set pods. pod_UID p = pod_UID q \<longrightarrow> bind_board p = bind_board q)"

definition known_from :: "Pod list \<Rightarrow> (uid, Pod) fmap \<Rightarrow> bool" where
  "known_from pods m \<longleftrightarrow> (\<forall>u q. fmlookup m u = Some q \<longrightarrow> pod_UID q = u \<and> q \<in> set pods)"

lemma heap_add_pods_refines:
  "one_board_each pods \<Longrightarrow> set ps \<subseteq> set pods \<Longrightarrow> sharing_ok h n \<Longrightarrow> known_from pods (hn_Pods n) \<Longrightarrow>
   heap_add_pods n ps h = (h', n') \<Longrightarrow>
   add_pods (node_at h n) ps = node_at h' n' \<and> sharing_ok h' n'"
proof (induction ps arbitrary: h n)
  case (Cons p ps)
  obtain h1 n1 e where add: "heap_addPod n p h = (h1, n1, e)" by (metis prod_cases3)
  have p: "p \<in> set pods" using Cons.prems(2) by simp
  have "consistent n p"
  proof (cases "fmlookup (hn_Pods n) (pod_UID p)")
    case (Some q)
    then have "pod_UID q = pod_UID p" "q \<in> set pods" using Cons.prems(4) unfolding known_from_def by blast+
    moreover have "\<forall>p \<in> set pods. \<forall>q \<in> set pods. pod_UID p = pod_UID q \<longrightarrow> bind_board p = bind_board q"
      using Cons.prems(1) by (unfold one_board_each_def)
    ultimately have "bind_board p = bind_board q" using p by metis
    then show ?thesis using Some by (simp add: consistent_def)
  qed (simp add: consistent_def)
  note step = heap_addPod_refines [OF Cons.prems(3) this add]
  have known: "known_from pods (hn_Pods n1)"
    unfolding known_from_def
  proof (intro allI impI)
    fix u q assume "fmlookup (hn_Pods n1) u = Some q"
    then have "fmlookup (Pods (fst (NodeInfo_addPod (node_at h n) p))) u = Some q" using step by simp
    from addPod_Pods [OF this] show "pod_UID q = u \<and> q \<in> set pods"
      using Cons.prems(4) p unfolding known_from_def by auto
  qed
  have "add_pods (node_at h1 n1) ps = node_at h' n' \<and> sharing_ok h' n'"
    by (rule Cons.IH [OF Cons.prems(1)]) (use Cons.prems(2,5) step add known in simp_all)
  then show ?case using step by simp
qed simp

section \<open>The constructor\<close>

lemma heap_fresh_node:
  assumes "heap_NewBoardDetails h = (h1, t)"
    "heap_NewBoardDetails (fold (heap_add_capacity (node_Capacity node) t) (sorted_range (node_Capacity node)) h1) = (h2, r)"
  defines "n \<equiv> \<lparr>hn_Node = node, hn_Pods = fmempty, hn_Allocatable = t, hn_Requested = r, hn_Total = t\<rparr>"
  shows "sharing_ok h2 n \<and> node_at h2 n = NewNodeInfo node []"
proof -
  let ?h = "fold (heap_add_capacity (node_Capacity node) t) (sorted_range (node_Capacity node)) h1"
  have t: "board_ok h1 t" "board_at h1 t = fmempty"
    using assms(1) by (auto simp: heap_NewBoardDetails_def intro!: board_okI board_atI)
  have filled: "board_ok ?h t" "board_at ?h t = node_total node"
    using heap_capacity_fold_refines [OF t(1)] t(2) by (simp_all add: node_total_def NewBoardDetails_def)
  have r: "r = next_ref ?h" and h2: "h2 = ?h\<lparr>boards := (boards ?h)(r := fmempty), next_ref := Suc r\<rparr>"
    using assms(2) by (auto simp: heap_NewBoardDetails_def)
  have ext: "extends ?h h2" by (simp add: extends_def h2 r)
  have tot: "board_ok h2 t" "board_at h2 t = node_total node" "r \<noteq> t"
    using board_ok_extends [OF filled(1) ext] board_at_extends [OF filled(1) ext] filled(2) board_okD(1) [OF filled(1)]
    by (simp_all add: r)
  have req: "board_ok h2 r" "board_at h2 r = fmempty" "inner h2 r = {}"
    by (auto simp: h2 inner_def intro!: board_okI board_atI)
  show ?thesis
    using tot req by (simp add: sharing_ok_def n_def node_at_def NewNodeInfo_def NewBoardDetails_def)
qed

lemma heap_NewNodeInfo_refines:
  assumes pods: "one_board_each pods" and run: "heap_NewNodeInfo node pods h = (h', n)"
  shows "node_at h' n = NewNodeInfo node pods \<and> sharing_ok h' n"
proof -
  obtain h1 t where 1: "heap_NewBoardDetails h = (h1, t)" by fastforce
  obtain h2 r where 2: "heap_NewBoardDetails (fold (heap_add_capacity (node_Capacity node) t) (sorted_range (node_Capacity node)) h1) = (h2, r)"
    by fastforce
  let ?n = "\<lparr>hn_Node = node, hn_Pods = fmempty, hn_Allocatable = t, hn_Requested = r, hn_Total = t\<rparr>"
  note fresh = heap_fresh_node [OF 1 2]
  have "heap_add_pods ?n pods h2 = (h', n)" using run 1 2 by (simp add: heap_NewNodeInfo_def)
  then have "add_pods (node_at h2 ?n) pods = node_at h' n \<and> sharing_ok h' n"
    using pods fresh by (intro heap_add_pods_refines [where pods = pods]) (simp_all add: known_from_def)
  moreover have "NewNodeInfo node pods = add_pods (NewNodeInfo node []) pods" by (simp add: NewNodeInfo_def)
  ultimately show ?thesis using fresh by simp
qed

section \<open>Why a release must name the pod's own board\<close>

text \<open>
  A board without requests has one inner map, reached through \<open>Allocatable\<close> and through
  \<open>Total\<close>. A release that names that board writes the released orins into the node's total;
  the value model, where \<open>Total\<close> is never written, does not.
\<close>

lemma release_through_alias:
  assumes T: "board_ok h (hn_Total n)" and R: "board_ok h (hn_Requested n)"
    and A: "board_ok h (hn_Allocatable n)"
    and shared: "fmlookup (boards h (hn_Allocatable n)) b = Some r" "fmlookup (boards h (hn_Total n)) b = Some r"
    and pod: "bind_board pod = Some b" "has_key (hn_Pods n) (pod_UID pod)"
    and run: "heap_deletePod n pod h = (h', n', None)"
  shows "board_at h' (hn_Total n) = BoardDetails_Add (board_at h (hn_Total n)) b (AddAll fmempty b (BuildRequestOrinSet pod))"
proof -
  let ?S = "BuildRequestOrinSet pod"
  let ?w = "with_release h b ?S"
  note w = with_release_facts [of h b ?S]
  obtain h3 res where diff: "heap_Difference (hn_Requested n) (Suc (next_ref h)) ?w = (h3, res)" by fastforce
  have h': "h' = heap_board_Add (hn_Allocatable n) b (next_ref h) h3"
    using run diff by (simp add: heap_deletePod_unfold [OF pod] split: sum.splits)
  have ext: "extends ?w h3" using heap_Difference_spec [OF diff board_ok_extends [OF R w(1)] w(2)] by simp
  have "extends h h3" by (rule extends_trans [OF w(1) ext])
  note same = board_ok_boards [OF A this] board_ok_boards [OF T this] board_at_extends [OF T this] board_ok_extends [OF T this]
  have need: "orins h3 (next_ref h) = AddAll fmempty b ?S" using extendsD(2) [OF ext, of "next_ref h"] w(5,6) by simp
  have "board_at h' (hn_Total n) = fmupd b (orins h3 r ++\<^sub>f AddAll fmempty b ?S) (board_at h3 (hn_Total n))"
    using board_at_write [OF same(4), of b r] shared by (simp add: h' heap_board_Add_old same(1,2) need)
  moreover have "fmlookup (board_at h3 (hn_Total n)) b = Some (orins h3 r)" using shared(2) by (simp add: same(2))
  ultimately show ?thesis by (auto simp: BoardDetails_Add_def same(3))
qed

end
