(* ===== verification/DeviceProperties.thy ===== *)
theory DeviceProperties
  imports Samples
begin

text \<open>
  The properties of the device plugin: the device provider, the device lists, the locator, the
  servers and the plugin's run loop. Each theorem with a hypothesis is followed by its witness.
\<close>

section \<open>The provider\<close>

text \<open>
  The file provider describes one relation between boards and orins: an orin id has a class
  exactly when some board carries it, a class holds exactly the boards that carry its orin,
  and an orin has attributes exactly on those boards.
\<close>

theorem file_provider_coherent:
  "(has_key (GetOrinClasses fp) i \<longleftrightarrow> (\<exists>b \<in> set (GetBoards fp). i \<in> set (GetBoardOrins fp b))) \<and>
   (b |\<in>| map_get {||} (GetOrinClasses fp) i \<longleftrightarrow> i \<in> set (GetBoardOrins fp b)) \<and>
   (GetOrinAttrs fp b i \<noteq> fmempty \<longleftrightarrow> i \<in> set (GetBoardOrins fp b))"
  using file_provider.class_dom file_provider.class_iff file_provider.attrs_iff by blast

section \<open>Device lists\<close>

text \<open>
  Two devices are \<open>Equals\<close> exactly when they have the same resource name and the same ids
  up to order, whatever digest is used for their hashes.
\<close>

theorem Device_Equals_up_to_order:
  "Device_Equals (NewDevice sha xs r) (NewDevice sha ys s) \<longleftrightarrow> mset xs = mset ys \<and> r = s"
  by (rule NewDevice_Equals)

text \<open>
  A pod's device map survives its key and value: reading back what \<open>Key\<close> and \<open>Val\<close> give
  yields the same pod info, for names that are plain path segments and a JSON codec that
  reads back what it writes.
\<close>

theorem PodInfo_roundtrip:
  assumes "plain_segment (pi_Namespace i)" "plain_segment (pi_Name i)" "json_ok js (ContainerDeviceMap i)"
  shows "NewPIFromRaw js (PodInfo_Key i) (PodInfo_Val js i) = Inr i"
  by (rule NewPIFromRaw_Key_Val [OF assms])

definition s_info :: PodInfo where
  "s_info = \<lparr>pi_Namespace = ''default'', pi_Name = ''camera-0'',
     ContainerDeviceMap = fmupd ''main'' (NewDevice (\<lambda>s. s) [''2-1'', ''1-1''] ''superedge.io/device-orin-1'') fmempty\<rparr>"

definition s_codec :: json_codec where
  "s_codec = \<lparr>json_Marshal = \<lambda>_. ''{main}'',
     json_Unmarshal = \<lambda>v old. if v = ''{main}'' then (ContainerDeviceMap s_info, None) else (old, Some ''syntax'')\<rparr>"

lemma PodInfo_roundtrip_witness: "NewPIFromRaw s_codec ''default/camera-0'' ''{main}'' = Inr s_info"
proof -
  have seg: "plain_segment (pi_Namespace s_info)" "plain_segment (pi_Name s_info)"
    by (simp_all add: s_info_def plain_segment_def)
  have "json_ok s_codec (ContainerDeviceMap s_info)" by (simp add: json_ok_def s_codec_def)
  moreover have "PodInfo_Key s_info = ''default/camera-0''"
    using PodInfo_Key_plain [OF seg] by (simp add: s_info_def)
  moreover have "PodInfo_Val s_codec s_info = ''{main}''" by (simp add: PodInfo_Val_def s_codec_def)
  ultimately show ?thesis using PodInfo_roundtrip [OF seg] by metis
qed

section \<open>The locator\<close>

text \<open>
  C38: A connected locator finds the container that was given a non-empty list of devices, in
  whatever entries the kubelet reports them, when the kubelet answers and no device of the
  resource is in two containers.
\<close>

theorem Locate_finds_owner:
  assumes "loc_err k = None" "client k = Some cl" "ListPodResources g w cl = (w', Inr response)"
    "exclusive_devices (loc_resource k) response" "(p, c) \<in> set (all_containers response)"
    "mset (ids_of (loc_resource k) c) = mset ids" "ids \<noteq> []"
  shows "Locate n g sha w k (NewDevice sha ids (loc_resource k)) = Ret ((w', k), Inr (at_container p c))"
  using assms scan_pods_exact [OF assms(4-7), of sha] by (simp add: Locate_def)

definition s_response :: "PodResources list" where
  "s_response =
     [\<lparr>pr_Name = ''a'', pr_Namespace = ''d'', pr_Containers =
         [\<lparr>cr_Name = ''x'', Devices = [\<lparr>cd_ResourceName = ''r'', DeviceIds = [''1-1'']\<rparr>, \<lparr>cd_ResourceName = ''q'', DeviceIds = [''7'']\<rparr>]\<rparr>]\<rparr>,
      \<lparr>pr_Name = ''b'', pr_Namespace = ''d'', pr_Containers =
         [\<lparr>cr_Name = ''y'', Devices = [\<lparr>cd_ResourceName = ''r'', DeviceIds = [''2-1'']\<rparr>, \<lparr>cd_ResourceName = ''r'', DeviceIds = [''3-1'']\<rparr>]\<rparr>]\<rparr>]"

definition s_grpc :: "(nat, nat) grpc" where
  "s_grpc = \<lparr>DialContext = \<lambda>w _. (w + 1, Inr 0), ListPodResources = \<lambda>w _. (w + 1, Inr s_response),
     CloseConn = \<lambda>w _. (w + 1, None)\<rparr>"

definition s_locator :: "nat KubeletDeviceLocator" where
  "s_locator = \<lparr>loc_err = None, loc_resource = ''r'', client = Some 0\<rparr>"

lemma Locate_finds_owner_witness:
  "Locate \<lparr>url_String = \<lambda>s p. s @ ''://'' @ p, url_Parse = Inl\<rparr> s_grpc (\<lambda>s. s) 0 s_locator (NewDevice (\<lambda>s. s) [''3-1'', ''2-1''] ''r'') =
     Ret ((1, s_locator), Inr \<lparr>pc_Namespace = ''d'', pc_Name = ''b'', pc_Container = ''y''\<rparr>)"
proof -
  let ?p = "s_response ! 1" and ?c = "hd (pr_Containers (s_response ! 1))"
  have "exclusive_devices ''r'' s_response"
    by (auto simp: exclusive_devices_def s_response_def all_containers_def at_container_def ids_of_def)
  moreover have "(?p, ?c) \<in> set (all_containers s_response)" by (simp add: s_response_def all_containers_def)
  moreover have "mset (ids_of ''r'' ?c) = mset [''3-1'', ''2-1'']" by (simp add: s_response_def ids_of_def)
  moreover have "at_container ?p ?c = \<lparr>pc_Namespace = ''d'', pc_Name = ''b'', pc_Container = ''y''\<rparr>"
    by (simp add: s_response_def at_container_def)
  ultimately show ?thesis
    using Locate_finds_owner [of s_locator 0 s_grpc 0 1 s_response ?p ?c "[''3-1'', ''2-1'']"]
    by (simp add: s_locator_def s_grpc_def)
qed

section \<open>The servers\<close>

definition s_fp :: FileDeviceProvider where
  "s_fp = \<lparr>FilePath = ''/etc/device.yaml'', FileDevice = \<lparr>NucIP = ''10.0.0.1'', BoardDevices =
     [\<lparr>bd_ID = 1, DeviceNum = ''n1'', DeviceType = ''t'', ClusterName = ''c'', Lidar = True, Camera = ''x'',
       OrinSocs = [\<lparr>soc_ID = 1, soc_Name = ''a'', soc_IP = ''10.0.1.1''\<rparr>, \<lparr>soc_ID = 2, soc_Name = ''b'', soc_IP = ''10.0.1.2''\<rparr>]\<rparr>,
      \<lparr>bd_ID = 2, DeviceNum = ''n2'', DeviceType = ''t'', ClusterName = ''c'', Lidar = False, Camera = ''x'',
       OrinSocs = [\<lparr>soc_ID = 2, soc_Name = ''c'', soc_IP = ''10.0.2.2''\<rparr>]\<rparr>]\<rparr>\<rparr>"

definition s_penv :: "(nat, nat) plugin_env" where
  "s_penv = \<lparr>e_url = \<lparr>url_String = \<lambda>s p. s @ ''://'' @ p, url_Parse = \<lambda>e. Inr \<lparr>Scheme = ''unix'', Host = [], Path = e\<rparr>\<rparr>,
     e_grpc = s_grpc\<lparr>ListPodResources := \<lambda>w _. (w + 1, Inr [\<lparr>pr_Name = ''u1'', pr_Namespace = ''d'', pr_Containers =
         [\<lparr>cr_Name = ''c'', Devices = [\<lparr>cd_ResourceName = orin_resource 1, DeviceIds = [''1-1'']\<rparr>]\<rparr>]\<rparr>])\<rparr>,
     e_sha = \<lambda>s. s, e_Pow10 = \<lambda>_. 0, Sitter_GetPod = \<lambda>_ _ _. Inr s_b1,
     MkdirAll = \<lambda>w _. (w + 1, None), json_attrs = \<lambda>_. Inr ''{}'', WriteFile = \<lambda>w _ _. (w + 1, None),
     ApplyStatus = \<lambda>w _ _. (w + 1, None)\<rparr>"

definition s_cfg :: "nat OrinDeviceConfig" where
  "s_cfg = \<lparr>DeviceLocator = fmempty, cfg_DeviceProvider = file_methods s_fp, NodeName = ''n1''\<rparr>"

lemma s_plugin: "\<exists>w c odp. NewOrinDevicePlugin s_penv sorted_list_of_fset 0 s_cfg = ((w, c), Inr odp)"
  by (cases "NewOrinDevicePlugin s_penv sorted_list_of_fset 0 s_cfg")
    (auto simp: NewOrinDevicePlugin_def patchNodeExtraResource_def s_penv_def Let_def split: prod.splits)

text \<open>An environment whose world is the file system: the files written, the last first.\<close>

definition f_penv :: "((string \<times> string) list, nat) plugin_env" where
  "f_penv = \<lparr>e_url = \<lparr>url_String = \<lambda>s p. s @ ''://'' @ p, url_Parse = \<lambda>e. Inr \<lparr>Scheme = ''unix'', Host = [], Path = e\<rparr>\<rparr>,
     e_grpc = \<lparr>DialContext = \<lambda>w _. (w, Inr 0), ListPodResources = \<lambda>w _. (w, Inr [\<lparr>pr_Name = ''u1'', pr_Namespace = ''d'', pr_Containers =
         [\<lparr>cr_Name = ''c'', Devices = [\<lparr>cd_ResourceName = orin_resource 1, DeviceIds = [''1-1'']\<rparr>]\<rparr>]\<rparr>]),
       CloseConn = \<lambda>w _. (w, None)\<rparr>,
     e_sha = \<lambda>s. s, e_Pow10 = \<lambda>_. 0, Sitter_GetPod = \<lambda>_ _ _. Inr s_b1,
     MkdirAll = \<lambda>w _. (w, None), json_attrs = \<lambda>a. Inr (Join (sorted_range a) '',''), WriteFile = \<lambda>w p d. ((p, d) # w, None),
     ApplyStatus = \<lambda>w _ _. (w, None)\<rparr>"

lemma f_store: "file_store f_penv map_of"
  by (simp add: file_store_def f_penv_def)

definition f_cfg :: "nat OrinDeviceConfig" where
  "f_cfg = s_cfg\<lparr>DeviceLocator := fmap_of_list [(orin_resource 1, s_locator\<lparr>loc_resource := orin_resource 1\<rparr>)]\<rparr>"

definition f_srv :: OrinDeviceGrpcServer where
  "f_srv = NewOrinDeviceGrpcServer sorted_list_of_fset (orin_resource 1) 1 {|1|}"

lemma f_start:
  obtains w c where "PreStartContainer f_penv f_cfg f_srv [] (concat [[''1-1'']]) = Ret ((w, c), None)"
    "prestart_pod f_penv f_cfg f_srv [] (concat [[''1-1'']]) = Some s_b1"
proof -
  have "case PreStartContainer f_penv f_cfg f_srv [] (concat [[''1-1'']]) of Panic \<Rightarrow> False | Ret (_, e) \<Rightarrow> e = None"
    "prestart_pod f_penv f_cfg f_srv [] (concat [[''1-1'']]) = Some s_b1"
    by code_simp+
  then show ?thesis
    using that by (cases "PreStartContainer f_penv f_cfg f_srv [] (concat [[''1-1'']])") (auto split: prod.splits)
qed

text \<open>
  C37: After a container start that succeeds, the directory \<open>Allocate\<close> mounted for the same devices
  holds the server's orin as the provider describes it on the board the scheduler annotated:
  the content of \<open>config.json\<close> there is the JSON of its attributes. This holds when the pod found
  for the devices requests orins and the provider has attributes; a start that finds no pod,
  no annotation or no board number fails.
\<close>

theorem PreStart_writes_attributes:
  assumes "PreStartContainer e c s w (concat reqs) = Ret ((w', c'), None)" "file_store e content"
  shows "\<exists>m pod b. Plugin_Allocate s reqs = Inr [[m]] \<and> prestart_pod e c s w (concat reqs) = Some pod \<and>
     bind_board pod = Some b \<and>
     (\<forall>attrs. BuildRequestOrinSet pod \<noteq> {||} \<longrightarrow> dp_GetOrinAttrs (cfg_DeviceProvider c) b (OrinID s) = Some attrs \<longrightarrow>
        (\<exists>data. json_attrs e attrs = Inr data \<and> content w' (PathJoin [HostPath m, ''config.json'']) = Some data))"
  by (rule PreStart_writes [OF assms]) blast

lemma PreStart_writes_attributes_witness:
  "\<exists>w c m. PreStartContainer f_penv f_cfg f_srv [] [''1-1''] = Ret ((w, c), None) \<and>
     Plugin_Allocate f_srv [[''1-1'']] = Inr [[m]] \<and>
     map_of w (PathJoin [HostPath m, ''config.json'']) = Some (Join (sorted_range (GetOrinAttrs s_fp 1 1)) '','')"
proof -
  obtain w c where run: "PreStartContainer f_penv f_cfg f_srv [] (concat [[''1-1'']]) = Ret ((w, c), None)"
    "prestart_pod f_penv f_cfg f_srv [] (concat [[''1-1'']]) = Some s_b1"
    by (rule f_start)
  have facts: "bind_board s_b1 = Some 1" "BuildRequestOrinSet s_b1 \<noteq> {||}" "OrinID f_srv = 1" by code_simp+
  have "dp_GetOrinAttrs (cfg_DeviceProvider f_cfg) 1 (OrinID f_srv) = Some (GetOrinAttrs s_fp 1 1)"
    "json_attrs f_penv (GetOrinAttrs s_fp 1 1) = Inr (Join (sorted_range (GetOrinAttrs s_fp 1 1)) '','')"
    by (simp_all add: facts(3)) (simp_all add: f_cfg_def s_cfg_def file_methods_def f_penv_def)
  with PreStart_writes_attributes [OF run(1) f_store] run facts(1,2) show ?thesis by force
qed

section \<open>The run loop\<close>

text \<open>
  In every state the run loop can reach at most one server is up, none once the loop has
  returned, and the only step that can panic is a listen that fails: the stop channel of a
  server is never closed twice.
\<close>

theorem run_keeps_one_server:
  assumes "run_reachable s"
  shows "live s \<le> 1 \<and> (loc s = Returned \<longrightarrow> live s = 0) \<and>
     (\<forall>e t. run_step s e t \<longrightarrow> loc s \<noteq> Panicked \<longrightarrow> loc t = Panicked \<longrightarrow> e = ListenFails)"
  using run_reachable_inv [OF assms] run_panic_cause [of s] by (auto simp: run_inv_def run_step_simps)

lemma run_keeps_one_server_witness:
  "\<exists>s. run_events [Slept, ListenOk, WaitOk, RegisterOk, FsEvent True, CloseStop] run_init = Some s \<and> live s \<le> 1"
proof -
  obtain s where s: "run_events [Slept, ListenOk, WaitOk, RegisterOk, FsEvent True, CloseStop] run_init = Some s"
    by (simp add: run_init_def)
  then have "run_reachable s" by (rule run_reachable_events [OF run_reachable.init])
  from run_keeps_one_server [OF this] s show ?thesis by blast
qed

text \<open>
  C39: The loop can deadlock: when a registration fails, the kubelet's socket is created before the
  error is received, and the next registration fails too, the send on the full error channel
  blocks, and no later event, the closing of stop among them, ever moves the loop.
\<close>

theorem run_can_block_forever:
  "\<exists>s. run_events [Slept, ListenOk, WaitOk, RegisterFails e, FsEvent True,
                   Slept, ListenOk, WaitOk, RegisterFails f] run_init = Some s \<and>
     run_reachable s \<and> loc s = location.Blocked \<and> (\<forall>es t. run_events es s = Some t \<longrightarrow> loc t = location.Blocked)"
proof -
  let ?es = "[Slept, ListenOk, WaitOk, RegisterFails e, FsEvent True, Slept, ListenOk, WaitOk, RegisterFails f]"
  obtain s where s: "run_events ?es run_init = Some s" "loc s = location.Blocked" by (simp add: run_init_def)
  have stays: "run_events es u = Some t \<Longrightarrow> loc u = location.Blocked \<Longrightarrow> loc t = location.Blocked" for es u t
    by (induction es arbitrary: u) (auto simp: bind_eq_Some_conv dest: run_blocked_stays)
  show ?thesis using s stays run_reachable_events [OF run_reachable.init s(1)] by blast
qed

lemma run_can_block_forever_witness:
  "\<exists>s t. run_events [Slept, ListenOk, WaitOk, RegisterFails ''refused'', FsEvent True,
                   Slept, ListenOk, WaitOk, RegisterFails ''refused''] run_init = Some s \<and>
     run_events [CloseStop] s = Some t \<and> loc t = location.Blocked"
proof -
  obtain s where s: "run_events [Slept, ListenOk, WaitOk, RegisterFails ''refused'', FsEvent True,
      Slept, ListenOk, WaitOk, RegisterFails ''refused''] run_init = Some s" "\<not> stopClosed s"
    by (simp add: run_init_def)
  have "\<forall>es t. run_events es s = Some t \<longrightarrow> loc t = location.Blocked"
    using run_can_block_forever [of "''refused''" "''refused''"] s(1) by auto
  moreover obtain t where t: "run_events [CloseStop] s = Some t" using s(2) by simp
  ultimately show ?thesis using s(1) by blast
qed

text \<open>
  While the server's socket does not answer, the loop serves and waits again without ever
  looking at stop: however often it goes round after stop is closed, it has not returned.
\<close>

lemma run_ignores_stop_while_waiting:
  "\<exists>t. run_events (CloseStop # concat (replicate n [Slept, ListenOk, WaitFails e])) run_init = Some t \<and>
     stopClosed t \<and> loc t = Restart"
  using wait_fails_loop [of "run_init\<lparr>stopClosed := True\<rparr>" n e] by (auto simp: run_init_def)

end
