(* ===== verification/SystemSamples.thy ===== *)
theory SystemSamples
  imports ClusterSample Startup PluginMain HeapBuild DeviceProperties
begin

text \<open>
  The platforms the witnesses of SystemProperties run on: a router that is an association list,
  a machine that starts the extender of ClusterSample, an operating system on which every call
  of the plugin's loop succeeds, a cache with a pod on the first of two equal boards, and an
  empty heap.
\<close>

section \<open>The router\<close>

definition k_router :: "('h, ((string \<times> string) \<times> 'h) list) router" where
  "k_router =
     \<lparr>rt_New = [], rt_Handle = \<lambda>m p h r. if (m, p) \<in> fst ` set r then Panic else Ret (((m, p), h) # r),
      rt_Lookup = \<lambda>r m p. map_of r (m, p)\<rparr>"

lemma k_router_register:
  "distinct (map fst rs) \<Longrightarrow> fst ` set rs \<inter> fst ` set r = {} \<Longrightarrow> register k_router rs r = Ret (rev rs @ r)"
proof (induction rs arbitrary: r)
  case (Cons x rs)
  obtain m p h where x: "x = ((m, p), h)" by (metis prod.collapse)
  have "(m, p) \<notin> fst ` set r" using Cons.prems(2) x by auto
  moreover have "fst ` set rs \<inter> fst ` set (x # r) = {}" using Cons.prems x by auto
  ultimately show ?case using Cons.IH [of "x # r"] Cons.prems(1) x by (simp add: k_router_def)
qed simp

lemma map_of_rev_distinct: "distinct (map fst rs) \<Longrightarrow> map_of (rev rs) k = map_of rs k"
proof (cases "map_of rs k")
  case None
  then have "k \<notin> fst ` set (rev rs)" by (simp add: map_of_eq_None_iff)
  then have "map_of (rev rs) k = None" by (simp only: map_of_eq_None_iff not_False_eq_True)
  with None show ?thesis by simp
next
  case (Some v)
  moreover assume "distinct (map fst rs)"
  moreover from this have "distinct (map fst (rev rs))" by (simp flip: rev_map)
  ultimately show ?thesis by simp
qed

lemma k_router_contract: "router_contract k_router"
proof -
  have "register k_router rs (rt_New k_router) = Ret (rev rs)" if "distinct (map fst rs)" for rs :: "((string \<times> string) \<times> 'a) list"
    using k_router_register [OF that, of "[]"] by (simp add: k_router_def)
  moreover have "map_of (rev rs) (m, p) = map_of rs (m, p)" if "distinct (map fst rs)" for rs :: "((string \<times> string) \<times> 'a) list" and m p
    using that by (simp add: map_of_rev_distinct)
  ultimately show ?thesis by (simp add: router_contract_def k_router_def)
qed

section \<open>The start of the extender\<close>

type_synonym k_routes =
  "((string \<times> string) \<times> (string list, cluster) extender handle) list"

text \<open>
  While the first wait runs the node is delivered; during the second the API server answers the
  list of pods and the pod that runs already is delivered.
\<close>

definition k_wait_nodes :: "(string list, cluster) Controller \<Rightarrow> (string list, cluster) Controller \<times> bool" where
  "k_wait_nodes c =
     (case deliver k_filtering k_env (NodeInformer (Added (NodeObj s_node))) c of Panic \<Rightarrow> (c, False) | Ret t \<Rightarrow> (t, True))"

definition k_wait_pods :: "(string list, cluster) Controller \<Rightarrow> (string list, cluster) Controller \<times> bool" where
  "k_wait_pods c =
     (case deliver k_filtering k_env (PodInformer (Added (PodObj k_old))) (c\<lparr>world := ([k_old], [k_old, k_new])\<rparr>) of
        Panic \<Rightarrow> (c, False) | Ret t \<Rightarrow> (t, True))"

definition k_platform :: "(unit, string list, cluster, k_routes) platform" where
  "k_platform =
     \<lparr>parse_flags = (\<lambda>f. f),
      kube_config = \<lparr>InClusterConfig = Inr (), BuildConfigFromFlags = (\<lambda>_ _. Inr ()), NewForConfig = (\<lambda>_. Inr k_client)\<rparr>,
      http_router = k_router, deploy = (\<lambda>_. k_deploy), wait_nodes = k_wait_nodes, wait_pods = k_wait_pods,
      ListenAndServe = (\<lambda>_. None)\<rparr>"

lemma k_waits_deliver:
  "delivered k_filtering k_env c (fst (k_wait_nodes c))" "delivered k_filtering k_env c (fst (k_wait_pods c))"
proof -
  show "delivered k_filtering k_env c (fst (k_wait_nodes c))"
    by (cases "deliver k_filtering k_env (NodeInformer (Added (NodeObj s_node))) c")
      (simp_all only: k_wait_nodes_def outcome.case fst_conv delivered.none delivered.one [OF delivered.none])
  show "delivered k_filtering k_env c (fst (k_wait_pods c))"
    by (cases "deliver k_filtering k_env (PodInformer (Added (PodObj k_old))) (c\<lparr>world := ([k_old], [k_old, k_new])\<rparr>)")
      (simp_all only: k_wait_pods_def outcome.case fst_conv delivered.none
        delivered.one [OF delivered.changed [OF delivered.none]])
qed

lemma k_main:
  "\<exists>r s. scheduler_main k_platform [] ([], [k_old, k_new]) = Serving r s \<and> podQueue (controller s) = [''d/u1'']"
proof -
  obtain r where r: "extender_router (k_router :: (_, k_routes) router) k_deploy = Ret r"
    using extender_router_lookup [OF k_router_contract, of k_deploy] by blast
  have new: "case NewController k_wait_nodes k_wait_pods [] ([], [k_old, k_new]) NewScheduleCache of
      (c, e) \<Rightarrow> e = None \<and> podQueue c = [''d/u1'']"
    by code_simp
  obtain c e where c: "NewController k_wait_nodes k_wait_pods [] ([], [k_old, k_new]) NewScheduleCache = (c, e)"
    by (elim prod.exhaust)
  have "e = None" "podQueue c = [''d/u1'']" using new by (simp_all add: c)
  then have "scheduler_main k_platform [] ([], [k_old, k_new]) = Serving r \<lparr>running = Run 4 c, logged = []\<rparr>"
    by (simp add: scheduler_main_def k_platform_def BuildClientSet_def new_clientset_def InitFlag_def
        SetupSignalHandler_def Let_def r c)
  moreover have "podQueue (controller \<lparr>running = Run 4 c, logged = []\<rparr>) = [''d/u1'']"
    using \<open>podQueue c = [''d/u1'']\<close> by (simp add: controller_def Run_def)
  ultimately show ?thesis by blast
qed

section \<open>The plugin's loop\<close>

definition k_system :: "('o, unit) system" where
  "k_system =
     \<lparr>DevicePluginPath = ''/dp/'', KubeletSocket = ''/dp/kubelet.sock'', ApiVersion = ''v1beta1'',
      os_Remove = (\<lambda>w _. w), net_Listen = (\<lambda>w _. (w, Inr 7)), grpc_Dial = (\<lambda>w _ _. (w, Inr ())),
      conn_Close = (\<lambda>w _. (w, None)), rpc_Register = (\<lambda>w _ _. (w, None)), NewWatcher = (\<lambda>w. (w, Inr 3)),
      watcher_Add = (\<lambda>w _ _. (w, None)), watcher_Close = (\<lambda>w _. w)\<rparr>"

definition k_server :: DevicePluginServer where
  "k_server = \<lparr>Endpoint = ''orin-1.sock'', ps_ResourceName = ''orin-1'',
     ps_Server = NewOrinDeviceGrpcServer sorted_list_of_fset ''orin-1'' 1 {|1|}\<rparr>"

text \<open>Two rounds: the kubelet makes its socket again after the first.\<close>

definition k_rounds :: "choice list" where
  "k_rounds = [Proceed, Proceed, Proceed, Proceed, TakeEvent \<lparr>ev_Name = ''/dp/kubelet.sock'', ev_Create = True\<rparr>,
               Proceed, Proceed]"

definition k_loop :: "'o \<Rightarrow> 'o loop" where
  "k_loop w = \<lparr>sys_world = w, at = Restart, pending = None, chan = 0, closed = [], served = [], stop_closed = False,
     crashed = False\<rparr>"

lemma k_loop_reachable: "loop_reachable k_system k_server (k_loop w)"
  by (rule loop_reachable.start [of _ w]) (simp add: Run_start_def NewFSWatcher_def k_system_def k_loop_def)

section \<open>The start of the plugin\<close>

definition k_node_platform :: "(unit, nat, nat, unit) node_platform" where
  "k_node_platform =
     \<lparr>np_parse = (\<lambda>f. f\<lparr>pf_nodeName := ''n1'', pf_providerConfig := ''/etc/device.yaml''\<rparr>),
      np_kube = \<lparr>InClusterConfig = Inr (), BuildConfigFromFlags = (\<lambda>_ _. Inr ()), NewForConfig = (\<lambda>_. Inr (s_client s_p1 None None))\<rparr>,
      np_factory = (\<lambda>_ _. \<lparr>inf_Start = (\<lambda>w. w), inf_Get = (\<lambda>_ _ _. Inl ''not found''), inf_HasSynced = (\<lambda>_. True)\<rparr>),
      np_selector = (\<lambda>f v. f @ ''='' @ v), wait_synced = (\<lambda>w _. Some (w, True)),
      np_readFile = (\<lambda>_. Inr []), np_unmarshal = (\<lambda>_. Inr (FileDevice s_fp)), np_env = (\<lambda>_. s_penv),
      np_uns = sorted_list_of_fset, np_system = k_system, np_servers = sorted_range, np_error = (\<lambda>_. ''error'')\<rparr>"

lemma k_start_all: "\<exists>ls. start_all k_system ps w = Inr ls"
proof (induction ps arbitrary: w)
  case (Cons p ps)
  have "Run_start k_system w = Looping (k_loop w)"
    by (simp add: Run_start_def NewFSWatcher_def k_system_def k_loop_def)
  with Cons.IH [of w] show ?case by (auto simp: k_loop_def)
qed simp

lemma k_provider: "NewFileDeviceProvider (np_readFile k_node_platform) (np_unmarshal k_node_platform)
    (pf_providerConfig (np_parse k_node_platform Plugin_InitFlag)) = Inr s_fp"
  by (simp add: NewFileDeviceProvider_def k_node_platform_def s_fp_def Plugin_InitFlag_def)

lemma k_plugin_main: "\<exists>c loops. deviceplugin_main k_node_platform 0 = Plugging c loops"
proof -
  obtain w c odp where run: "NewOrinDevicePlugin s_penv sorted_list_of_fset 0 s_cfg = ((w, c), Inr odp)"
    using s_plugin by (elim exE) (rule that)
  obtain ls where "start_all k_system (map (\<lambda>k. the (fmlookup odp k)) (sorted_range odp)) w = Inr ls"
    using k_start_all [of "map (\<lambda>k. the (fmlookup odp k)) (sorted_range odp)" w] by (elim exE) (rule that)
  then have loops: "OrinDevicePlugin_Run (np_system k_node_platform) (np_servers k_node_platform) odp w = Inr ls"
    by (simp only: OrinDevicePlugin_Run_def k_node_platform_def node_platform.simps)
  have flags: "pf_provider (np_parse k_node_platform Plugin_InitFlag) = ''file''"
    "pf_nodeName (np_parse k_node_platform Plugin_InitFlag) = ''n1''"
    by (simp_all add: k_node_platform_def Plugin_InitFlag_def)
  have kube: "Plugin_BuildClientSet (np_kube k_node_platform) f = Go (Inr (s_client s_p1 None None))" for f
    by (simp add: k_node_platform_def Plugin_BuildClientSet_def)
  have sync: "wait_synced k_node_platform v b = Some (v, True)" for v b
    by (simp add: k_node_platform_def)
  have started: "Sitter_Start (NewSitter (np_factory k_node_platform) sel cs node) v = v" for sel cs node v
    by (simp add: k_node_platform_def Sitter_Start_def NewSitter_def Let_def)
  have new: "NewOrinDevicePlugin (np_env k_node_platform x) (np_uns k_node_platform) 0
      \<lparr>DeviceLocator = fmempty, cfg_DeviceProvider = file_methods s_fp, NodeName = ''n1''\<rparr> = ((w, c), Inr odp)" for x
    using run by (simp only: k_node_platform_def node_platform.simps s_cfg_def)
  have "deviceplugin_main k_node_platform 0 = Plugging c ls"
    by (simp add: deviceplugin_main_def Let_def kube started sync flags ProviderMap_lookup k_provider new loops)
  then show ?thesis by blast
qed

section \<open>A stale annotation\<close>

definition t_node :: Node where
  "t_node = s_node\<lparr>node_Capacity := fmap_of_list [(ExtendResouceTypeBoardPrefix @ ''1'', 11), (ExtendResouceTypeBoardPrefix @ ''2'', 11)]\<rparr>"

definition t_cache :: scheduleCache where "t_cache = fst (Cache_AddNode NewScheduleCache t_node [s_b1])"
definition t_pod :: Pod where "t_pod = AddPodBindAnnotation (s_pod ''u2'' [''1'']) 1"

lemma t_cache_reachable: "cache_reachable t_cache"
  unfolding t_cache_def
  by (rule cache_reachable.step [OF cache_reachable.start cache_step.node_added]) code_simp

lemma t_node_cached: "Cache_GetNode t_cache ''n1'' = Some (NewNodeInfo t_node [s_b1])"
  by (simp add: t_cache_def Cache_AddNode_def Cache_GetNode_def t_node_def s_node_def)

lemma t_fresh: "fresh_bind t_cache ''n1'' ''u2''"
proof -
  have "\<not> has_key (Pods (NewNodeInfo t_node [s_b1])) ''u2''" by code_simp
  then show ?thesis
    using cache_reachable_sound [OF t_cache_reachable] by (simp add: fresh_bind_def not_on_node_def t_node_cached)
qed

lemma t_facts:
  "\<not> has_key (podMaps t_cache) ''u2''" "pod_UID t_pod = ''u2''" "policy_of t_pod = AllocatorPolicyBinPack"
  "boardID (BinpackAllocate sorted_range (Allocatable (NewNodeInfo t_node [s_b1])) (BuildRequestOrinSet t_pod)) = 2"
  "bind_board t_pod = Some 1" "BuildRequestOrinSet t_pod |\<subseteq>| BuildRequestOrinSet s_b1" "bind_board s_b1 = Some 1"
  "fset (BuildRequestOrinSet t_pod) = {1}"
  by code_simp+

lemma t_victim: "fmlookup (Pods (NewNodeInfo t_node [s_b1])) ''u1'' = Some s_b1"
proof -
  have "compatible (NewNodeInfo t_node []) [s_b1]" by code_simp
  moreover have "bind_board s_b1 \<noteq> None" "pod_UID s_b1 = ''u1''" by code_simp+
  ultimately show ?thesis
    using Pods_add_pods [OF NewNodeInfo_nil_sound, of t_node "[s_b1]" "''u1''"] by (simp add: NewNodeInfo_def)
qed

section \<open>A heap\<close>

definition a_heap :: heap where
  "a_heap = \<lparr>orins = (\<lambda>_. fmempty), boards = (\<lambda>_. fmempty), next_ref = 0\<rparr>"

lemma a_fresh:
  obtains h n where "heap_NewNodeInfo t_node [] a_heap = (h, n)" "sharing_ok h n" "node_at h n = NewNodeInfo t_node []"
    "consistent n s_b1"
proof -
  obtain h n where run: "heap_NewNodeInfo t_node [] a_heap = (h, n)" by fastforce
  have "one_board_each []" by (simp add: one_board_each_def)
  from heap_NewNodeInfo_refines [OF this run] have hn: "node_at h n = NewNodeInfo t_node []" "sharing_ok h n" by simp_all
  have "Pods (node_at h n) = fmempty" unfolding hn(1) by (simp add: NewNodeInfo_def)
  then have "consistent n s_b1" by (simp add: consistent_def)
  with run hn that show ?thesis by blast
qed

end
