(* ===== verification/ExtenderOps.thy ===== *)
theory ExtenderOps
  imports ExtenderFacts
begin

text \<open>
  The extender without any discipline of its environment: every event, whatever the requests,
  the informers and the API server bring, changes the cache by operations of the cache only
  (\<open>cache_op\<close>). So what each operation keeps for all arguments holds in every state: ids are in
  range, nodes and pods are filed under their names, and a node only holds pods on boards and
  orins it has.
\<close>

section \<open>The operations\<close>

inductive cache_op :: "scheduleCache \<Rightarrow> scheduleCache \<Rightarrow> bool" where
  add_pod: "cache_op c (fst (Cache_AddPod c pod))"
| delete_pod: "cache_op c (fst (Cache_DeletePod c pod))"
| add_node: "cache_op c (fst (Cache_AddNode c node pods))"
| update_node: "cache_op c (fst (Cache_UpdateNode c old new pods))"
| delete_node: "cache_op c (fst (Cache_DeleteNode c node))"
| assume_pod: "cache_op c (fst (Cache_AssumePod c pod node))"
| forget_pod: "cache_op c (fst (Cache_ForgetPod c pod node))"

lemmas single_ops = cache_op.intros [THEN r_into_rtranclp [where r = cache_op]]

lemma bindPod_ops:
  fixes cs :: "'w clientset"
  assumes "bindPod cs rng node name ns u s = Ret (s', e)"
  shows "cache_op\<^sup>*\<^sup>* (fst s) (fst s')"
proof -
  obtain c w np where s: "s = (c, w, np)" by (metis prod_cases3)
  show ?thesis
  proof (cases "fst s' = c")
    case False
    then obtain pod np' where "cache_op c (fst (Cache_AssumePod c np' node))"
      "fst s' = fst (Cache_AssumePod c np' node) \<or>
       fst s' = fst (Cache_ForgetPod (fst (Cache_AssumePod c np' node)) pod node)"
      using assms s cache_op.assume_pod [of c _ node]
      by (auto simp: bindPod_def Let_def split: prod.splits sum.splits option.splits outcome.splits if_splits)
        (metis fst_conv)+
    then show ?thesis using s cache_op.forget_pod
      by (metis fst_conv rtranclp.rtrancl_into_rtrancl r_into_rtranclp)
  qed (simp add: s)
qed

lemma attempts_ops:
  fixes cs :: "'w clientset"
  assumes "attempts n (bindPod cs rng node name ns u) s = Ret (s', ok)"
  shows "cache_op\<^sup>*\<^sup>* (fst s) (fst s')"
proof -
  let ?I = "\<lambda>t. cache_op\<^sup>*\<^sup>* (fst s) (fst t)"
  have step: "?I t'" if "?I t" "bindPod cs rng node name ns u t = Ret (t', e)" for t t' e
    using that(1) bindPod_ops [OF that(2)] by (rule rtranclp_trans)
  have "if ok then ?I s' else ?I s'"
    by (rule attempts_rule [where I = ?I and f = "bindPod cs rng node name ns u" and s = s and n = n])
      (use step assms in blast)+
  then show ?thesis by (cases ok) simp_all
qed

lemma Bind_ops:
  fixes cs :: "'w clientset"
  assumes "retry_contract R" "Bind cs R rng c w node name ns u = Ret ((c', w'), e)"
  shows "cache_op\<^sup>*\<^sup>* c c'"
proof (cases "Cache_GetNode c node")
  case None
  with assms(2) show ?thesis by (simp add: Bind_def)
next
  case (Some ni)
  from Bind_known_node [OF Some assms(2)] obtain c1 w1 np e1 where
    R: "R 3 (bindPod cs rng node name ns u) (c, w, None) = Ret ((c1, w1, np), e1)"
    and c': "if e1 = None \<and> e \<noteq> None then \<exists>p. np = Some p \<and> c' = fst (Cache_ForgetPod c1 p node) else c' = c1" .
  have "cache_op\<^sup>*\<^sup>* c c1" using attempts_ops [OF retry_Ret [OF assms(1) R]] by simp
  with c' show ?thesis
    by (auto split: if_splits intro: rtranclp.rtrancl_into_rtrancl cache_op.forget_pod)
qed

lemma assignPod_ops: "cache_op\<^sup>*\<^sup>* (manager s) (manager (fst (assignPod e s pod)))"
proof -
  have two: "cache_op\<^sup>*\<^sup>* c (fst (Cache_AddPod (fst (Cache_AddNode c node pods)) pod))" for c node pods
    by (meson converse_rtranclp_into_rtranclp r_into_rtranclp cache_op.add_node cache_op.add_pod)
  show ?thesis
    using two [of "manager s"] cache_op.add_pod [of "manager s" pod]
    by (auto simp: assignPod_def Let_def split: option.split prod.split sum.split
        dest: arg_cong [where f = fst] intro: r_into_rtranclp) (metis fst_conv r_into_rtranclp)+
qed

lemma syncPod_ops: "cache_op\<^sup>*\<^sup>* (manager s) (manager (fst (syncPod e s key)))"
  using assignPod_ops [of s e] cache_op.delete_pod [of "manager s"]
  by (auto simp: syncPod_def releasePod_def split: sum.split lister_error.split prod.split option.split
      intro: r_into_rtranclp) (metis fst_conv)+

lemma processNextWorkItem_ops:
  assumes "processNextWorkItem e s = Some (t, continue)"
  shows "cache_op\<^sup>*\<^sup>* (manager s) (manager t)"
proof (cases "wq_Get e (podQueue s)")
  case (Item key q)
  then have "manager t = manager (fst (syncPod e (s\<lparr>podQueue := q\<rparr>) key))"
    using assms by (auto simp: processNextWorkItem_Item [OF Item] Let_def split: prod.splits)
  then show ?thesis using syncPod_ops [of "s\<lparr>podQueue := q\<rparr>" e key] by simp
qed (use assms in \<open>auto simp: processNextWorkItem_def\<close>)

lemma deletePodFromCache_ops: "cache_op\<^sup>*\<^sup>* (manager s) (manager (deletePodFromCache s obj))"
  by (auto simp: deletePodFromCache_def releasePod_def split: obj.split intro: single_ops)

lemma deliver_ops:
  assumes "filtering_contract F" "deliver F e ev s = Ret t"
  shows "cache_op\<^sup>*\<^sup>* (manager s) (manager t)"
proof (cases ev)
  case (PodInformer n)
  with assms deletePodFromCache_ops [of s] show ?thesis
    by (cases n) (auto simp del: deliver.simps simp: deliver_pod_simps pod_handlers_queue split: if_splits)
next
  case (NodeInformer n)
  with assms show ?thesis
    by (cases n)
      (auto simp: node_handlers_def addNodeToCache_def updateNodeInCache_def deleteNodeFromCache_def Let_def
        split: obj.splits if_splits intro: single_ops)
qed

lemma ext_next_ops:
  assumes ok: "deployment_ok p" and step: "ext_next p ev s = Some t"
  shows "cache_op\<^sup>*\<^sup>* (get_cache s) (get_cache t)"
proof (cases ev)
  case (Request r)
  show ?thesis
  proof (cases "serve p s r")
    case None
    with Request step show ?thesis by simp
  next
    case (Some res)
    then obtain rsp where run: "serve p s r = Some (Ret (t, rsp))"
      using Request step by (auto split: outcome.splits)
    then show ?thesis
    proof (cases rule: serve_cases)
      case read
      then show ?thesis by (simp add: get_cache_def controller_def)
    next
      case (bind args cw e)
      have "cache_op\<^sup>*\<^sup>* (get_cache s) (fst cw)"
        using Bind_ops bind(2) ok by (cases cw) (auto simp: asked_bind_def deployment_ok_def)
      moreover have "get_cache t = get_cache (put_bind cw s)"
        using bind(3) by (simp only: get_cache_def controller_def)
      ultimately show ?thesis by simp
    qed
  qed
next
  case (Informer iev)
  with step obtain c where "deliver (d_filtering p) (d_env p) iev (controller s) = Ret c" "t = set_controller c s"
    by (auto split: outcome.splits)
  with ok show ?thesis using deliver_ops by (auto simp: deployment_ok_def get_cache_def)
next
  case (Workers wev)
  then show ?thesis
  proof (cases wev)
    case (WorkItem i)
    with Workers step obtain c continue where
      "processNextWorkItem (d_env p) (ctl (running s)) = Some (c, continue)" "controller t = c"
      by (auto split: if_splits option.splits)
    then show ?thesis using processNextWorkItem_ops by (auto simp: get_cache_def controller_def)
  qed (use Workers step in \<open>auto simp: get_cache_def controller_def split: if_splits\<close>)
next
  case (Outside w)
  with step show ?thesis by (auto simp: get_cache_def)
qed

lemma ext_run_ops:
  assumes "deployment_ok p"
  shows "ext_run p evs s = Some t \<Longrightarrow> cache_op\<^sup>*\<^sup>* (get_cache s) (get_cache t)"
proof (induction evs arbitrary: s)
  case (Cons ev evs)
  then obtain u where "ext_next p ev s = Some u" "ext_run p evs u = Some t" by (auto simp: bind_eq_Some_conv)
  then show ?case using ext_next_ops [OF assms] Cons.IH by (meson rtranclp_trans)
qed simp

section \<open>What every operation keeps\<close>

text \<open>
  A pod is filed under its own UID, and \<open>addPod\<close> checked its board and orins against the
  node's capacity. No operation undoes this, not even a failed one.
\<close>

definition filed_in :: "BoardDetails \<Rightarrow> uid \<Rightarrow> Pod \<Rightarrow> bool" where
  "filed_in T u p \<longleftrightarrow> pod_UID p = u \<and> (\<exists>b. bind_board p = Some b \<and> b |\<in>| BoardSet T) \<and> pod_slots p \<subseteq> slots T"

definition boards_typed :: "BoardDetails \<Rightarrow> bool" where
  "boards_typed d \<longleftrightarrow> board_wf d \<and> fBall (BoardSet d) in_int64"

definition node_typed :: "NodeInfo \<Rightarrow> bool" where
  "node_typed ni \<longleftrightarrow>
     boards_typed (Total ni) \<and> boards_typed (Allocatable ni) \<and> boards_typed (Requested ni) \<and>
     slots (Total ni) \<subseteq> UNIV \<times> {1..19} \<and> fmpred (filed_in (Total ni)) (Pods ni)"

definition cache_typed :: "scheduleCache \<Rightarrow> bool" where
  "cache_typed c \<longleftrightarrow>
     fmpred (\<lambda>name ni. node_Name (ni_Node ni) = name \<and> node_typed ni) (nodeCache c) \<and>
     fmpred (\<lambda>u p. pod_UID p = u) (podMaps c)"

lemma boards_typed_empty [simp]: "boards_typed fmempty"
  by (auto simp: boards_typed_def BoardSet_def)

lemma boards_typed_minus: "boards_typed d \<Longrightarrow> boards_typed (board_minus d r)"
  by (auto simp: boards_typed_def intro: inv_intros)

lemma boards_typed_Add:
  "boards_typed d \<Longrightarrow> in_int64 b \<Longrightarrow> boards_typed (BoardDetails_Add d b (AddAll fmempty b S))"
  by (auto simp: boards_typed_def intro!: inv_intros)

lemma boards_typed_requested:
  assumes "boards_typed (Requested ni)" "in_int64 b"
  shows "boards_typed (requested_after ni pod b)"
proof -
  have "board_wf (requested_after ni pod b)"
    using assms(1)
    by (auto simp: boards_typed_def board_wf_def requested_after_def fmpred_iff AddAll_lookup map_get_def
        split: if_splits option.splits)
  with assms show ?thesis by (auto simp: boards_typed_def BoardSet_requested_after)
qed

lemma bind_board_int64: "bind_board p = Some b \<Longrightarrow> in_int64 b"
  by (auto simp: bind_board_Some dest: ParseInt_range)

lemma node_typed_deletePod: "node_typed ni \<Longrightarrow> node_typed (fst (NodeInfo_deletePod ni pod))"
proof (cases "bind_board pod")
  case None
  assume "node_typed ni"
  with None show ?thesis by (auto simp: NodeInfo_deletePod_def bind_board_def split: option.split)
next
  case (Some b)
  assume "node_typed ni"
  with Some show ?thesis
    by (cases "has_key (Pods ni) (pod_UID pod)")
      (auto simp: deletePod_eq [OF Some] deletePod_unknown bind_board_Some node_typed_def bind_board_int64
        intro: boards_typed_minus boards_typed_Add dest: ParseInt_range)
qed

lemma node_typed_request:
  assumes "node_typed ni" "bind_board pod = Some b"
  shows "node_typed (fst (addPod_request ni pod b))"
proof -
  have R: "boards_typed (requested_after ni pod b)"
    using assms boards_typed_requested bind_board_int64 by (simp add: node_typed_def)
  have "filed_in (Total ni) (pod_UID pod) pod" if "covers (Total ni) (requested_after ni pod b)"
    using that assms(2)
    by (auto simp: filed_in_def covers_slots BoardSet_requested_after slots_requested_after pod_slots_bound
        simp del: slots_iff)
  with R assms(1) show ?thesis
    by (auto simp: addPod_request_eq node_typed_def intro!: boards_typed_minus)
qed

lemma node_typed_addPod:
  assumes "node_typed ni"
  shows "node_typed (fst (NodeInfo_addPod ni pod))"
proof (cases "bind_board pod")
  case None
  with assms show ?thesis by (simp add: addPod_ignored)
next
  case (Some b)
  show ?thesis
  proof (cases "has_key (Pods ni) (pod_UID pod)")
    case False
    with assms Some show ?thesis by (simp add: addPod_fresh node_typed_request)
  next
    case True
    obtain ni' e where del: "NodeInfo_deletePod ni pod = (ni', e)" by fastforce
    with node_typed_deletePod [OF assms, of pod] have "node_typed ni'" by simp
    then show ?thesis
      using True Some del
      by (cases e) (auto simp: addPod_known node_typed_request, auto simp: NodeInfo_addPod_def bind_board_Some)
  qed
qed

lemma ni_Node_deletePod [simp]: "ni_Node (fst (NodeInfo_deletePod ni pod)) = ni_Node ni"
  by (auto simp: NodeInfo_deletePod_def Let_def split: option.split sum.split)

lemma ni_Node_request [simp]: "ni_Node (fst (addPod_request ni pod b)) = ni_Node ni"
  by (simp add: addPod_request_eq)

lemma ni_Node_addPod [simp]: "ni_Node (fst (NodeInfo_addPod ni pod)) = ni_Node ni"
proof (cases "bind_board pod")
  case (Some b)
  obtain ni' e where del: "(if has_key (Pods ni) (pod_UID pod) then NodeInfo_deletePod ni pod else (ni, None)) = (ni', e)"
    by fastforce
  then have "ni_Node ni' = ni_Node ni" by (metis ni_Node_deletePod fst_conv)
  moreover have "NodeInfo_addPod ni pod =
      (case (ni', e) of (ni', Some err) \<Rightarrow> (ni', Some err) | (ni', None) \<Rightarrow> addPod_request ni' pod b)"
    unfolding del [symmetric] using Some by (auto simp: NodeInfo_addPod_def bind_board_Some)
  ultimately show ?thesis by (simp split: option.split)
qed (simp add: addPod_ignored)

lemma add_pods_typed: "node_typed ni \<Longrightarrow> node_typed (add_pods ni ps) \<and> ni_Node (add_pods ni ps) = ni_Node ni"
  by (induction ps arbitrary: ni) (simp_all add: node_typed_addPod)

lemma node_total_orins: "slots (node_total node) \<subseteq> UNIV \<times> {1..19}"
proof (clarsimp simp: node_total_slots simp del: slots_iff)
  fix b x k S
  assume "board_of_key (node_Capacity node) k = Some (b, S)" "x |\<in>| S"
  then show "1 \<le> x \<and> x \<le> 19"
    using Parse_range [of "NewDecimalMap (map_get 0 (node_Capacity node) k) DefaultOrinStartBit" S x]
    by (auto simp: board_of_key_def decode_from_def NewDecimalMap_def DefaultOrinStartBit_def
        split: if_splits option.splits sum.splits)
qed

lemma NewNodeInfo_typed: "node_typed (NewNodeInfo node pods)" "ni_Node (NewNodeInfo node pods) = node"
proof -
  have "boards_typed (node_total node)"
    using NewNodeInfo_nil_sound [of node] by (simp add: boards_typed_def node_sound_def)
  then have "node_typed (NewNodeInfo node [])"
    using node_total_orins [of node] by (simp add: node_typed_def NewNodeInfo_def boards_typed_empty)
  then show "node_typed (NewNodeInfo node pods)" "ni_Node (NewNodeInfo node pods) = node"
    using add_pods_typed [of "NewNodeInfo node []" pods] by (auto simp: NewNodeInfo_add_pods [symmetric] NewNodeInfo_def)
qed

lemma updated_typed:
  assumes "boards_typed R"
  shows "node_typed (NewNodeInfo node pods\<lparr>Requested := R, Allocatable :=
     (case DifferenceFromSuperset (Total (NewNodeInfo node pods)) R of Inl e \<Rightarrow> NewBoardDetails | Inr a \<Rightarrow> a)\<rparr>)"
  using NewNodeInfo_typed(1) [of node pods] assms
  by (simp add: node_typed_def DifferenceFromSuperset_eq boards_typed_minus)

lemma add_typed:
  assumes "fmpred (\<lambda>name ni. node_Name (ni_Node ni) = name \<and> node_typed ni) m" "NodeInfo_addPod ni pod = (ni', e)"
    "fmlookup m name = Some ni"
  shows "node_Name (ni_Node ni') = name \<and> node_typed ni'"
proof -
  have "node_typed ni" "node_Name (ni_Node ni) = name" using assms(1,3) by auto
  then show ?thesis using node_typed_addPod [of ni pod] ni_Node_addPod [of ni pod] assms(2) by simp
qed

lemma del_typed:
  assumes "fmpred (\<lambda>name ni. node_Name (ni_Node ni) = name \<and> node_typed ni) m" "NodeInfo_deletePod ni pod = (ni', e)"
    "fmlookup m name = Some ni"
  shows "node_Name (ni_Node ni') = name \<and> node_typed ni'"
proof -
  have "node_typed ni" "node_Name (ni_Node ni) = name" using assms(1,3) by auto
  then show ?thesis using node_typed_deletePod [of ni pod] ni_Node_deletePod [of ni pod] assms(2) by simp
qed

lemma cache_op_typed: "cache_op c d \<Longrightarrow> cache_typed c \<Longrightarrow> cache_typed d"
proof (induction rule: cache_op.induct)
  case (update_node c old new pods)
  have "boards_typed (Requested (NewNodeInfo old pods))"
    using NewNodeInfo_typed(1) [of old pods] by (simp add: node_typed_def)
  from update_node updated_typed [OF this, of new pods] NewNodeInfo_typed(2) [of new pods] show ?case
    by (auto simp: cache_typed_def Cache_UpdateNode_def Let_def)
qed (auto simp: cache_typed_def Cache_AddPod_def Cache_DeletePod_def Cache_AddNode_def Cache_DeleteNode_def
    Cache_AssumePod_def Cache_ForgetPod_def Let_def NewNodeInfo_typed split: option.split prod.split
    dest: add_typed del_typed intro!: fmpred_upd fmpred_drop)

lemma ext_run_typed:
  assumes "deployment_ok p" "ext_run p evs (ext_start n q w) = Some s"
  shows "cache_typed (get_cache s)"
proof -
  have "cache_op\<^sup>*\<^sup>* NewScheduleCache (get_cache s)"
    using ext_run_ops [OF assms] by (simp add: ext_start_def get_cache_def controller_def Run_def)
  moreover have "cache_typed NewScheduleCache" by (simp add: cache_typed_def NewScheduleCache_def)
  ultimately show ?thesis by (induction rule: rtranclp_induct) (auto dest: cache_op_typed)
qed

end
