(* ===== verification/DoubleBooking.thy ===== *)
theory DoubleBooking
  imports ExtenderOps
begin

text \<open>
  Where a double booking comes from. A step of the extender that leaves two pods of a node on
  the same orin, though the node was sound before it, is no bind: it has been handed a pod by
  the informers, whose board and orins overlap those of another pod it was handed or the node
  holds. Nothing is asked of the pods, the requests or the API server.
\<close>

section \<open>The pods a step is handed\<close>

definition sync_pods :: "('q, 'w) env \<Rightarrow> ('q, 'w) Controller \<Rightarrow> string \<Rightarrow> Pod list" where
  "sync_pods e s key =
     (case SplitMetaNamespaceKey e key of
        Inl _ \<Rightarrow> []
      | Inr (ns, name) \<Rightarrow>
          (case podLister_Get e (world s) ns name of
             Inl _ \<Rightarrow> []
           | Inr pod \<Rightarrow>
               if IsCompletedPod pod then []
               else pod # (case Cache_GetNode (manager s) (pod_NodeName pod) of
                             Some _ \<Rightarrow> []
                           | None \<Rightarrow>
                               (case cs_GetNode (clientset e) (world s) (pod_NodeName pod) of
                                  (w', Inl _) \<Rightarrow> []
                                | (w', Inr node) \<Rightarrow> fst (getActivePodInNode e w' (node_Name node))))))"

fun informer_pods :: "('q, 'w) deployment \<Rightarrow> ('q, 'w) extender \<Rightarrow> 'w ext_event \<Rightarrow> Pod set" where
  "informer_pods p s (Workers (WorkItem i)) =
     (case wq_Get (d_env p) (podQueue (controller s)) of
        Item key q \<Rightarrow> set (sync_pods (d_env p) (controller s) key)
      | _ \<Rightarrow> {})"
| "informer_pods p s (Informer (NodeInformer (Added (NodeObj node)))) =
     set (fst (getActivePodInNode (d_env p) (world (controller s)) (node_Name node)))"
| "informer_pods p s (Informer (NodeInformer (Updated old (NodeObj node)))) =
     set (fst (getActivePodInNode (d_env p) (world (controller s)) (node_Name node)))"
| "informer_pods p s _ = {}"

section \<open>Where the pods of a cache come from\<close>

definition pods_from :: "Pod set \<Rightarrow> scheduleCache \<Rightarrow> scheduleCache \<Rightarrow> bool" where
  "pods_from X c d \<longleftrightarrow>
     (\<forall>name ni' u q. Cache_GetNode d name = Some ni' \<longrightarrow> fmlookup (Pods ni') u = Some q \<longrightarrow>
        u = pod_UID q \<and> q \<in> X \<or>
        (\<exists>ni. Cache_GetNode c name = Some ni \<and> fmlookup (Pods ni) u = Some q))"

lemma pods_from_refl [simp]: "pods_from X c c"
  by (simp add: pods_from_def)

lemma pods_from_mono: "pods_from X c d \<Longrightarrow> X \<subseteq> Y \<Longrightarrow> pods_from Y c d"
  unfolding pods_from_def by blast

lemma pods_from_trans: "pods_from X c d \<Longrightarrow> pods_from X d e \<Longrightarrow> pods_from X c e"
  unfolding pods_from_def by blast

lemma pods_from_set_node:
  assumes "nodeCache d = fmupd n ni' (nodeCache c)"
    and "\<And>u q. fmlookup (Pods ni') u = Some q \<Longrightarrow>
      u = pod_UID q \<and> q \<in> X \<or> (\<exists>ni. fmlookup (nodeCache c) n = Some ni \<and> fmlookup (Pods ni) u = Some q)"
  shows "pods_from X c d"
  using assms by (auto simp: pods_from_def Cache_GetNode_def)

lemma pods_from_drop: "nodeCache d = fmdrop n (nodeCache c) \<Longrightarrow> pods_from X c d"
  by (auto simp: pods_from_def Cache_GetNode_def split: if_splits)

lemma AddPod_from: "pods_from {pod} c (fst (Cache_AddPod c pod))"
proof (cases "fst (Cache_AddPod c pod) = c")
  case False
  then obtain ni where ni: "fmlookup (nodeCache c) (pod_NodeName pod) = Some ni"
    "nodeCache (fst (Cache_AddPod c pod)) = fmupd (pod_NodeName pod) (fst (NodeInfo_addPod ni pod)) (nodeCache c)"
    by (auto simp: Cache_AddPod_def split: option.splits prod.splits if_splits)
  from pods_from_set_node [OF this(2)] show ?thesis using ni(1) addPod_Pods [of ni pod] by blast
qed simp

lemma DeletePod_from: "pods_from X c (fst (Cache_DeletePod c pod))"
proof (cases "fst (Cache_DeletePod c pod) = c")
  case False
  then obtain ni where ni: "fmlookup (nodeCache c) (pod_NodeName pod) = Some ni"
    "nodeCache (fst (Cache_DeletePod c pod)) = fmupd (pod_NodeName pod) (fst (NodeInfo_deletePod ni pod)) (nodeCache c)"
    by (auto simp: Cache_DeletePod_def Let_def split: option.splits prod.splits if_splits)
  from pods_from_set_node [OF this(2)] show ?thesis using ni(1) deletePod_Pods [of ni pod] by blast
qed simp

lemma AddNode_from: "pods_from (set pods) c (fst (Cache_AddNode c node pods))"
  by (rule pods_from_set_node [of _ "node_Name node" "NewNodeInfo node pods"])
    (auto simp: Cache_AddNode_def dest: NewNodeInfo_Pods)

lemma UpdateNode_from: "pods_from (set pods) c (fst (Cache_UpdateNode c old node pods))"
proof (cases "fst (Cache_UpdateNode c old node pods) = c")
  case False
  then obtain ni' where ni': "nodeCache (fst (Cache_UpdateNode c old node pods)) = fmupd (node_Name node) ni' (nodeCache c)"
    "Pods ni' = Pods (NewNodeInfo node pods)"
    by (auto simp: Cache_UpdateNode_def Let_def split: if_splits)
  from pods_from_set_node [OF this(1)] show ?thesis using ni'(2) NewNodeInfo_Pods by metis
qed simp

lemma DeleteNode_from: "pods_from X c (fst (Cache_DeleteNode c node))"
  by (cases "has_key (nodeCache c) (node_Name node)")
    (auto simp: Cache_DeleteNode_def intro: pods_from_drop [of _ "node_Name node"])

section \<open>The controller's steps\<close>

lemma assignPod_from:
  assumes "IsCompletedPod pod = False" "SplitMetaNamespaceKey e key = Inr (ns, name)"
    "podLister_Get e (world s) ns name = Inr pod"
  shows "pods_from (set (sync_pods e s key)) (manager s) (manager (fst (assignPod e s pod)))"
proof (cases "fmlookup (pod_Annotations pod) AnnotationPodBindToBoard")
  case None
  then show ?thesis by (simp add: assignPod_def)
next
  case ann: (Some board)
  have pod: "{pod} \<subseteq> set (sync_pods e s key)" using assms by (simp add: sync_pods_def)
  note add = pods_from_mono [OF AddPod_from pod]
  show ?thesis
  proof (cases "Cache_GetNode (manager s) (pod_NodeName pod)")
    case (Some ni)
    then show ?thesis using ann add [of "manager s"] by (simp add: assignPod_def split_beta)
  next
    case None
    obtain w' res where get: "cs_GetNode (clientset e) (world s) (pod_NodeName pod) = (w', res)" by fastforce
    show ?thesis
    proof (cases res)
      case (Inl err)
      then show ?thesis using ann None get add [of "manager s"] by (simp add: assignPod_def split_beta)
    next
      case (Inr node)
      let ?pods = "fst (getActivePodInNode e w' (node_Name node))"
      let ?c = "fst (Cache_AddNode (manager s) node ?pods)"
      have "set ?pods \<subseteq> set (sync_pods e s key)"
        using assms None get Inr by (auto simp: sync_pods_def)
      from pods_from_trans [OF pods_from_mono [OF AddNode_from this] add]
      have "pods_from (set (sync_pods e s key)) (manager s) (fst (Cache_AddPod ?c pod))" .
      moreover have "manager (fst (assignPod e s pod)) = fst (Cache_AddPod ?c pod)"
        using ann None get Inr by (simp add: assignPod_def Let_def split_beta)
      ultimately show ?thesis by simp
    qed
  qed
qed

lemma sync_pods_queue [simp]: "sync_pods e (s\<lparr>podQueue := q\<rparr>) key = sync_pods e s key"
  by (simp add: sync_pods_def split: sum.split option.split prod.split)

lemma syncPod_from: "pods_from (set (sync_pods e s key)) (manager s) (manager (fst (syncPod e s key)))"
proof (cases "SplitMetaNamespaceKey e key")
  case (Inl err)
  then show ?thesis by (simp add: syncPod_def)
next
  case key: (Inr nn)
  obtain ns name where nn: "nn = (ns, name)" by fastforce
  show ?thesis
  proof (cases "podLister_Get e (world s) ns name")
    case (Inl err)
    then show ?thesis using key nn by (simp add: syncPod_def split: lister_error.split)
  next
    case (Inr pod)
    have split: "manager (fst (syncPod e s key)) =
        (if IsCompletedPod pod then fst (Cache_DeletePod (manager s) pod)
         else if pod_NodeName pod = [] then manager s else manager (fst (assignPod e s pod)))"
      using key nn Inr by (simp add: syncPod_def releasePod_def split: prod.split option.split)
    show ?thesis
      unfolding split using assignPod_from [OF _ key [unfolded nn] Inr] DeletePod_from by simp
  qed
qed

lemma deliver_from:
  assumes "filtering_contract (d_filtering p)" "deliver (d_filtering p) (d_env p) ev (controller s) = Ret t"
  shows "pods_from (informer_pods p s (Informer ev)) (get_cache s) (manager t)"
proof (cases ev)
  case (PodInformer n)
  have del: "pods_from X (manager (controller s)) (manager (deletePodFromCache (controller s) obj))" for X obj
    using DeletePod_from by (auto simp: deletePodFromCache_def releasePod_def split: obj.split)
  from PodInformer assms del show ?thesis
    by (cases n) (auto simp del: deliver.simps simp: deliver_pod_simps pod_handlers_queue get_cache_def split: if_splits)
next
  case (NodeInformer n)
  with assms(2) show ?thesis
    by (cases n) (auto simp: node_handlers_def addNodeToCache_def updateNodeInCache_def deleteNodeFromCache_def Let_def
        get_cache_def AddNode_from UpdateNode_from DeleteNode_from split: obj.splits if_splits)
qed

section \<open>Binding\<close>

text \<open>A bind on the board the allocator chose is refused and changes nothing, or books no orin twice.\<close>

lemma addPod_chosen:
  assumes sound: "node_sound ni" and fits: "fits_board (Allocatable ni) (BuildRequestOrinSet pod) b"
    and b: "bind_board pod = Some b" and run: "NodeInfo_addPod ni pod = (ni', e)"
  shows "if e = None then disjoint_pods (Pods ni') else ni' = ni"
proof (cases "has_key (Pods ni) (pod_UID pod)")
  case False
  from node_sound_addPod [OF sound False b fits] run show ?thesis
    using node_sound_accounts(2) by simp
next
  case True
  have inv: "ni_inv ni" using sound by (simp add: node_sound_def)
  show ?thesis
  proof (cases "fits_board (Requested ni) (BuildRequestOrinSet pod) b")
    case False
    then have "NodeInfo_deletePod ni pod = (ni, snd (NodeInfo_deletePod ni pod)) \<and> snd (NodeInfo_deletePod ni pod) \<noteq> None"
      by (simp add: deletePod_eq [OF b True])
    then show ?thesis using run True b by (auto simp: NodeInfo_addPod_def bind_board_Some)
  next
    case fitsR: True
    then have "{b} \<times> fset (BuildRequestOrinSet pod) \<subseteq> slots (Requested ni) \<inter> slots (Allocatable ni)"
      using fits by (auto simp: fits_board_slots simp del: slots_iff)
    then have empty: "BuildRequestOrinSet pod = {||}" using ni_inv_slots [OF inv] by auto
    obtain ni1 where del: "NodeInfo_deletePod ni pod = (ni1, None)" "Pods ni1 = fmdrop (pod_UID pod) (Pods ni)"
      "Requested ni1 = board_minus (Requested ni) (release_of pod b)" "Total ni1 = Total ni"
      using fitsR by (simp add: deletePod_eq [OF b True])
    have "covers (Total ni1) (requested_after ni1 pod b)"
      using inv fitsR
      by (auto simp: del(3,4) ni_inv_iff covers_slots slots_requested_after BoardSet_requested_after slots_minus
          slots_release empty fits_board_slots simp del: slots_iff)
    then have "e = None" "Pods ni' = fmupd (pod_UID pod) pod (fmdrop (pod_UID pod) (Pods ni))"
      using run by (auto simp: addPod_known [OF b True del(1)] addPod_request_eq del(2))
    moreover have "disjoint_pods (fmupd (pod_UID pod) pod (fmdrop (pod_UID pod) (Pods ni)))"
      by (intro disjoint_pods_upd disjoint_pods_drop node_sound_accounts(2) [OF sound])
        (simp add: pod_slots_bound [OF b] empty)
    ultimately show ?thesis by simp
  qed
qed

definition node_disjoint :: "string \<Rightarrow> scheduleCache \<Rightarrow> bool" where
  "node_disjoint name c \<longleftrightarrow> (\<forall>ni. Cache_GetNode c name = Some ni \<longrightarrow> disjoint_pods (Pods ni))"

lemma disjoint_pods_sub:
  "disjoint_pods ps \<Longrightarrow> (\<And>u q. fmlookup qs u = Some q \<Longrightarrow> fmlookup ps u = Some q) \<Longrightarrow> disjoint_pods qs"
  unfolding disjoint_pods_def by blast

lemma AssumePod_chosen:
  assumes "node_sound ni" "Cache_GetNode c node = Some ni" "range_order rng" "b \<noteq> BoardIDNotFount"
    and "boardID (BinpackAllocate rng (Allocatable ni) (BuildRequestOrinSet pod)) = b"
    and run: "Cache_AssumePod c (AddPodBindAnnotation pod b) node = (c', e)"
  shows "if e = None then node_disjoint node c' else c' = c"
proof (cases "has_key (podMaps c) (pod_UID pod)")
  case True
  with AssumePod_known [of c "AddPodBindAnnotation pod b" node] run show ?thesis by auto
next
  case False
  have fits: "fits_board (Allocatable ni) (BuildRequestOrinSet pod) b" by (rule chosen_fits [OF assms(3,5,4)])
  have b: "in_int64 b" by (rule chosen_board_int64 [OF assms(1) fits])
  obtain ni' e' where add: "NodeInfo_addPod ni (AddPodBindAnnotation pod b) = (ni', e')" by fastforce
  have "if e' = None then disjoint_pods (Pods ni') else ni' = ni"
    by (rule addPod_chosen [OF assms(1) _ _ add]) (use fits b in simp_all)
  then show ?thesis
    using run False assms(2) add
    by (cases e') (auto simp: Cache_AssumePod_def node_disjoint_def Cache_GetNode_def set_node_same)
qed

lemma ForgetPod_disjoint: "node_disjoint name c \<Longrightarrow> node_disjoint name (fst (Cache_ForgetPod c pod node))"
  using deletePod_Pods
  by (auto simp: node_disjoint_def Cache_ForgetPod_def Cache_GetNode_def split: option.split prod.split)
    (metis disjoint_pods_sub fst_conv)

lemma bindPod_disjoint:
  fixes cs :: "'w clientset"
  assumes rng: "range_order rng"
    and sound: "\<And>ni. Cache_GetNode c node = Some ni \<Longrightarrow> node_sound ni"
    and at: "fst s = c \<or> has_key (podMaps (fst s)) u \<and> node_disjoint node (fst s)"
    and run: "bindPod cs rng node name ns u s = Ret (s', e)"
  shows "fst s' = c \<or> has_key (podMaps (fst s')) u \<and> node_disjoint node (fst s')"
proof -
  obtain cc w np where s: "s = (cc, w, np)" by (metis prod_cases3)
  obtain c' w' np' where s': "s' = (c', w', np')" by (metis prod_cases3)
  note go = run [unfolded s s']
  show ?thesis
  proof (cases "has_key (podMaps cc) u")
    case True
    with bindPod_known [OF True go] at show ?thesis by (simp add: s s')
  next
    case False
    with at have c: "cc = c" by (simp add: s)
    from go [unfolded c] show ?thesis
    proof (cases rule: bindPod_cases)
      case unchanged
      then show ?thesis by (simp add: s')
    next
      case (refused err ni pod b c1)
      with AssumePod_chosen [OF sound [OF refused(2)] refused(2) rng refused(5,4,6)] show ?thesis by (simp add: s')
    next
      case (assumed ni pod b)
      with AssumePod_chosen [OF sound [OF assumed(2)] assumed(2) rng assumed(5,4,7)]
        AssumePod_success_known [of c "AddPodBindAnnotation pod b" node] show ?thesis by (simp add: s')
    next
      case (undone err ni pod b c1)
      with AssumePod_chosen [OF sound [OF undone(2)] undone(2) rng undone(5,4,6)]
        AssumePod_success_known [of c "AddPodBindAnnotation pod b" node] ForgetPod_disjoint [of node c1 pod node]
      show ?thesis by (simp add: s')
    qed
  qed
qed

lemma Bind_disjoint:
  fixes cs :: "'w clientset"
  assumes rng: "range_order rng" and retry: "retry_contract R"
    and sound: "\<And>ni. Cache_GetNode c node = Some ni \<Longrightarrow> node_sound ni"
    and run: "Bind cs R rng c w node name ns u = Ret ((c', w'), e)"
  shows "node_disjoint node c'"
proof (cases "Cache_GetNode c node")
  case None
  with run show ?thesis by (auto simp: Bind_def node_disjoint_def)
next
  case (Some ni)
  have start: "node_disjoint node c" using sound node_sound_accounts(2) by (auto simp: node_disjoint_def)
  from Bind_known_node [OF Some run] obtain c1 w1 np e1 where
    R: "R 3 (bindPod cs rng node name ns u) (c, w, None) = Ret ((c1, w1, np), e1)"
    and c': "if e1 = None \<and> e \<noteq> None then \<exists>p. np = Some p \<and> c' = fst (Cache_ForgetPod c1 p node) else c' = c1" .
  let ?I = "\<lambda>s. fst s = c \<or> has_key (podMaps (fst s)) u \<and> node_disjoint node (fst s)"
  have "if e1 = None then ?I (c1, w1, np) else ?I (c1, w1, np)"
    by (rule attempts_rule [where I = ?I and f = "bindPod cs rng node name ns u" and s = "(c, w, None)" and n = 3,
          OF _ _ _ retry_Ret [OF retry R]])
      (use bindPod_disjoint [OF rng sound] in blast | simp)+
  then have "node_disjoint node c1" using start by auto
  with c' show ?thesis by (auto simp: ForgetPod_disjoint split: if_splits)
qed

text \<open>On every other node a bind changes nothing.\<close>

lemma Bind_other_node:
  fixes cs :: "'w clientset"
  assumes retry: "retry_contract R" and run: "Bind cs R rng c w node name ns u = Ret ((c', w'), e)" and other: "n \<noteq> node"
  shows "Cache_GetNode c' n = Cache_GetNode c n"
proof (cases "Cache_GetNode c node")
  case None
  with run show ?thesis by (simp add: Bind_def)
next
  case (Some ni)
  have assume_frame: "Cache_GetNode (fst (Cache_AssumePod d pod node)) n = Cache_GetNode d n" for d pod
    using other by (auto simp: Cache_AssumePod_def Cache_GetNode_def split: option.split prod.split)
  have forget_frame: "Cache_GetNode (fst (Cache_ForgetPod d pod node)) n = Cache_GetNode d n" for d pod
    using other by (auto simp: Cache_ForgetPod_def Cache_GetNode_def split: option.split prod.split)
  let ?I = "\<lambda>s. Cache_GetNode (fst s) n = Cache_GetNode c n"
  have step: "?I t'" if "?I t" "bindPod cs rng node name ns u t = Ret (t', e)" for t t' e
  proof -
    obtain cc ww np where t: "t = (cc, ww, np)" by (metis prod_cases3)
    obtain c2 w2 np2 where t': "t' = (c2, w2, np2)" by (metis prod_cases3)
    from that(2) [unfolded t t'] show ?thesis
      by (cases rule: bindPod_cases)
        (use that(1) t t' assume_frame [of cc] forget_frame in \<open>auto dest!: arg_cong [where f = fst]\<close>)
  qed
  from Bind_known_node [OF Some run] obtain c1 w1 np e1 where
    R: "R 3 (bindPod cs rng node name ns u) (c, w, None) = Ret ((c1, w1, np), e1)"
    and c': "if e1 = None \<and> e \<noteq> None then \<exists>p. np = Some p \<and> c' = fst (Cache_ForgetPod c1 p node) else c' = c1" .
  have "if e1 = None then ?I (c1, w1, np) else ?I (c1, w1, np)"
    by (rule attempts_rule [where I = ?I and f = "bindPod cs rng node name ns u" and s = "(c, w, None)" and n = 3,
          OF _ _ _ retry_Ret [OF retry R]])
      (use step in blast | simp)+
  with c' forget_frame show ?thesis by (auto split: if_splits)
qed

section \<open>One step of the extender\<close>

lemma request_disjoint:
  assumes ok: "deployment_ok p" and sound: "\<And>ni. Cache_GetNode (get_cache s) name = Some ni \<Longrightarrow> node_sound ni"
    and run: "serve p s r = Some (Ret (t, rsp))"
  shows "node_disjoint name (get_cache t)"
  using run
proof (cases rule: serve_cases)
  case read
  then have "get_cache t = get_cache s" by (simp add: get_cache_def controller_def)
  then show ?thesis using sound node_sound_accounts(2) by (auto simp: node_disjoint_def)
next
  case (bind args cw e)
  obtain c' w' where cw: "cw = (c', w')" by fastforce
  have t: "get_cache t = c'"
    using bind(3) put_bind_simps(1) [of cw s] by (simp only: get_cache_def controller_def cw fst_conv)
  have contracts: "range_order (x_rng (d_extension p))" "retry_contract (x_retry (d_extension p))"
    using ok by (simp_all add: deployment_ok_def)
  note run = bind(2) [unfolded asked_bind_def cw]
  show ?thesis
  proof (cases "name = ba_Node args")
    case True
    then show ?thesis unfolding t using Bind_disjoint [OF contracts _ run] sound by simp
  next
    case False
    then show ?thesis unfolding t
      using Bind_other_node [OF contracts(2) run False] sound node_sound_accounts(2) by (auto simp: node_disjoint_def)
  qed
qed

lemma step_request_disjoint:
  assumes "deployment_ok p" "\<And>ni. Cache_GetNode (get_cache s) name = Some ni \<Longrightarrow> node_sound ni"
    "ext_next p (Request r) s = Some t"
  shows "node_disjoint name (get_cache t)"
proof (cases "serve p s r")
  case None
  with assms(3) assms(2) node_sound_accounts(2) show ?thesis by (auto simp: node_disjoint_def)
next
  case (Some res)
  then obtain rsp where "serve p s r = Some (Ret (t, rsp))" using assms(3) by (auto split: outcome.splits)
  from request_disjoint [OF assms(1,2) this] show ?thesis .
qed

lemma step_from:
  assumes "deployment_ok p" "ext_next p ev s = Some t" "\<And>r. ev \<noteq> Request r"
  shows "pods_from (informer_pods p s ev) (get_cache s) (get_cache t)"
proof (cases ev)
  case (Informer iev)
  with assms(2) obtain c where "deliver (d_filtering p) (d_env p) iev (controller s) = Ret c" "t = set_controller c s"
    by (auto split: outcome.splits)
  with Informer assms(1) deliver_from show ?thesis by (auto simp: deployment_ok_def)
next
  case (Workers wev)
  then show ?thesis
  proof (cases wev)
    case (WorkItem i)
    with Workers assms(2) obtain c continue where
      run: "processNextWorkItem (d_env p) (controller s) = Some (c, continue)" "controller t = c"
      by (auto simp: controller_def split: if_splits option.splits)
    have t: "get_cache t = manager c" using run(2) by (simp add: get_cache_def)
    show ?thesis
    proof (cases "wq_Get (d_env p) (podQueue (controller s))")
      case (Item key q)
      then have "manager c = manager (fst (syncPod (d_env p) ((controller s)\<lparr>podQueue := q\<rparr>) key))"
        using run(1) by (auto simp: processNextWorkItem_Item [OF Item] Let_def split: prod.splits)
      then show ?thesis
        using syncPod_from [of "d_env p" "(controller s)\<lparr>podQueue := q\<rparr>" key] Item Workers WorkItem
        unfolding t by (simp add: get_cache_def)
    next
      case (Quit q)
      then have "manager c = get_cache s" using run(1) by (auto simp: processNextWorkItem_def get_cache_def)
      then show ?thesis by (simp add: t)
    qed (use run(1) in \<open>simp add: processNextWorkItem_def\<close>)
  qed (use Workers assms(2) in \<open>auto simp: get_cache_def controller_def split: if_splits\<close>)
next
  case (Outside w)
  with assms(2) show ?thesis by (auto simp: get_cache_def)
qed (use assms(3) in blast)

lemma double_booking_from:
  assumes orig: "pods_from X c d" and d: "Cache_GetNode d name = Some ni" "\<not> disjoint_pods (Pods ni)"
    and sound: "\<And>ni. Cache_GetNode c name = Some ni \<Longrightarrow> node_sound ni"
  shows "\<exists>x y. x \<in> X \<and> pod_UID x \<noteq> pod_UID y \<and> pod_slots x \<inter> pod_slots y \<noteq> {} \<and>
     (y \<in> X \<or> (\<exists>ni. Cache_GetNode c name = Some ni \<and> fmlookup (Pods ni) (pod_UID y) = Some y))"
proof -
  let ?held = "\<lambda>u q. \<exists>ni. Cache_GetNode c name = Some ni \<and> fmlookup (Pods ni) u = Some q"
  obtain u v x y where uv: "u \<noteq> v" "fmlookup (Pods ni) u = Some x" "fmlookup (Pods ni) v = Some y"
    "pod_slots x \<inter> pod_slots y \<noteq> {}"
    using d(2) unfolding disjoint_pods_def by blast
  have origin: "pod_UID q = w \<and> (q \<in> X \<or> ?held w q)" if "fmlookup (Pods ni) w = Some q" for w q
  proof -
    have "w = pod_UID q \<and> q \<in> X \<or> ?held w q" using orig d(1) that unfolding pods_from_def by blast
    moreover have "pod_UID q = w" if "?held w q"
      using that sound ni_exclusiveD by (auto simp: node_sound_def)
    ultimately show ?thesis by blast
  qed
  have "\<not> (?held u x \<and> ?held v y)"
  proof
    assume "?held u x \<and> ?held v y"
    then obtain ni0 where "Cache_GetNode c name = Some ni0" "fmlookup (Pods ni0) u = Some x" "fmlookup (Pods ni0) v = Some y"
      by auto
    with node_sound_accounts(2) [OF sound] uv show False unfolding disjoint_pods_def by blast
  qed
  with origin [OF uv(2)] origin [OF uv(3)] uv(1,4) show ?thesis by (metis Int_commute)
qed

end
