(* ===== verification/SystemProperties.thy ===== *)
theory SystemProperties
  imports SystemSamples DoubleBooking
begin

text \<open>
  The properties of the whole programs: the extender as requests, notifications and workers
  interleave over its cache, its start, the plugin from \<open>main\<close> to its loops,
  and the node account on a heap of shared maps.
\<close>

section \<open>The extender\<close>

lemma ext_node_sound:
  assumes "deployment_ok p" "ext_reachable p n s" "Cache_GetNode (get_cache s) name = Some ni"
  shows "node_sound ni"
  using cache_soundD [OF cache_reachable_sound [OF ext_reachable_cache [OF assms(1,2)]]] assms(3)
  by (simp add: Cache_GetNode_def)

lemma k_late_node:
  obtains ni r where "Cache_GetNode (get_cache k_before) ''n1'' = Some ni" "\<not> has_key (Pods ni) ''u1''"
    "fits_board (Total ni) {|1|} 1" "fmlookup (Pods ni) ''u3'' = Some r" "pod_slots r \<inter> pod_slots k_old \<noteq> {}"
proof -
  obtain ni r where ni: "Cache_GetNode (get_cache k_before) ''n1'' = Some ni" "\<not> has_key (Pods ni) ''u1''"
    "fits_board (Total ni) {|1|} 1" "fmlookup (Pods ni) ''u3'' = Some r" "bind_board r = Some 1" "BuildRequestOrinSet r = {|1|}"
    using k_before_late by (auto simp: k_late_def split: option.splits)
  have "pod_slots r \<inter> pod_slots k_old \<noteq> {}" by (simp add: pod_slots_def ni(5,6) k_old_facts)
  then show ?thesis by (rule that [OF ni(1-4)])
qed

lemma k_late_facts:
  "late_pod k_deploy k_before k_old" "0 < length (workers (running k_before))" "workers (running k_before) ! 0 = Working"
  "cache_sound (get_cache k_before)"
  using k_before_late cache_reachable_sound [OF ext_reachable_cache [OF k_deploy_ok k_before_reachable]]
  by (simp_all add: k_late_def)




text \<open>
  Under the discipline \<open>ext_ok\<close>, by which the pods the informers hand in fit beside the others, no
  orin is booked twice in any state, and the account is exact.
\<close>

lemma ext_discipline_accounts:
  assumes "deployment_ok p" "ext_reachable p n s" "Cache_GetNode (get_cache s) name = Some ni"
  shows "disjoint_pods (Pods ni) \<and> slots (Requested ni) = held_slots (Pods ni) \<and>
     held_slots (Pods ni) \<subseteq> slots (Total ni) \<and>
     slots (Allocatable ni) = slots (Total ni) - held_slots (Pods ni)"
  using node_sound_accounts [OF ext_node_sound [OF assms]] by blast



text \<open>
  C2: As long as no event releases a pod, the extender answers at most one bind request for it
  with success, in every interleaving of requests, notifications and workers, whatever the
  API server and the lister answer.
\<close>

theorem extender_binds_once:
  assumes "deployment_ok p" "unreleased p u evs s"
  shows "run_sum p (ev_binds p u) evs s \<le> 1"
  by (rule binds_at_most_once [OF assms])

lemma extender_binds_once_witness:
  "run_sum k_deploy (ev_binds k_deploy ''u3'') (k_restart @ [Request k_bind]) k_start = 1"
proof -
  have "unreleased k_deploy ''u3'' (k_restart @ [Request k_bind]) k_start"
    by (simp add: k_restart_def split: option.split)
  with extender_binds_once [OF k_deploy_ok]
  have "run_sum k_deploy (ev_binds k_deploy ''u3'') (k_restart @ [Request k_bind]) k_start \<le> 1" by blast
  moreover have "0 < run_sum k_deploy (ev_binds k_deploy ''u3'') (k_restart @ [Request k_bind]) k_start"
    by code_simp
  ultimately show ?thesis by simp
qed

text \<open>
  C3: A pod that runs on a node before the cache learns of it can have lost its orins by then.
  When a worker takes its key and the orins it was given are held by another pod, the sync
  reports success, and from then on the cache has two pods on the same orins.
\<close>

theorem late_sync_double_books:
  assumes "late_pod p s q" "cache_sound (get_cache s)"
    and "i < length (workers (running s))" "workers (running s) ! i = Working"
    and "Cache_GetNode (get_cache s) (pod_NodeName q) = Some ni" "\<not> has_key (Pods ni) (pod_UID q)"
    and "bind_board q = Some b" "fits_board (Total ni) (BuildRequestOrinSet q) b"
    and "fmlookup (Pods ni) u = Some r" "pod_slots r \<inter> pod_slots q \<noteq> {}"
  shows "\<exists>t ni'. ext_next p (Workers (WorkItem i)) s = Some t \<and> ev_synced p (Workers (WorkItem i)) s = 1 \<and>
     Cache_GetNode (get_cache t) (pod_NodeName q) = Some ni' \<and> \<not> disjoint_pods (Pods ni')"
proof -
  obtain t ni' where t: "ext_next p (Workers (WorkItem i)) s = Some t" "ev_synced p (Workers (WorkItem i)) s = 1"
    "Cache_GetNode (get_cache t) (pod_NodeName q) = Some ni'" "Pods ni' = fmupd (pod_UID q) q (Pods ni)"
    using late_sync [OF assms(1-8)] by blast
  have "u \<noteq> pod_UID q" using assms(6,9) by (auto simp: has_key_def)
  then have "fmlookup (Pods ni') u = Some r" "fmlookup (Pods ni') (pod_UID q) = Some q" "u \<noteq> pod_UID q"
    using assms(9) by (simp_all add: t(4))
  then have "\<not> disjoint_pods (Pods ni')" using assms(10) unfolding disjoint_pods_def by blast
  with t show ?thesis by blast
qed

lemma late_sync_double_books_witness:
  "\<exists>t ni'. ext_next k_deploy (Workers (WorkItem 0)) k_before = Some t \<and>
     Cache_GetNode (get_cache t) ''n1'' = Some ni' \<and> \<not> disjoint_pods (Pods ni')"
proof -
  obtain ni r where ni: "Cache_GetNode (get_cache k_before) ''n1'' = Some ni" "\<not> has_key (Pods ni) ''u1''"
    "fits_board (Total ni) {|1|} 1" "fmlookup (Pods ni) ''u3'' = Some r" "pod_slots r \<inter> pod_slots k_old \<noteq> {}"
    by (rule k_late_node)
  from late_sync_double_books [OF k_late_facts(1,4,2,3) _ _ k_old_facts(1) _ ni(4,5), unfolded k_old_facts, OF ni(1-3)]
  show ?thesis by blast
qed

text \<open>
  C12: A bind whose update the API server refuses, of a pod that still carries the board of an
  earlier bind, gives back the orins of that board though another pod holds them: that pod
  stays on the node and its orins become allocatable, while the orins just chosen are lost.
\<close>

theorem stale_annotation_frees_other_pod:
  assumes "range_order rng" "fresh_bind c node u" "\<not> has_key (podMaps c) u" "retry_contract R"
    "Cache_GetNode c node = Some ni" "answers cs pod (Some err) bnd" "pod_UID pod = u"
    "policy_of pod = AllocatorPolicyBinPack"
    "boardID (BinpackAllocate rng (Allocatable ni) (BuildRequestOrinSet pod)) = b" "b \<noteq> BoardIDNotFount"
    and "bind_board pod = Some d" "fmlookup (Pods ni) v = Some q" "bind_board q = Some d"
      "BuildRequestOrinSet pod |\<subseteq>| BuildRequestOrinSet q"
  shows "\<exists>c' w' e ni'. Bind cs R rng c w node name ns u = Ret ((c', w'), Some e) \<and>
     Cache_GetNode c' node = Some ni' \<and> fmlookup (Pods ni') v = Some q \<and> \<not> has_key (Pods ni') u \<and>
     slots (Allocatable ni') =
       (slots (Allocatable ni) - {b} \<times> fset (BuildRequestOrinSet pod)) \<union> {d} \<times> fset (BuildRequestOrinSet pod)"
  by (rule Bind_stale_annotation [OF assms])

lemma stale_annotation_frees_other_pod_witness:
  "\<exists>c' w' e ni'. Bind (s_client t_pod (Some ''conflict'') None) s_retry sorted_range t_cache 0 ''n1'' ''u2'' ''d'' ''u2'' = Ret ((c', w'), Some e) \<and>
     Cache_GetNode c' ''n1'' = Some ni' \<and> fmlookup (Pods ni') ''u1'' = Some s_b1 \<and> (1, 1) \<in> slots (Allocatable ni')"
proof -
  have "(2 :: int) \<noteq> BoardIDNotFount" by (simp add: BoardIDNotFount_def)
  from stale_annotation_frees_other_pod [OF range_order_sorted t_fresh t_facts(1) s_retry_contract t_node_cached
      s_client_answers t_facts(2,3,4) this t_facts(5) t_victim t_facts(7,6), of "''conflict''" None 0 "''u2''" "''d''"]
  show ?thesis by (auto simp: t_facts(8) simp del: slots_iff)
qed

text \<open>
  C16: The workers sync at most one pod per wake-up, however long the queue is: along every run
  from the start the items whose \<open>syncPod\<close> returned nil are no more than the times a worker was
  woken, which \<open>wait.Until\<close> does once a second for each, since \<open>processNextWorkItem\<close> ends the
  worker's run after a success.
\<close>

theorem worker_throughput:
  assumes "ext_run p evs (ext_start n q w) = Some t"
  shows "run_sum p (ev_synced p) evs (ext_start n q w) \<le> run_sum p ev_starts evs (ext_start n q w)"
  using run_busy [OF assms] by simp

lemma worker_throughput_witness:
  "run_sum k_deploy (ev_synced k_deploy) k_restart k_start \<le> run_sum k_deploy ev_starts k_restart k_start"
  using worker_throughput [OF k_run [unfolded k_start_def]] by (simp add: k_start_def)

section \<open>Start and end of the extender\<close>

text \<open>
  C13: An extender that serves has a client and is in a state of the extender machine: from the
  empty cache, the given queue and one idle worker per thread, notifications and changes of the
  world brought it there while the caches synced. On its router each request does what \<open>serve\<close>
  says: the version, filter, score and bind routes and no other.
\<close>

theorem scheduler_main_serves:
  assumes "router_contract (http_router pf)" "scheduler_main pf queue w = Serving r s"
    and "\<And>cs c. delivered (d_filtering (deploy pf cs)) (d_env (deploy pf cs)) c (fst (wait_nodes pf c))"
      "\<And>cs c. delivered (d_filtering (deploy pf cs)) (d_env (deploy pf cs)) c (fst (wait_pods pf c))"
  shows "\<exists>cs evs. BuildClientSet (kube_config pf) (kubeconfig (parse_flags pf InitFlag)) = Go (Inr cs) \<and>
     list_all warm_up evs \<and>
     ext_run (deploy pf cs) evs (ext_start (nat (threadness (parse_flags pf InitFlag))) queue w) = Some s \<and>
     (\<forall>s req. map_option (\<lambda>h. h s req) (rt_Lookup (http_router pf) r (rq_Method req) (rq_Path req)) =
        serve (deploy pf cs) s req)"
proof -
  let ?n = "nat (threadness (parse_flags pf InitFlag))"
  let ?c = "NewController (wait_nodes pf) (wait_pods pf) queue w NewScheduleCache"
  let ?start = "\<lparr>manager = NewScheduleCache, podQueue = queue, world = w\<rparr>"
  obtain cs c where cs: "BuildClientSet (kube_config pf) (kubeconfig (parse_flags pf InitFlag)) = Go (Inr cs)"
    "?c = (c, None)" "extender_router (http_router pf) (deploy pf cs) = Ret r"
    "s = \<lparr>running = Run ?n c, logged = []\<rparr>"
    using assms(2) unfolding scheduler_main_cases [OF assms(1)]
    by (auto simp: Let_def split: started.splits sum.splits prod.splits option.splits outcome.splits)
  have "delivered (d_filtering (deploy pf cs)) (d_env (deploy pf cs)) ?start (fst ?c)"
    by (rule NewController_delivered [OF assms(3,4)])
  from delivered_run [OF this, of "ext_start ?n queue w"] obtain evs where
    "list_all warm_up evs" "ext_run (deploy pf cs) evs (set_controller ?start (ext_start ?n queue w)) =
       Some (set_controller (fst ?c) (ext_start ?n queue w))" by blast
  moreover have "set_controller ?start (ext_start ?n queue w) = ext_start ?n queue w"
    "set_controller c (ext_start ?n queue w) = s"
    by (simp_all add: set_controller_def ext_start_def Run_def cs(4))
  ultimately show ?thesis using cs(1,2) router_serves [OF assms(1) cs(3)] by auto
qed

lemma scheduler_main_serves_witness:
  "\<exists>r s evs. scheduler_main k_platform [] ([], [k_old, k_new]) = Serving r s \<and> podQueue (controller s) = [''d/u1''] \<and>
     ext_run k_deploy evs (ext_start 4 [] ([], [k_old, k_new])) = Some s \<and>
     map_option (\<lambda>h. h s k_bind) (rt_Lookup k_router r ''POST'' bindPath) = serve k_deploy s k_bind"
proof -
  obtain r s where main: "scheduler_main k_platform [] ([], [k_old, k_new]) = Serving r s" "podQueue (controller s) = [''d/u1'']"
    using k_main by (elim exE conjE) (rule that)
  have pf: "http_router k_platform = k_router" "deploy k_platform cs = k_deploy"
    "wait_nodes k_platform = k_wait_nodes" "wait_pods k_platform = k_wait_pods"
    "d_filtering k_deploy = k_filtering" "d_env k_deploy = k_env"
    "nat (threadness (parse_flags k_platform InitFlag)) = 4" for cs
    by (simp_all add: k_platform_def k_deploy_def InitFlag_def)
  obtain evs where "ext_run k_deploy evs (ext_start 4 [] ([], [k_old, k_new])) = Some s"
    "\<forall>s req. map_option (\<lambda>h. h s req) (rt_Lookup k_router r (rq_Method req) (rq_Path req)) = serve k_deploy s req"
    using scheduler_main_serves [OF _ main(1)] unfolding pf by (blast intro: k_router_contract k_waits_deliver)
  moreover have "rq_Method k_bind = ''POST''" "rq_Path k_bind = bindPath" by (simp_all add: k_bind_def)
  ultimately show ?thesis using main by metis
qed

section \<open>The device plugin\<close>

text \<open>
  C14: A device plugin that runs has, for every orin class of its device file, a loop that serves
  the class's resource; the devices it lists are one per board that carries the orin, each
  once, and its states are those of the loop machine.
\<close>

theorem plugin_main_runs_every_class:
  assumes "deviceplugin_main pf w = Plugging c loops" "list_order (np_uns pf)" "range_order (np_servers pf)"
    "NewFileDeviceProvider (np_readFile pf) (np_unmarshal pf) (pf_providerConfig (np_parse pf Plugin_InitFlag)) = Inr p"
    "fmlookup (GetOrinClasses p) i = Some bs" "fBall bs in_int64" "fBall (fmdom (GetOrinClasses p)) in_int64"
  shows "\<exists>srv l. (srv, l) \<in> set loops \<and> ps_ResourceName srv = orin_resource i \<and> OrinID (ps_Server srv) = i \<and>
     distinct (map dv_ID (devices (ps_Server srv))) \<and>
     set (map dv_ID (devices (ps_Server srv))) = (\<lambda>b. device_id b i) ` fset bs \<and>
     loop_reachable (np_system pf) srv l"
proof -
  obtain env cfg w1 w2 plug where
    new: "NewOrinDevicePlugin env (np_uns pf) w1 cfg = ((w2, c), Inr plug)" "cfg_DeviceProvider cfg = file_methods p"
    and run: "OrinDevicePlugin_Run (np_system pf) (np_servers pf) plug w2 = Inr loops"
    using assms(1,4) by (elim Plugging_steps) force
  have "fmlookup (dp_GetOrinClasses (cfg_DeviceProvider cfg)) i = Some bs"
    "fBall (fmdom (dp_GetOrinClasses (cfg_DeviceProvider cfg))) in_int64"
    using assms(5,7) by (simp_all add: new(2) file_methods_def)
  from servers_every_class [OF new(1) assms(2) this(1) assms(6) this(2)] obtain srv where
    srv: "fmlookup plug (orin_resource i) = Some srv" "ps_ResourceName srv = orin_resource i" "OrinID (ps_Server srv) = i"
      "distinct (map dv_ID (devices (ps_Server srv)))"
      "set (map dv_ID (devices (ps_Server srv))) = (\<lambda>b. device_id b i) ` fset bs"
    by blast
  have ls: "map fst loops = map (\<lambda>k. the (fmlookup plug k)) (np_servers pf plug)"
    "\<forall>(p, s) \<in> set loops. loop_reachable (np_system pf) p s"
    using start_all_loops [of "np_system pf"] run by (auto simp: OrinDevicePlugin_Run_def)
  have "orin_resource i \<in> set (np_servers pf plug)"
    using range_orderD [OF assms(3), of plug] srv(1) by (simp add: fmdomI)
  then have "the (fmlookup plug (orin_resource i)) \<in> set (map fst loops)" unfolding ls(1) set_map by (rule imageI)
  then obtain l where "(srv, l) \<in> set loops" by (auto simp: srv(1))
  with srv ls(2) show ?thesis by blast
qed

lemma plugin_main_runs_every_class_witness:
  "\<exists>c loops srv l. deviceplugin_main k_node_platform 0 = Plugging c loops \<and> (srv, l) \<in> set loops \<and>
     ps_ResourceName srv = orin_resource 2 \<and> set (map dv_ID (devices (ps_Server srv))) = {''1-2'', ''2-2''}"
proof -
  obtain c loops where run: "deviceplugin_main k_node_platform 0 = Plugging c loops" using k_plugin_main by blast
  have ord: "list_order (np_uns k_node_platform)" "range_order (np_servers k_node_platform)"
    by (simp_all add: k_node_platform_def list_order_sorted range_order_sorted)
  have cls: "fmlookup (GetOrinClasses s_fp) 2 = Some {|1, 2|}" by code_simp
  have r1: "fBall {|1, 2|} in_int64" by (simp add: in_int64_def)
  have r2: "fBall (fmdom (GetOrinClasses s_fp)) in_int64" by code_simp
  have ids: "device_id 1 2 = ''1-2''" "device_id 2 2 = ''2-2''" by code_simp+
  from plugin_main_runs_every_class [OF run ord k_provider cls r1 r2] show ?thesis
    using run ids by (auto simp: image_iff)
qed

text \<open>
  C11: The plugin's loop with its real channels and the two goroutines of each server is the
  counting machine: each of its steps is a step of it or one of a goroutine, which it does not
  see. At most one server has not been told to stop, none once the loop has returned, and the
  one the loop serves accepts connections. However the goroutines were delayed, those that
  wait for a closed channel can run, and then no other server accepts any. The process dies
  only of a failed listen or of an error of gRPC's \<open>Serve\<close>: no channel is closed twice.
\<close>

theorem plugin_loop_refines:
  assumes "loop_reachable sys p s"
  shows "length (up s) \<le> 1 \<and> (at s = Returned \<longrightarrow> up s = []) \<and>
     (at s \<in> {Waiting, Registering, Selecting} \<longrightarrow>
        (\<exists>v. up s = [v] \<and> v \<in> set (accepting s) \<and> \<not> sv_exited v)) \<and>
     (\<not> dead s \<longrightarrow>
        (\<exists>is t. loop_run sys p (map StopRuns is) s = Some t \<and> at t = at s \<and> accepting t = up s \<and> up t = up s)) \<and>
     (\<forall>ch t. loop_next sys p ch s = Some t \<longrightarrow>
        (case loop_event sys p ch s of
           None \<Rightarrow> loop_abs t = loop_abs s
         | Some e \<Rightarrow> run_next e (loop_abs s) = Some (loop_abs t)) \<and>
        (dead t \<longrightarrow>
           at s = location.Serving \<and> Serve sys p (chan s) (sys_world s) = Panic \<or>
           (\<exists>i err. ch = ServeReturns i (Some err))))"
proof (intro conjI allI impI)
  have inv: "loop_inv s" "run_inv (loop_abs s)"
    using loop_reachable_abs [OF assms] run_reachable_inv by blast+
  then show "length (up s) \<le> 1" and "at s = Returned \<Longrightarrow> up s = []"
    by (auto simp: run_inv_def loop_abs_def)
  show "\<exists>v. up s = [v] \<and> v \<in> set (accepting s) \<and> \<not> sv_exited v" if "at s \<in> {Waiting, Registering, Selecting}"
  proof -
    have "length (up s) = 1" using inv(2) that by (auto simp: run_inv_def loop_abs_def)
    then obtain v where "up s = [v]" by (auto simp: length_Suc_conv)
    moreover from this have "v \<in> set (up s)" by simp
    moreover from this have "v \<in> set (served s)" by (simp add: up_def)
    ultimately show ?thesis using up_runs [OF inv(1)] by (auto simp: accepting_def)
  qed
  show "\<exists>is t. loop_run sys p (map StopRuns is) s = Some t \<and> at t = at s \<and> accepting t = up s \<and> up t = up s"
    if "\<not> dead s"
    by (rule stoppers_settle [OF inv(1) that])
  fix ch t
  assume run: "loop_next sys p ch s = Some t"
  show "case loop_event sys p ch s of None \<Rightarrow> loop_abs t = loop_abs s | Some e \<Rightarrow> run_next e (loop_abs s) = Some (loop_abs t)"
    using goroutine_stutters [OF run] loop_refines [OF inv(1) run] by (auto split: option.split)
  show "at s = location.Serving \<and> Serve sys p (chan s) (sys_world s) = Panic \<or> (\<exists>i err. ch = ServeReturns i (Some err))"
    if "dead t"
    by (rule dead_cause [OF inv(1) run that])
qed

lemma plugin_loop_refines_witness:
  "\<exists>t is u. loop_run k_system k_server k_rounds (k_loop (0 :: nat)) = Some t \<and> length (accepting t) = 2 \<and>
     loop_run k_system k_server (map StopRuns is) t = Some u \<and> length (accepting u) = 1"
proof -
  obtain t where t: "loop_run k_system k_server k_rounds (k_loop (0 :: nat)) = Some t" "length (accepting t) = 2"
    "at t = Waiting" "\<not> dead t"
    by (simp add: k_rounds_def k_loop_def loop_next_def dead_def accepting_def close_chan_def Serve_def Wait_def Register_def
        k_system_def socket_path_def register_request_def Let_def)
  from plugin_loop_refines [OF loop_run_reachable [OF k_loop_reachable t(1)]] t(3,4) obtain "is" u v where
    "loop_run k_system k_server (map StopRuns is) t = Some u" "accepting u = [v]" by auto
  with t(1,2) show ?thesis by force
qed

section \<open>The node account on the heap\<close>

text \<open>
  C9: With maps as references, shared and written in place as the code does, \<open>addPod\<close> and
  \<open>deletePod\<close> do on the heap what the value methods do, and keep the sharing harmless, for every
  pod whose board annotation is the one it was added with. They do so on errors too.
\<close>

theorem heap_methods_refine:
  assumes "sharing_ok h n" "consistent n pod"
  shows "(case heap_addPod n pod h of (h', n', e) \<Rightarrow>
        NodeInfo_addPod (node_at h n) pod = (node_at h' n', e) \<and> sharing_ok h' n') \<and>
     (case heap_deletePod n pod h of (h', n', e) \<Rightarrow>
        NodeInfo_deletePod (node_at h n) pod = (node_at h' n', e) \<and> sharing_ok h' n')"
  using heap_addPod_refines [OF assms] heap_deletePod_refines [OF assms] by (simp split: prod.split)

lemma heap_methods_refine_witness:
  "\<exists>h n h' n' e. heap_NewNodeInfo t_node [] a_heap = (h, n) \<and> heap_addPod n s_b1 h = (h', n', e) \<and>
     (node_at h' n', e) = NodeInfo_addPod (NewNodeInfo t_node []) s_b1"
proof -
  obtain h n where hn: "heap_NewNodeInfo t_node [] a_heap = (h, n)" "sharing_ok h n"
    "node_at h n = NewNodeInfo t_node []" "consistent n s_b1" by (rule a_fresh)
  obtain h' n' e where "heap_addPod n s_b1 h = (h', n', e)" by (metis prod_cases3)
  with heap_methods_refine [OF hn(2,4)] hn(1,3) show ?thesis by auto
qed

text \<open>
  C10: \<open>NewNodeInfo\<close> on the heap reads as its value and leaves harmless sharing, though
  \<open>Allocatable\<close> and \<open>Total\<close> start as one map, when copies of a pod in the list agree on the board.
\<close>

theorem heap_constructor_refines:
  assumes "one_board_each pods"
  shows "case heap_NewNodeInfo node pods h of (h', n) \<Rightarrow> node_at h' n = NewNodeInfo node pods \<and> sharing_ok h' n"
  using heap_NewNodeInfo_refines [OF assms] by (simp split: prod.split)

lemma heap_constructor_refines_witness:
  "\<exists>h n. heap_NewNodeInfo t_node [s_b1, t_pod] a_heap = (h, n) \<and> node_at h n = NewNodeInfo t_node [s_b1, t_pod]"
proof -
  have "one_board_each [s_b1, t_pod]"
    using t_facts(5,7) by (simp add: one_board_each_def)
  from heap_constructor_refines [OF this, of t_node a_heap] show ?thesis by (auto split: prod.splits)
qed

end
