(* ===== verification/Spec2Isabelle.thy ===== *)
theory Spec2Isabelle
  imports SchedulerProperties SystemProperties
begin

text \<open>
  A model of the orin device system: a scheduler extender that gives pods the Orin chips of one
  board of a node, and a device plugin that advertises the boards of its node and prepares the
  containers. The two programs share no state. The plugin publishes a node's boards as
  capacity of the node object, one decimal number per board whose digits say which orins the
  board carries; the extender reads that capacity, keeps an account of free orins per node, and
  writes the board it chose for a pod into an annotation; the plugin reads the annotation when
  a container of the pod starts.

  \<^bold>\<open>Theories and the code they model\<close> (paths under src/pkg):

  \<^item> Prelude, GoStd: finite maps with Go's zero values, 64-bit wrap-around, the outcome of code
    that may panic; the functions of strings, strconv and path the program calls.
  \<^item> K8sObjects: the fields of pods and nodes the program reads, common/common.go, the client.
  \<^item> Topo: scheduler/manager/topo/mazuinfo.go, boards and orins with \<open>Equal\<close>, \<open>Add\<close> and
    \<open>DifferenceFromSuperset\<close>. Abstractly a topology is a set of slots, pairs of a board and an
    orin; \<open>covers\<close> and \<open>board_minus\<close> are the specification of the difference.
  \<^item> DecimalMap: decimalmap.go. \<open>orin_codec\<close> is the contract between the encoding plugin and the
    decoding extender.
  \<^item> SchedUtil, WorkerPool: util.go. \<open>Parallelize\<close> is a step relation with one step per receive,
    per finished piece and per worker that leaves.
  \<^item> Allocator: allocator.go. \<open>board_allocator\<close> and \<open>binpack_allocator\<close> are the contracts the
    manager relies on.
  \<^item> NodeInfos, SchedCache: cache.go, the account of a node and the cache, one function per
    method, each returning the new state with the error, since a failing method may have
    written already. NodeInvariant proves the account: allocatable is total less requested, and
    requested is the disjoint union of what the pods hold. CacheMachine is the cache as a state
    machine under the discipline of its callers, with reachability. NodeHeap and HeapBuild have
    the account once more with its maps as references on a heap, shared and written in place as
    the code does, and prove that the values of NodeInfos are what one reads there.
  \<^item> Manager, ManagerFacts, BindFacts: manager.go. The filter and the scoring take the order in
    which the worker pool delivers the pieces as an argument, any permutation; \<open>Bind\<close> is
    characterised attempt by attempt, and \<open>pod_cache\<close> is its contract with the cache about known
    pods. Hazards treats nodes that lose devices and binds that overlap: there a bind is only its
    call of the bin-packing allocator and its call of \<open>AssumePod\<close>, without the API calls and the
    retries around them.
  \<^item> Controller, ControllerFacts: controller.go, the informer handlers, \<open>syncPod\<close>, the work item
    loop and \<open>runWorker\<close>, which is a partial function: \<open>None\<close> is a worker that waits for ever.
    ControllerRun: the informers' registrations, the workers of \<open>Run\<close> and its return, and the waits
    of \<open>NewController\<close>, during which the informers deliver anything and the world may change.
  \<^item> Routes, Server: scheduler/routes, the HTTP handlers, the routes and their registration.
  \<^item> Extender, ExtenderFacts, ExtenderRuns: the extender as a whole, a machine whose events are
    requests, notifications, worker steps and changes of the world; it refines the machine of
    CacheMachine as long as the cluster keeps \<open>ext_ok\<close>, and counts of binds and syncs are kept along
    its runs. ExtenderOps and DoubleBooking ask nothing of the cluster: what every operation keeps
    for all arguments holds in every state, and a double booking comes from pods the informers
    handed in, never from a request.
  \<^item> Clients, Startup: cmd/scheduler/scheduler.go, client, signals, router and \<open>main\<close>.
  \<^item> DeviceTypes: device/types. Provider: device/provider, with \<open>device_provider\<close> as the contract of
    the interface. PodResources: device/podresources/server.go and client.go. Locator:
    device/kubeapis/locator.go. Sitter: device/kubeapis/sitter.go.
  \<^item> Plugin, PluginFacts, NodeTopology: device/plugin/orin.go, and how the extender reads what the
    plugin publishes. PluginServer: device/plugin/plugin.go over the system calls, with the
    channels of its loop and the two goroutines \<open>Serve\<close> leaves behind; PluginRun: the loop as a
    machine that counts servers, which it refines.
    PluginMain: cmd/deviceplugin/deviceplugin.go.
  \<^item> SchedulerProperties, DeviceProperties, SystemProperties and this theory hold the properties;
    Samples, ClusterSample and SystemSamples the objects their witnesses evaluate.

  \<^bold>\<open>Conventions.\<close> A map is a finite map, a set of ints a finite set. The order in which a range
  over a map runs is an argument constrained by \<open>range_order\<close> where it can be observed (the
  allocator), and a lemma says it cannot be where the model folds over the sorted keys
  (\<open>DifferenceFromSuperset\<close>, \<open>NewNodeInfo\<close>, \<open>BuildDecimalMap\<close>). A panic is the outcome
  \<open>Panic\<close>. The API server, the informers' listers, the work queue, the retry package, the file
  system, the JSON and YAML codecs, SHA-256, net/url and gRPC are arguments, over a world \<open>'w\<close> each
  call takes to a new one. What a property needs of them is a named hypothesis:
  \<open>retry_contract\<close>, \<open>answers\<close>, \<open>serves_binpack\<close>, \<open>json_ok\<close>, \<open>list_order\<close>, \<open>router_contract\<close>,
  \<open>filtering_contract\<close>, \<open>file_store\<close>. \<open>ext_ok\<close> is a discipline of the cluster under which the
  account of every node is exact (\<open>ext_discipline_accounts\<close>); the code does not enforce it, and
  the properties of the extender's runs are stated without it.

  \<^bold>\<open>What the theorems show.\<close> From a sound account no request books an orin twice, only pods the
  informers hand in can; a pod is filed on a board and orins its node has; a pod that is not
  released is bound once at most; a bind that returns nil claims exactly the requested orins of
  one board; the filter accepts exactly the nodes with a board that fits; the extender's
  topology is the one in the plugin's file; the board a bind annotates is one on which the
  plugin has the orins, and a container start writes their attributes where \<open>Allocate\<close> mounts
  them. They also show where the code does less: a failed bind leaves its pod unbindable
  and may leave its orins taken, a failed \<open>addPod\<close> blocks its node, overlapping binds share
  orins, an unknown policy panics the filter, rejected nodes leave empty names in its
  answer, the worker stops after each success, so a running pod can be synced after its orins
  were given away, a stale annotation frees the orins of another pod, and the plugin's loop
  can block.

  \<^bold>\<open>Bounds.\<close> Board ids and orin ids are 64-bit; a board's orins fit in a quantity when they are
  numbered from one to nineteen (\<open>orins_in_range\<close>); the allocator's contract excludes a
  board numbered minus one, which is its sentinel, and a board with \<open>MaxInt\<close> orins (\<open>alloc_ok\<close>).
  \<open>retry.Do\<close> makes three attempts. No fuel is used.

  \<^bold>\<open>Not modelled.\<close> The generated protobuf code; the event recorder of the controller, which
  nothing uses; logging, beyond the debug lines around the routes. Null entries of the device
  file are excluded. The steps of the extender are atomic: one request, one notification, one
  work item; Hazards has the interleaving inside \<open>Bind\<close> that matters.
\<close>

section \<open>From the device file to the scheduler\<close>

text \<open>What the hypotheses of this section say of a file provider and the node it runs on.\<close>

definition published :: "Node \<Rightarrow> ('w, 'cl) plugin_env \<Rightarrow> FileDeviceProvider \<Rightarrow> bool" where
  "published node e fp \<longleftrightarrow> carries node e (file_methods fp) \<and>
     boards_in_range (file_methods fp) \<and> orins_in_range (file_methods fp)"

lemma published_total:
  assumes "published node e fp"
  shows "BoardSet (node_total node) = fset_of_list (GetBoards fp)"
    and "(b, i) \<in> slots (node_total node) \<longleftrightarrow> i \<in> set (GetBoardOrins fp b) \<and> 1 \<le> i"
proof -
  note total = node_total_published [of node e "file_methods fp"]
  show "BoardSet (node_total node) = fset_of_list (GetBoards fp)"
    using total(1) assms by (simp add: published_def file_methods_def)
  show "(b, i) \<in> slots (node_total node) \<longleftrightarrow> i \<in> set (GetBoardOrins fp b) \<and> 1 \<le> i"
    using total(2) [of b i] assms file_provider.orins_board [of i fp b]
    by (auto simp: published_def file_methods_def simp del: slots_iff)
qed

lemma published_fits:
  assumes "published node e fp" "fBall req (\<lambda>i. 1 \<le> i)"
  shows "fits_board (node_total node) req b \<longleftrightarrow> b \<in> set (GetBoards fp) \<and> fset req \<subseteq> set (GetBoardOrins fp b)"
proof -
  have "{b} \<times> fset req \<subseteq> slots (node_total node) \<longleftrightarrow> fset req \<subseteq> set (GetBoardOrins fp b)"
    using assms(2) published_total(2) [OF assms(1)] by (auto simp: fBall_alt_def simp del: slots_iff)
  then show ?thesis by (simp add: fits_board_slots published_total(1) [OF assms(1)] fset_of_list_elem)
qed

text \<open>
  C17: The devices the scheduler counts on a node are the ones in the plugin's device file: the
  boards of the node's total are the file's boards, and an orin is on a board in the total
  exactly when the file puts it there and its id is at least one. The plugin's classes say
  the same.
\<close>

theorem scheduled_topology_is_the_file:
  assumes "published node e fp"
  shows "BoardSet (Total (NewNodeInfo node [])) = fset_of_list (GetBoards fp) \<and>
     (\<forall>b i. (b, i) \<in> slots (Total (NewNodeInfo node [])) \<longleftrightarrow> i \<in> set (GetBoardOrins fp b) \<and> 1 \<le> i) \<and>
     (\<forall>b i. (b, i) \<in> slots (Total (NewNodeInfo node [])) \<longleftrightarrow> b |\<in>| map_get {||} (GetOrinClasses fp) i \<and> 1 \<le> i)"
  using published_total [OF assms] file_provider.class_iff by (simp del: slots_iff)

definition s_published_node :: Node where
  "s_published_node = \<lparr>node_Name = ''n1'', node_Capacity = extra_resource s_penv (file_methods s_fp),
     node_DeletionTimestamp = None\<rparr>"

lemma s_published: "published s_published_node s_penv s_fp"
proof -
  have "carries s_published_node s_penv (file_methods s_fp)"
    by (simp add: carries_def s_published_node_def)
  moreover have "boards_in_range (file_methods s_fp)" "orins_in_range (file_methods s_fp)" by code_simp+
  ultimately show ?thesis by (simp add: published_def)
qed

lemma scheduled_topology_is_the_file_witness:
  "BoardSet (Total (NewNodeInfo s_published_node [])) = {|1, 2|} \<and> (2, 2) \<in> slots (Total (NewNodeInfo s_published_node []))"
proof -
  have "fset_of_list (GetBoards s_fp) = {|1, 2|}" "2 \<in> set (GetBoardOrins s_fp 2)" by code_simp+
  then show ?thesis using scheduled_topology_is_the_file [OF s_published] by (simp del: slots_iff)
qed

text \<open>
  C18: The filter accepts a node without pods exactly when some board of its device file carries
  all the orins the pod requests, whatever other nodes it is asked about and in whatever order
  the worker pool takes them; otherwise the node is among the failed ones.
\<close>

definition file_hosts :: "FileDeviceProvider \<Rightarrow> Pod \<Rightarrow> bool" where
  "file_hosts fp pod \<longleftrightarrow>
     (\<exists>b \<in> set (GetBoards fp). fset (BuildRequestOrinSet pod) \<subseteq> set (GetBoardOrins fp b))"

lemma orin_count_small:
  assumes "slots d \<subseteq> UNIV \<times> {1..19}"
  shows "orin_count d b < MaxInt"
proof -
  have "fset (OrinSet (board_orins d b)) \<subseteq> {1..19}" using assms slots_iff by blast
  then have "card (fset (OrinSet (board_orins d b))) \<le> card {1..19 :: int}" by (intro card_mono) simp_all
  then show ?thesis by (simp add: orin_count_def fcard.rep_eq MaxInt_def)
qed

lemma published_admits:
  assumes "published node e fp" "range_order rng" "Cache_GetNode c name = Some (NewNodeInfo node [])"
    "fBall (BuildRequestOrinSet pod) (\<lambda>i. 1 \<le> i)" "BoardIDNotFount \<notin> set (GetBoards fp)"
  shows "admits rng c (BuildRequestOrinSet pod) name \<longleftrightarrow> file_hosts fp pod"
proof -
  have A: "Allocatable (NewNodeInfo node []) = node_total node" by (simp add: NewNodeInfo_def)
  have "alloc_ok (node_total node)"
    using assms(5) published_total(1) [OF assms(1)] orin_count_small [OF node_total_orins]
    by (auto simp: alloc_ok_def fset_of_list_elem)
  from binpack.found_iff [OF assms(2) this] show ?thesis
    using published_fits [OF assms(1,4)] by (auto simp: admits_def assms(3) A file_hosts_def)
qed

theorem filter_matches_the_file:
  assumes "published node e fp" "range_order rng" "Cache_GetNode c (node_Name node) = Some (NewNodeInfo node [])"
    "fBall (BuildRequestOrinSet pod) (\<lambda>i. 1 \<le> i)" "BoardIDNotFount \<notin> set (GetBoards fp)"
    and "mset ord = mset [0..<length nodes]" "node_Name node \<in> set nodes" "node_Name node \<noteq> []"
      "policy_of pod = AllocatorPolicyBinPack"
  shows "\<exists>accepted fails. Predicate rng ord c nodes pod = Ret (accepted, fails) \<and>
     (node_Name node \<in> set accepted \<longleftrightarrow> file_hosts fp pod) \<and>
     (has_key fails (node_Name node) \<longleftrightarrow> \<not> file_hosts fp pod)"
proof -
  let ?n = "node_Name node" and ?P = "admits rng c (BuildRequestOrinSet pod)"
  obtain fails where run: "Predicate rng ord c nodes pod =
      Ret (map ((!) nodes) (filter (\<lambda>i. ?P (nodes ! i)) ord) @ replicate (length (filter (\<lambda>n. \<not> ?P n) nodes)) [], fails)"
    and fails: "\<forall>n. has_key fails n \<longleftrightarrow> n \<in> set nodes \<and> \<not> ?P n"
    using Predicate_binpack [OF assms(6,9), of rng c] by blast
  have "?n \<in> set (map ((!) nodes) (filter (\<lambda>i. ?P (nodes ! i)) ord)) \<longleftrightarrow> ?P ?n"
    using arg_cong [OF perm_indices(3) [OF assms(6), of ?P], of set_mset] assms(7) by simp
  with run fails assms(7,8) show ?thesis
    using published_admits [OF assms(1-5)] by auto
qed

lemma filter_matches_the_file_witness:
  "\<exists>accepted fails. Predicate sorted_range [1, 0] (fst (Cache_AddNode NewScheduleCache s_published_node [])) [''n0'', ''n1''] s_p2 =
       Ret (accepted, fails) \<and> ''n1'' \<in> set accepted"
proof -
  let ?c = "fst (Cache_AddNode NewScheduleCache s_published_node [])"
  have node: "Cache_GetNode ?c (node_Name s_published_node) = Some (NewNodeInfo s_published_node [])"
    "node_Name s_published_node \<in> set [''n0'', ''n1'']" "node_Name s_published_node \<noteq> []"
    by (simp_all add: Cache_AddNode_def Cache_GetNode_def s_published_node_def)
  have pod: "fBall (BuildRequestOrinSet s_p2) (\<lambda>i. 1 \<le> i)" "policy_of s_p2 = AllocatorPolicyBinPack"
    "BoardIDNotFount \<notin> set (GetBoards s_fp)" "file_hosts s_fp s_p2"
    by code_simp+
  have "mset [1, 0] = mset [0..<length [''n0'', ''n1'']]" by (simp add: upt_rec)
  from filter_matches_the_file [OF s_published range_order_sorted node(1) pod(1,3) this node(2,3) pod(2)] pod(4)
  show ?thesis by (auto simp: s_published_node_def)
qed

section \<open>From the bind to the container\<close>

text \<open>What a successful bind leaves, in the terms of the device file.\<close>

lemma bind_attributes:
  assumes "published n e fp" "range_order rng" "fresh_bind c node u" "retry_contract R"
    "Bind cs R rng c w node name ns u = Ret ((c', w'), None)"
    "Cache_GetNode c node = Some ni" "Total ni = node_total n"
  obtains ni' bp b v v' where "Cache_GetNode c' node = Some ni'" "fmlookup (Pods ni') u = Some bp" "bind_board bp = Some b"
    "cs_UpdatePod cs v (pod_Namespace bp) bp = (v', None)"
    "\<And>i. i |\<in>| BuildRequestOrinSet bp \<Longrightarrow> GetOrinAttrs fp b i \<noteq> fmempty"
proof -
  obtain bp v v' where np: "bound_to c node u c' (Some bp)" "cs_UpdatePod cs v (pod_Namespace bp) bp = (v', None)"
    using Bind_success_updated [OF assms(2-5)] by blast
  obtain ni' pod b where bp: "bp = AddPodBindAnnotation pod b" "claims c node u pod b c'" "bind_board bp = Some b"
    "Cache_GetNode c' node = Some ni'" "fmlookup (Pods ni') u = Some bp"
    by (rule bound_pod_board [OF np(1)])
  have "cache_sound c" using assms(3) by (simp add: fresh_bind_def)
  then have "node_sound ni" using assms(6) cache_soundD [of c node ni] by (simp add: Cache_GetNode_def)
  then have free: "slots (Allocatable ni) \<subseteq> slots (Total ni)"
    using ni_inv_slots [of ni] by (auto simp: node_sound_def simp del: slots_iff)
  have "GetOrinAttrs fp b i \<noteq> fmempty" if "i |\<in>| BuildRequestOrinSet bp" for i
  proof -
    have "(b, i) \<in> slots (Allocatable ni)"
      using assms(6) bp(2) that by (auto simp: bp(1) claims_def free_slots_def simp del: slots_iff)
    then have "i \<in> set (GetBoardOrins fp b)"
      using free assms(7) published_total(2) [OF assms(1), of b i] by (auto simp del: slots_iff)
    then show ?thesis by (simp add: file_provider.attrs_iff)
  qed
  with bp(3,4,5) np(2) show ?thesis by (intro that)
qed

text \<open>
  C19: A bind that returns nil, on a node with the devices of a plugin's file, has annotated the
  pod with a board on which that plugin finds every orin the pod requests. The annotated pod
  is the one the cache holds on the node and the one the API server took the update of.
\<close>

theorem claimed_board_has_attributes:
  assumes "published n e fp" "range_order rng" "fresh_bind c node u" "retry_contract R"
    "Bind cs R rng c w node name ns u = Ret ((c', w'), None)"
    "Cache_GetNode c node = Some ni" "Total ni = node_total n"
  shows "\<exists>ni' bp b v v'. Cache_GetNode c' node = Some ni' \<and> fmlookup (Pods ni') u = Some bp \<and> bind_board bp = Some b \<and>
     cs_UpdatePod cs v (pod_Namespace bp) bp = (v', None) \<and>
     (\<forall>i. i |\<in>| BuildRequestOrinSet bp \<longrightarrow> GetOrinAttrs fp b i \<noteq> fmempty)"
  by (rule bind_attributes [OF assms]) blast

definition s_published_cache :: scheduleCache where
  "s_published_cache = fst (Cache_AddNode NewScheduleCache s_published_node [])"

lemma s_published_bind:
  "fresh_bind s_published_cache ''n1'' ''u1''"
  "Cache_GetNode s_published_cache ''n1'' = Some (NewNodeInfo s_published_node [])"
proof -
  show node: "Cache_GetNode s_published_cache ''n1'' = Some (NewNodeInfo s_published_node [])"
    by (simp add: s_published_cache_def Cache_AddNode_def Cache_GetNode_def s_published_node_def)
  have "cache_reachable s_published_cache"
    unfolding s_published_cache_def by (rule cache_reachable.step [OF cache_reachable.start cache_step.node_added]) simp
  from cache_reachable_sound [OF this] show "fresh_bind s_published_cache ''n1'' ''u1''"
    by (simp add: fresh_bind_def not_on_node_def node NewNodeInfo_def)
qed

definition s_bound :: "scheduleCache \<Rightarrow> bool" where
  "s_bound c \<longleftrightarrow>
     (case Cache_GetNode c ''n1'' of None \<Rightarrow> False | Some ni \<Rightarrow> fmlookup (Pods ni) ''u1'' = Some s_b1)"

lemma s_bind_runs:
  obtains c w ni where
    "Bind (s_client s_p1 None None) s_retry sorted_range s_published_cache 0 ''n1'' ''u1'' ''d'' ''u1'' = Ret ((c, w), None)"
    "Cache_GetNode c ''n1'' = Some ni" "fmlookup (Pods ni) ''u1'' = Some s_b1"
proof -
  let ?run = "Bind (s_client s_p1 None None) s_retry sorted_range s_published_cache 0 ''n1'' ''u1'' ''d'' ''u1''"
  have "case ?run of Panic \<Rightarrow> False | Ret ((c, w), e) \<Rightarrow> e = None \<and> s_bound c" by code_simp
  then obtain c w where "?run = Ret ((c, w), None)" "s_bound c"
    by (cases ?run) (auto split: prod.splits)
  then show ?thesis by (auto simp: s_bound_def intro: that split: option.splits)
qed

lemma claimed_board_has_attributes_witness:
  "GetOrinAttrs s_fp 1 1 \<noteq> fmempty"
proof -
  obtain c w ni where run:
    "Bind (s_client s_p1 None None) s_retry sorted_range s_published_cache 0 ''n1'' ''u1'' ''d'' ''u1'' = Ret ((c, w), None)"
    "Cache_GetNode c ''n1'' = Some ni" "fmlookup (Pods ni) ''u1'' = Some s_b1"
    by (rule s_bind_runs)
  have "bind_board s_b1 = Some 1" "1 |\<in>| BuildRequestOrinSet s_b1" by code_simp+
  with claimed_board_has_attributes [OF s_published range_order_sorted s_published_bind(1) s_retry_contract run(1)
      s_published_bind(2)] run(2,3)
  show ?thesis by auto
qed

text \<open>
  C20: From the bind to the container: when a bind returned nil for a pod on a node with the devices
  of a plugin's file, and that plugin then starts a container of the pod, seeing the
  annotations and containers the bind left, for an orin the pod requests, the start that
  succeeds leaves in the mounted directory the JSON of that orin's attributes on the board the
  extender chose, and they are not empty.
\<close>

theorem bound_pod_gets_its_attributes:
  assumes "published n e fp" "range_order rng" "fresh_bind c node u" "retry_contract R"
    "Bind cs R rng c w node name ns u = Ret ((c', w'), None)"
    "Cache_GetNode c node = Some ni" "Total ni = node_total n"
    and "Cache_GetNode c' node = Some ni'" "fmlookup (Pods ni') u = Some bp"
      "prestart_pod e cfg srv v (concat reqs) = Some pod"
      "pod_Annotations pod = pod_Annotations bp" "pod_Containers pod = pod_Containers bp"
    and "cfg_DeviceProvider cfg = file_methods fp" "OrinID srv |\<in>| BuildRequestOrinSet bp" "file_store e content"
      "PreStartContainer e cfg srv v (concat reqs) = Ret ((v', cfg'), None)"
  shows "\<exists>m b data. Plugin_Allocate srv reqs = Inr [[m]] \<and> bind_board bp = Some b \<and>
     GetOrinAttrs fp b (OrinID srv) \<noteq> fmempty \<and> json_attrs e (GetOrinAttrs fp b (OrinID srv)) = Inr data \<and>
     content v' (PathJoin [HostPath m, ''config.json'']) = Some data"
proof -
  obtain b where b: "bind_board bp = Some b" "\<And>i. i |\<in>| BuildRequestOrinSet bp \<Longrightarrow> GetOrinAttrs fp b i \<noteq> fmempty"
    using assms(8,9) by (auto intro: bind_attributes [OF assms(1-7)])
  have same: "bind_board pod = Some b" "BuildRequestOrinSet pod = BuildRequestOrinSet bp"
    using b(1) by (simp_all add: bind_board_def BuildRequestOrinSet_def assms(11,12))
  have req: "BuildRequestOrinSet pod \<noteq> {||}" using assms(14) same(2) by auto
  have attrs: "dp_GetOrinAttrs (cfg_DeviceProvider cfg) b (OrinID srv) = Some (GetOrinAttrs fp b (OrinID srv))"
    by (simp add: assms(13) file_methods_def)
  obtain m p d where pre: "Plugin_Allocate srv reqs = Inr [[m]]" "prestart_pod e cfg srv v (concat reqs) = Some p"
    "bind_board p = Some d"
    "\<And>attrs. BuildRequestOrinSet p \<noteq> {||} \<Longrightarrow> dp_GetOrinAttrs (cfg_DeviceProvider cfg) d (OrinID srv) = Some attrs \<Longrightarrow>
       \<exists>data. json_attrs e attrs = Inr data \<and> content v' (PathJoin [HostPath m, ''config.json'']) = Some data"
    by (rule PreStart_writes [OF assms(16,15)]) (rule that)
  have p: "p = pod" "d = b" using pre(2,3) assms(10) same(1) by simp_all
  show ?thesis using pre(1) pre(4) [unfolded p, OF req attrs] b(1) b(2) [OF assms(14)] by blast
qed

lemma bound_pod_gets_its_attributes_witness:
  "\<exists>w c m data. PreStartContainer f_penv f_cfg f_srv [] (concat [[''1-1'']]) = Ret ((w, c), None) \<and>
     Plugin_Allocate f_srv [[''1-1'']] = Inr [[m]] \<and> map_of w (PathJoin [HostPath m, ''config.json'']) = Some data"
proof -
  obtain c w ni where bind:
    "Bind (s_client s_p1 None None) s_retry sorted_range s_published_cache 0 ''n1'' ''u1'' ''d'' ''u1'' = Ret ((c, w), None)"
    "Cache_GetNode c ''n1'' = Some ni" "fmlookup (Pods ni) ''u1'' = Some s_b1"
    by (rule s_bind_runs)
  obtain w' cfg' where start: "PreStartContainer f_penv f_cfg f_srv [] (concat [[''1-1'']]) = Ret ((w', cfg'), None)"
    "prestart_pod f_penv f_cfg f_srv [] (concat [[''1-1'']]) = Some s_b1"
    by (rule f_start)
  have pub: "published s_published_node f_penv s_fp"
    using s_published by (simp add: published_def carries_def extra_resource_def s_penv_def f_penv_def)
  have cfg: "cfg_DeviceProvider f_cfg = file_methods s_fp" by (simp add: f_cfg_def s_cfg_def)
  have orin: "OrinID f_srv |\<in>| BuildRequestOrinSet s_b1" by code_simp
  have total: "Total (NewNodeInfo s_published_node []) = node_total s_published_node" by simp
  from bound_pod_gets_its_attributes [OF pub range_order_sorted s_published_bind(1) s_retry_contract bind(1)
      s_published_bind(2) total bind(2,3) start(2) refl refl cfg orin f_store start(1)] start(1)
  show ?thesis by blast
qed

end
